(* ===== verification/Prelude.thy ===== *)
theory Prelude
  imports Main "HOL-Library.Word" "HOL-Library.AList" "HOL-Library.Multiset"
begin

section \<open>Prelude: shared types, collections and helper lemmas\<close>

text \<open>
  Types and small functions that every component uses, and the collections its lemmas
  are gathered in.
  \<^item> Machine integers are words of their Rust width.
  \<^item> A Rust \<open>u8\<close> of a byte buffer is a HOL \<open>char\<close> (exactly eight bits), so a byte
    buffer and the UTF-8 content of a Rust \<open>String\<close> have the same type and
    \<open>s.as_bytes()\<close> is the identity.
  \<^item> A \<open>Result\<close> is a sum: \<open>Inl\<close> is \<open>Err\<close>, \<open>Inr\<close> is \<open>Ok\<close>.
\<close>

type_synonym u8 = "8 word"
type_synonym u16 = "16 word"
type_synonym u32 = "32 word"
type_synonym u64 = "64 word"
type_synonym bytes = string
type_synonym uuid = "128 word"

text \<open>
  \<open>codec\<close>: decoding an encoded value. \<open>hm\<close>: reading an updated hash map.
  \<open>task\<close>: symbolic execution of the asynchronous tasks.
\<close>

named_theorems codec
named_theorems hm
named_theorems task

lemma unat_succ_below: "x < m \<Longrightarrow> unat (x + 1) = unat x + 1" for x m :: "'a::len word"
proof -
  assume "x < m"
  then have "unat x < unat m" by (simp add: word_less_nat_alt)
  moreover have "unat m < 2 ^ LENGTH('a)" by (rule unsigned_less)
  ultimately have "unat x + 1 < 2 ^ LENGTH('a)" by linarith
  then show "unat (x + 1) = unat x + 1" by (simp add: unat_word_ariths)
qed

subsection \<open>Results\<close>

definition rbind :: "'e + 'a \<Rightarrow> ('a \<Rightarrow> 'e + 'b) \<Rightarrow> 'e + 'b" where
  "rbind r f = (case r of Inl e \<Rightarrow> Inl e | Inr x \<Rightarrow> f x)"

definition ok_or :: "'e \<Rightarrow> 'a option \<Rightarrow> 'e + 'a" where
  "ok_or e x = (case x of None \<Rightarrow> Inl e | Some y \<Rightarrow> Inr y)"

definition map_err :: "('e \<Rightarrow> 'f) \<Rightarrow> 'e + 'a \<Rightarrow> 'f + 'a" where
  "map_err f r = (case r of Inl e \<Rightarrow> Inl (f e) | Inr x \<Rightarrow> Inr x)"

definition is_ok :: "'e + 'a \<Rightarrow> bool" where
  "is_ok r = (case r of Inl _ \<Rightarrow> False | Inr _ \<Rightarrow> True)"

lemma rbind_simps [simp]:
  "rbind (Inl e) f = Inl e" "rbind (Inr x) f = f x"
  by (simp_all add: rbind_def)

lemma ok_or_simps [simp]:
  "ok_or e None = Inl e" "ok_or e (Some x) = Inr x"
  by (simp_all add: ok_or_def)

lemma map_err_simps [simp]:
  "map_err f (Inl e) = Inl (f e)" "map_err f (Inr x) = Inr x"
  by (simp_all add: map_err_def)

lemma rbind_Inr: "rbind r f = Inr y \<longleftrightarrow> (\<exists>x. r = Inr x \<and> f x = Inr y)"
  by (cases r) auto

lemma ok_or_Inr [simp]: "ok_or e x = Inr y \<longleftrightarrow> x = Some y"
  by (cases x) auto

lemma is_ok_simps [simp]: "\<not> is_ok (Inl e)" "is_ok (Inr x)"
  by (simp_all add: is_ok_def)

text \<open>\<open>anyhow::Error\<close>: a text that this code gives, or an error of a library.\<close>

datatype anyhow = Anyhow string | LibError

subsection \<open>Strings\<close>

text \<open>Rust's \<open>str::split(c)\<close>: always at least one piece.\<close>

fun split_on :: "char \<Rightarrow> string \<Rightarrow> string list" where
  "split_on c [] = [[]]"
| "split_on c (x # xs) =
     (if x = c then [] # split_on c xs
      else (case split_on c xs of [] \<Rightarrow> [[x]] | y # ys \<Rightarrow> (x # y) # ys))"

fun join_with :: "string \<Rightarrow> string list \<Rightarrow> string" where
  "join_with sep [] = []"
| "join_with sep [x] = x"
| "join_with sep (x # y # ys) = x @ sep @ join_with sep (y # ys)"

lemma split_on_not_Nil [simp]: "split_on c xs \<noteq> []"
  by (induction xs) (auto split: list.splits)

lemma split_on_clean: "c \<notin> set xs \<Longrightarrow> split_on c xs = [xs]"
  by (induction xs) auto

lemma split_on_append: "c \<notin> set xs \<Longrightarrow> split_on c (xs @ c # ys) = xs # split_on c ys"
  by (induction xs) auto

lemma split_on_no_sep: "p \<in> set (split_on c xs) \<Longrightarrow> c \<notin> set p"
proof (induction xs arbitrary: p)
  case Nil
  then show ?case by simp
next
  case (Cons x xs)
  then show ?case by (cases "split_on c xs") (auto split: if_splits)
qed

lemma length_split_on: "length (split_on c xs) = Suc (count_list xs c)"
  by (induction xs) (auto split: list.splits)

lemma join_with_Cons: "ys \<noteq> [] \<Longrightarrow> join_with sep (x # ys) = x @ sep @ join_with sep ys"
  by (cases ys) auto

lemma last_split_on: "c \<notin> set ys \<Longrightarrow> last (split_on c (xs @ c # ys)) = ys"
proof (induction xs)
  case (Cons x xs)
  obtain z zs where s: "split_on c (xs @ c # ys) = z # zs" by (cases "split_on c (xs @ c # ys)") auto
  have "1 < length (split_on c (xs @ c # ys))" by (simp add: length_split_on)
  with s have "zs \<noteq> []" by auto
  then show ?case using Cons s by simp
qed (simp add: split_on_clean)

lemma join_split_on: "join_with [c] (split_on c xs) = xs"
proof (induction xs)
  case Nil
  then show ?case by simp
next
  case (Cons x xs)
  obtain y ys where s: "split_on c xs = y # ys"
    by (cases "split_on c xs") auto
  show ?case
  proof (cases "x = c")
    case True
    then show ?thesis by (simp add: join_with_Cons Cons.IH)
  next
    case False
    from s Cons.IH have "join_with [c] (y # ys) = xs" by simp
    then have "join_with [c] ((x # y) # ys) = x # xs"
      by (cases ys) auto
    with False s show ?thesis by simp
  qed
qed

lemma split_join_with:
  "xs \<noteq> [] \<Longrightarrow> \<forall>x \<in> set xs. c \<notin> set x \<Longrightarrow> split_on c (join_with [c] xs) = xs"
proof (induction xs rule: induct_list012)
  case (3 x y zs)
  then show ?case by (simp add: split_on_append)
qed (simp_all add: split_on_clean)

text \<open>
  The white space \<open>str::trim\<close> removes, restricted to the characters an HTTP header
  value converted by \<open>to_str\<close> can hold (visible ASCII, space and tab).
\<close>

definition is_ws :: "char \<Rightarrow> bool" where
  "is_ws c \<longleftrightarrow> c = CHR 0x20 \<or> c = CHR 0x09"

definition trim :: "string \<Rightarrow> string" where
  "trim s = rev (dropWhile is_ws (rev (dropWhile is_ws s)))"

lemma trim_clean:
  assumes "\<forall>c \<in> set s. \<not> is_ws c" "\<forall>c \<in> set pre. is_ws c"
  shows "trim (pre @ s) = s"
proof -
  have "dropWhile is_ws (pre @ s) = dropWhile is_ws s"
    using assms(2) by (simp add: dropWhile_append)
  also have "\<dots> = s" using assms(1) by (cases s) auto
  finally have "trim (pre @ s) = rev (dropWhile is_ws (rev s))" by (simp only: trim_def)
  also have "dropWhile is_ws (rev s) = rev s"
    using assms(1) by (cases "rev s") (simp, metis dropWhile.simps(2) list.set_intros(1) set_rev)
  finally show ?thesis by simp
qed

text \<open>Number formatting: \<open>{}\<close> and \<open>{:x}\<close> of an unsigned integer.\<close>

definition digit_char :: "nat \<Rightarrow> char" where
  "digit_char d = (if d < 10 then char_of (48 + d) else char_of (87 + d))"

fun show_radix :: "nat \<Rightarrow> nat \<Rightarrow> string" where
  "show_radix r n =
     (if r < 2 \<or> n < r then [digit_char n]
      else show_radix r (n div r) @ [digit_char (n mod r)])"

declare show_radix.simps [simp del]

abbreviation show_dec :: "nat \<Rightarrow> string" where "show_dec \<equiv> show_radix 10"
abbreviation show_hex :: "nat \<Rightarrow> string" where "show_hex \<equiv> show_radix 16"

lemma show_radix_not_Nil [simp]: "show_radix r n \<noteq> []"
  by (subst show_radix.simps) simp

definition char_digit :: "char \<Rightarrow> nat option" where
  "char_digit c =
     (let k = of_char c in
      if 48 \<le> k \<and> k \<le> 57 then Some (k - 48)
      else if 97 \<le> k \<and> k \<le> 102 then Some (k - 87)
      else if 65 \<le> k \<and> k \<le> 70 then Some (k - 55)
      else None)"

lemma char_digit_digit_char: "d < 16 \<Longrightarrow> char_digit (digit_char d) = Some d"
  by (auto simp: char_digit_def digit_char_def Let_def)

lemma digit_char_inj: "d < 16 \<Longrightarrow> e < 16 \<Longrightarrow> digit_char d = digit_char e \<Longrightarrow> d = e"
  by (metis char_digit_digit_char option.inject)

text \<open>A digit is none of the separators of the textual formats.\<close>

lemma digit_char_not_sep:
  assumes "d < 16"
  shows "digit_char d \<noteq> CHR ''.''" "digit_char d \<noteq> CHR '':''" "digit_char d \<noteq> CHR ''/''"
  using char_digit_digit_char [OF assms] by (auto simp: char_digit_def)

lemma set_show_radix: "2 \<le> r \<Longrightarrow> c \<in> set (show_radix r n) \<Longrightarrow> \<exists>d<r. c = digit_char d"
proof (induction r n rule: show_radix.induct)
  case (1 r n)
  show ?case
  proof (cases "n < r")
    case True
    with "1.prems" show ?thesis by (subst (asm) show_radix.simps) auto
  next
    case False
    with "1.prems" have "c \<in> set (show_radix r (n div r)) \<or> c = digit_char (n mod r)"
      by (subst (asm) show_radix.simps) auto
    moreover have "n mod r < r" using "1.prems" by simp
    moreover have "c \<in> set (show_radix r (n div r)) \<Longrightarrow> \<exists>d<r. c = digit_char d"
      using "1.IH" "1.prems"(1) False by simp
    ultimately show ?thesis by blast
  qed
qed

definition read_radix :: "nat \<Rightarrow> string \<Rightarrow> nat" where
  "read_radix r s = foldl (\<lambda>a c. a * r + (case char_digit c of None \<Rightarrow> 0 | Some d \<Rightarrow> d)) 0 s"

lemma read_radix_snoc:
  "read_radix r (s @ [c]) =
     read_radix r s * r + (case char_digit c of None \<Rightarrow> 0 | Some d \<Rightarrow> d)"
  by (simp add: read_radix_def)

lemma read_show_radix: "2 \<le> r \<Longrightarrow> r \<le> 16 \<Longrightarrow> read_radix r (show_radix r n) = n"
proof (induction r n rule: show_radix.induct)
  case (1 r n)
  show ?case
  proof (cases "n < r")
    case True
    with "1.prems" show ?thesis
      by (subst show_radix.simps) (simp add: read_radix_def char_digit_digit_char)
  next
    case False
    with "1.prems" have "read_radix r (show_radix r (n div r)) = n div r"
      using "1.IH" by simp
    moreover have "n mod r < r" using "1.prems" by simp
    then have "n mod r < 16" using "1.prems" by linarith
    ultimately show ?thesis using False "1.prems"
      by (subst show_radix.simps) (simp add: read_radix_snoc char_digit_digit_char div_mult_mod_eq)
  qed
qed

lemma show_radix_inj: "2 \<le> r \<Longrightarrow> r \<le> 16 \<Longrightarrow> show_radix r m = show_radix r n \<Longrightarrow> m = n"
  by (metis read_show_radix)

subsection \<open>UTF-8\<close>

text \<open>
  The check of \<open>String::from_utf8\<close>: well-formed sequences of one to four bytes, no
  overlong forms, no surrogates, nothing above \<open>U+10FFFF\<close>.
\<close>

definition is_cont :: "char \<Rightarrow> bool" where
  "is_cont c \<longleftrightarrow> 128 \<le> (of_char c :: nat) \<and> (of_char c :: nat) < 192"

definition utf8_second_ok :: "nat \<Rightarrow> char \<Rightarrow> bool" where
  "utf8_second_ok lead c =
     (let k = of_char c in
      if lead = 224 then 160 \<le> k \<and> k < 192
      else if lead = 237 then 128 \<le> k \<and> k < 160
      else if lead = 240 then 144 \<le> k \<and> k < 192
      else if lead = 244 then 128 \<le> k \<and> k < 144
      else 128 \<le> k \<and> k < (192::nat))"

fun valid_utf8 :: "bytes \<Rightarrow> bool" where
  "valid_utf8 [] = True"
| "valid_utf8 (a # xs) =
     (let k = of_char a in
      if k < (128::nat) then valid_utf8 xs
      else if 194 \<le> k \<and> k < 224 then
        (case xs of b # ys \<Rightarrow> is_cont b \<and> valid_utf8 ys | _ \<Rightarrow> False)
      else if 224 \<le> k \<and> k < 240 then
        (case xs of b # c # ys \<Rightarrow> utf8_second_ok k b \<and> is_cont c \<and> valid_utf8 ys | _ \<Rightarrow> False)
      else if 240 \<le> k \<and> k < 245 then
        (case xs of b # c # d # ys \<Rightarrow>
             utf8_second_ok k b \<and> is_cont c \<and> is_cont d \<and> valid_utf8 ys
         | _ \<Rightarrow> False)
      else False)"

definition from_utf8 :: "bytes \<Rightarrow> string option" where
  "from_utf8 b = (if valid_utf8 b then Some b else None)"

lemma valid_utf8_ascii: "\<forall>c\<in>set s. (of_char c :: nat) < 128 \<Longrightarrow> valid_utf8 s"
  by (induction s) (auto simp: Let_def)

subsection \<open>Lists\<close>

lemma filter_key_map_of:
  "distinct (map fst xs) \<Longrightarrow>
     filter (\<lambda>p. fst p = k) xs = (case map_of xs k of None \<Rightarrow> [] | Some v \<Rightarrow> [(k, v)])"
proof (induction xs)
  case Nil
  then show ?case by simp
next
  case (Cons a xs)
  then show ?case
    by (cases a) (auto simp: filter_empty_conv rev_image_eqI split: option.splits)
qed

lemma length_filter_neq_key:
  "distinct (map fst xs) \<Longrightarrow> k \<in> fst ` set xs \<Longrightarrow>
     Suc (length (filter (\<lambda>p. fst p \<noteq> k) xs)) = length xs"
proof (induction xs)
  case Nil
  then show ?case by simp
next
  case (Cons a xs)
  show ?case
  proof (cases "fst a = k")
    case True
    with Cons.prems have "k \<notin> fst ` set xs" by auto
    then have "filter (\<lambda>p. fst p \<noteq> k) xs = xs" by (auto simp: filter_id_conv)
    with True show ?thesis by simp
  next
    case False
    with Cons show ?thesis by auto
  qed
qed

end
