(* ===== verification/Hash_Map.thy ===== *)
theory Hash_Map
  imports Prelude
begin

section \<open>The map interface and its association-list instance\<close>

text \<open>
  The code keeps its tables in \<open>std::collections::HashMap\<close> (and key sets in
  \<open>HashSet\<close>). The locale \<open>hash_map\<close> states what the components use: lookup after an
  insertion or a removal, and that iteration yields every entry exactly once. The order
  of iteration is not specified by Rust, so the components' lemmas speak about the set
  of entries and its size, never about a position. The instance is an association list
  with distinct keys; its list order stands for one of the possible orders.
\<close>

locale hash_map =
  fixes emp :: "'m"
    and get :: "'m \<Rightarrow> 'k \<Rightarrow> 'v option"
    and ins :: "'k \<Rightarrow> 'v \<Rightarrow> 'm \<Rightarrow> 'm"
    and del :: "'k \<Rightarrow> 'm \<Rightarrow> 'm"
    and entries :: "'m \<Rightarrow> ('k \<times> 'v) list"
    and wf :: "'m \<Rightarrow> bool"
  assumes get_emp: "get emp k = None"
    and get_ins: "get (ins k v m) j = (if j = k then Some v else get m j)"
    and get_del: "wf m \<Longrightarrow> get (del k m) j = (if j = k then None else get m j)"
    and distinct_entries: "wf m \<Longrightarrow> distinct (map fst (entries m))"
    and entries_get: "wf m \<Longrightarrow> (k, v) \<in> set (entries m) \<longleftrightarrow> get m k = Some v"
    and wf_emp: "wf emp"
    and wf_ins: "wf m \<Longrightarrow> wf (ins k v m)"
    and wf_del: "wf m \<Longrightarrow> wf (del k m)"
begin

lemma keys_get: "wf m \<Longrightarrow> k \<in> fst ` set (entries m) \<longleftrightarrow> get m k \<noteq> None"
  by (metis (no_types, lifting) entries_get fst_conv imageE image_eqI not_None_eq prod.collapse)

lemma entries_ins:
  "wf m \<Longrightarrow> set (entries (ins k v m)) = insert (k, v) {e \<in> set (entries m). fst e \<noteq> k}"
  by (auto simp: entries_get get_ins wf_ins split: if_splits)

lemma entries_del:
  "wf m \<Longrightarrow> set (entries (del k m)) = {e \<in> set (entries m). fst e \<noteq> k}"
  by (auto simp: entries_get get_del wf_del split: if_splits)

lemma length_entries: "wf m \<Longrightarrow> length (entries m) = card (fst ` set (entries m))"
  by (metis distinct_card distinct_entries image_set length_map)

lemma length_ins:
  assumes "wf m"
  shows "length (entries (ins k v m)) =
    (if get m k = None then Suc (length (entries m)) else length (entries m))"
proof -
  have keys: "fst ` set (entries (ins k v m)) = insert k (fst ` set (entries m))"
    using assms by (force simp: entries_ins image_iff)
  show ?thesis
    using assms keys_get [OF assms, of k]
    by (simp add: length_entries wf_ins keys insert_absorb)
qed

lemma length_del:
  assumes "wf m"
  shows "length (entries (del k m)) =
    (if get m k = None then length (entries m) else length (entries m) - 1)"
proof -
  have keys: "fst ` set (entries (del k m)) = fst ` set (entries m) - {k}"
    using assms by (force simp: entries_del image_iff)
  show ?thesis
    using assms keys_get [OF assms, of k]
    by (simp add: length_entries wf_del keys card_Diff_singleton_if)
qed

lemma entries_Nil: "wf m \<Longrightarrow> entries m = [] \<longleftrightarrow> (\<forall>k. get m k = None)"
  by (metis entries_get list.set_intros(1) neq_Nil_conv not_Some_eq old.prod.exhaust
      list.set(1) empty_iff)

end

subsection \<open>The instance\<close>

type_synonym ('k, 'v) hashmap = "('k \<times> 'v) list"

definition hm_empty :: "('k, 'v) hashmap" where "hm_empty = []"

definition hm_get :: "('k, 'v) hashmap \<Rightarrow> 'k \<Rightarrow> 'v option" where
  "hm_get m k = map_of m k"

definition hm_insert :: "'k \<Rightarrow> 'v \<Rightarrow> ('k, 'v) hashmap \<Rightarrow> ('k, 'v) hashmap" where
  "hm_insert k v m = AList.update k v m"

definition hm_remove :: "'k \<Rightarrow> ('k, 'v) hashmap \<Rightarrow> ('k, 'v) hashmap" where
  "hm_remove k m = AList.delete k m"

definition hm_entries :: "('k, 'v) hashmap \<Rightarrow> ('k \<times> 'v) list" where
  "hm_entries m = m"

definition hm_keys :: "('k, 'v) hashmap \<Rightarrow> 'k list" where
  "hm_keys m = map fst (hm_entries m)"

definition hm_values :: "('k, 'v) hashmap \<Rightarrow> 'v list" where
  "hm_values m = map snd (hm_entries m)"

definition hm_len :: "('k, 'v) hashmap \<Rightarrow> nat" where
  "hm_len m = length (hm_entries m)"

definition hm_wf :: "('k, 'v) hashmap \<Rightarrow> bool" where
  "hm_wf m \<longleftrightarrow> distinct (map fst m)"

text \<open>\<open>entry(k).or_insert(d)\<close>: the value for the key, inserting the default first.\<close>

definition hm_or_insert :: "'k \<Rightarrow> 'v \<Rightarrow> ('k, 'v) hashmap \<Rightarrow> ('k, 'v) hashmap \<times> 'v" where
  "hm_or_insert k d m =
     (case hm_get m k of Some v \<Rightarrow> (m, v) | None \<Rightarrow> (hm_insert k d m, d))"

text \<open>\<open>collect\<close> into a map: later pairs overwrite earlier ones.\<close>

definition hm_collect :: "('k \<times> 'v) list \<Rightarrow> ('k, 'v) hashmap" where
  "hm_collect kvs = fold (\<lambda>(k, v). hm_insert k v) kvs hm_empty"

lemma map_of_mem_iff:
  "distinct (map fst m) \<Longrightarrow> (k, v) \<in> set m \<longleftrightarrow> map_of m k = Some v"
  by auto

lemmas hm_defs =
  hm_empty_def hm_get_def hm_insert_def hm_remove_def hm_entries_def hm_wf_def

interpretation hm: hash_map hm_empty hm_get hm_insert hm_remove hm_entries hm_wf
proof (unfold_locales, goal_cases)
  case 3
  then show ?case by (simp add: hm_defs delete_conv)
next
  case 5
  then show ?case by (simp add: hm_defs)
qed (simp_all add: hm_defs update_conv distinct_update distinct_delete)

lemma hm_len_insert [hm]:
  "hm_wf m \<Longrightarrow> hm_len (hm_insert k v m) = (if hm_get m k = None then Suc (hm_len m) else hm_len m)"
  unfolding hm_len_def by (rule hm.length_ins)

lemma hm_len_remove [hm]:
  "hm_wf m \<Longrightarrow> hm_len (hm_remove k m) = (if hm_get m k = None then hm_len m else hm_len m - 1)"
  unfolding hm_len_def by (rule hm.length_del)

lemmas hm_basics [hm] =
  hm.get_emp hm.get_ins hm.get_del hm.wf_emp hm.wf_ins hm.wf_del hm.entries_ins hm.entries_del

lemma hm_len_empty [hm]: "hm_len hm_empty = 0"
  by (simp add: hm_len_def hm_entries_def hm_empty_def)

lemma hm_entries_empty [hm]: "hm_entries hm_empty = []"
  by (simp add: hm_entries_def hm_empty_def)

lemma hm_len_0: "hm_len m = 0 \<Longrightarrow> hm_get m k = None"
  by (simp add: hm_len_def hm_entries_def hm_get_def)

lemma hm_or_insert_get: "hm_get (fst (hm_or_insert k d m)) k = Some (snd (hm_or_insert k d m))"
  by (auto simp: hm_or_insert_def hm split: option.splits)

lemma hm_or_insert_wf [hm]: "hm_wf m \<Longrightarrow> hm_wf (fst (hm_or_insert k d m))"
  by (auto simp: hm_or_insert_def hm split: option.splits)

lemma hm_wf_collect [hm]: "hm_wf (hm_collect kvs)"
proof -
  have "hm_wf m \<Longrightarrow> hm_wf (fold (\<lambda>(k, v). hm_insert k v) kvs m)" for m :: "('a, 'b) hashmap"
    by (induction kvs arbitrary: m) (auto simp: hm)
  then show ?thesis by (simp add: hm_collect_def hm)
qed

lemma AList_update_fresh: "k \<notin> fst ` set m \<Longrightarrow> AList.update k v m = m @ [(k, v)]"
  by (induction m) auto

lemma hm_collect_distinct:
  assumes "distinct (map fst kvs)"
  shows "hm_collect kvs = kvs"
proof -
  have "distinct (map fst (m @ kvs)) \<Longrightarrow> fold (\<lambda>(k, v). hm_insert k v) kvs m = m @ kvs"
    for m :: "('a, 'b) hashmap"
  proof (induction kvs arbitrary: m)
    case Nil
    then show ?case by simp
  next
    case (Cons a kvs)
    obtain k v where a: "a = (k, v)" by (cases a)
    from Cons.prems a have "k \<notin> fst ` set m" by auto
    then have "hm_insert k v m = m @ [(k, v)]"
      by (simp add: hm_insert_def AList_update_fresh)
    moreover have "distinct (map fst ((m @ [(k, v)]) @ kvs))" using Cons.prems a by simp
    ultimately show ?case using Cons.IH [of "m @ [(k, v)]"] a by simp
  qed
  from this [of hm_empty] assms show ?thesis by (simp add: hm_collect_def hm_empty_def)
qed

end
