(* ===== verification/Json.thy ===== *)
theory Json
  imports Hash_Map "HOL-Library.Monad_Syntax"
begin

section \<open>JSON values, derived (de)serialisation and the wire format interface\<close>

text \<open>
  The code derives its \<open>Serialize\<close> and \<open>Deserialize\<close> implementations with serde; the
  attributes in the source (\<open>rename_all\<close>, \<open>tag\<close>, \<open>skip_serializing_if\<close>,
  \<open>default\<close>) say which JSON value stands for which Rust value. The datatype \<open>json\<close>
  is the value level at which the models of these derived functions work; the
  combinators below follow serde's rules for structs: unknown fields are ignored, a
  repeated field is an error, a missing \<open>Option\<close> field is \<open>None\<close>, as is \<open>null\<close>.
  serde's second form of a struct, a JSON array of its fields in order, is not modelled.

  The text level (\<open>serde_json\<close>), the textual form of a UUID (\<open>uuid\<close>) and URL-safe
  base64 (\<open>base64\<close>) are third-party code: they are the parameter record \<open>wire\<close>, and
  the locale \<open>wire_format\<close> states the documented behaviour the code relies on.
\<close>

datatype json =
    JNull
  | JBool bool
  | JNum int
  | JStr string
  | JArr "json list"
  | JObj "(string \<times> json) list"

subsection \<open>Encoding\<close>

definition enc_word :: "'w::len word \<Rightarrow> json" where
  "enc_word w = JNum (uint w)"

definition enc_list :: "('a \<Rightarrow> json) \<Rightarrow> 'a list \<Rightarrow> json" where
  "enc_list e xs = JArr (map e xs)"

definition enc_map :: "('a \<Rightarrow> json) \<Rightarrow> (string, 'a) hashmap \<Rightarrow> json" where
  "enc_map e m = JObj (map (\<lambda>(k, v). (k, e v)) (hm_entries m))"

text \<open>\<open>skip_serializing_if = "Option::is_none"\<close>.\<close>

definition opt_field :: "string \<Rightarrow> ('a \<Rightarrow> json) \<Rightarrow> 'a option \<Rightarrow> (string \<times> json) list" where
  "opt_field k e x = (case x of None \<Rightarrow> [] | Some y \<Rightarrow> [(k, e y)])"

text \<open>\<open>skip_serializing_if = "is_default"\<close> for a \<open>bool\<close>.\<close>

definition flag_field :: "string \<Rightarrow> bool \<Rightarrow> (string \<times> json) list" where
  "flag_field k b = (if b then [(k, JBool True)] else [])"

subsection \<open>Decoding\<close>

fun dec_str :: "json \<Rightarrow> string option" where
  "dec_str (JStr s) = Some s"
| "dec_str _ = None"

fun dec_bool :: "json \<Rightarrow> bool option" where
  "dec_bool (JBool b) = Some b"
| "dec_bool _ = None"

fun dec_word :: "json \<Rightarrow> 'w::len word option" where
  "dec_word (JNum i) =
     (if 0 \<le> i \<and> i < 2 ^ LENGTH('w) then Some (word_of_int i) else None)"
| "dec_word _ = None"

fun dec_list :: "(json \<Rightarrow> 'a option) \<Rightarrow> json \<Rightarrow> 'a list option" where
  "dec_list d (JArr js) = those (map d js)"
| "dec_list d _ = None"

fun dec_map :: "(json \<Rightarrow> 'a option) \<Rightarrow> json \<Rightarrow> (string, 'a) hashmap option" where
  "dec_map d (JObj kvs) =
     map_option hm_collect (those (map (\<lambda>(k, v). map_option (Pair k) (d v)) kvs))"
| "dec_map d _ = None"

fun dec_obj :: "json \<Rightarrow> (string \<times> json) list option" where
  "dec_obj (JObj kvs) = Some kvs"
| "dec_obj _ = None"

definition occurrences :: "(string \<times> json) list \<Rightarrow> string \<Rightarrow> json list" where
  "occurrences kvs k = map snd (filter (\<lambda>p. fst p = k) kvs)"

definition fld :: "(string \<times> json) list \<Rightarrow> string \<Rightarrow> (json \<Rightarrow> 'a option) \<Rightarrow> 'a option" where
  "fld kvs k d = (case occurrences kvs k of [v] \<Rightarrow> d v | _ \<Rightarrow> None)"

definition fld_opt :: "(string \<times> json) list \<Rightarrow> string \<Rightarrow> (json \<Rightarrow> 'a option) \<Rightarrow> 'a option option" where
  "fld_opt kvs k d =
     (case occurrences kvs k of
        [] \<Rightarrow> Some None
      | [v] \<Rightarrow> (if v = JNull then Some None else map_option Some (d v))
      | _ \<Rightarrow> None)"

definition fld_default :: "(string \<times> json) list \<Rightarrow> string \<Rightarrow> 'a \<Rightarrow> (json \<Rightarrow> 'a option) \<Rightarrow> 'a option" where
  "fld_default kvs k x d =
     (case occurrences kvs k of [] \<Rightarrow> Some x | [v] \<Rightarrow> d v | _ \<Rightarrow> None)"

subsection \<open>Rules\<close>

lemma occurrences_simps [codec]:
  "occurrences [] k = []"
  "occurrences ((j, v) # kvs) k = (if j = k then v # occurrences kvs k else occurrences kvs k)"
  "occurrences (xs @ ys) k = occurrences xs k @ occurrences ys k"
  by (simp_all add: occurrences_def)

lemma occurrences_opt_field [codec]:
  "occurrences (opt_field j e x) k =
     (if j = k then (case x of None \<Rightarrow> [] | Some y \<Rightarrow> [e y]) else [])"
  by (simp add: opt_field_def occurrences_def split: option.splits)

lemma occurrences_flag_field [codec]:
  "occurrences (flag_field j b) k = (if j = k \<and> b then [JBool True] else [])"
  by (simp add: flag_field_def occurrences_def)

lemmas fld_defs = fld_def fld_opt_def fld_default_def

declare fld_defs [codec]

lemma dec_enc_word [codec]: "dec_word (enc_word w) = Some w"
proof -
  have "uint w < 2 ^ LENGTH('a)" by (rule uint_lt2p)
  then show ?thesis by (simp add: enc_word_def)
qed

lemma dec_enc_list: "(\<And>x. x \<in> set xs \<Longrightarrow> d (e x) = Some x) \<Longrightarrow> dec_list d (enc_list e xs) = Some xs"
proof (induction xs)
  case Nil
  then show ?case by (simp add: enc_list_def)
next
  case (Cons x xs)
  then have "dec_list d (enc_list e xs) = Some xs" by simp
  with Cons.prems show ?case by (simp add: enc_list_def)
qed

lemma those_map_Some: "those (map (\<lambda>x. Some (f x)) xs) = Some (map f xs)"
  by (induction xs) auto

lemma dec_enc_map:
  assumes "hm_wf m" and "\<And>k v. (k, v) \<in> set m \<Longrightarrow> d (e v) = Some v"
  shows "dec_map d (enc_map e m) = Some m"
proof -
  have "map ((\<lambda>(k, v). map_option (Pair k) (d v)) \<circ> (\<lambda>(k, v). (k, e v))) m = map (\<lambda>p. Some (id p)) m"
    using assms(2) by (auto simp: split_beta)
  then have "those (map ((\<lambda>(k, v). map_option (Pair k) (d v)) \<circ> (\<lambda>(k, v). (k, e v))) m) = Some m"
    by (simp only: those_map_Some) simp
  with assms(1) show ?thesis
    by (simp add: enc_map_def hm_entries_def hm_wf_def hm_collect_distinct)
qed

lemma enc_not_null [codec]:
  "JStr s \<noteq> JNull" "enc_word w \<noteq> JNull" "enc_list e xs \<noteq> JNull" "enc_map e m \<noteq> JNull"
  by (simp_all add: enc_word_def enc_list_def enc_map_def)

subsection \<open>The wire format interface\<close>

record wire =
  json_print :: "json \<Rightarrow> string"
  json_parse :: "bytes \<Rightarrow> json option"
  uuid_print :: "uuid \<Rightarrow> string"
  uuid_parse :: "string \<Rightarrow> uuid option"
  b64_encode :: "bytes \<Rightarrow> string"
  b64_decode :: "string \<Rightarrow> bytes option"

text \<open>
  What the crates document: printing and parsing invert each other, an object is
  printed with its braces (so never as a single character), the text \<open>0\<close> is the
  number zero, and the URL-safe base64 alphabet has no dot.
\<close>

locale wire_format =
  fixes W :: wire
  assumes json_rt [codec, simp]: "json_parse W (json_print W j) = Some j"
    and json_obj_long: "1 < length (json_print W (JObj kvs))"
    and json_zero: "json_parse W ''0'' = Some (JNum 0)"
    and uuid_rt [codec, simp]: "uuid_parse W (uuid_print W u) = Some u"
    and b64_rt [codec, simp]: "b64_decode W (b64_encode W b) = Some b"
    and b64_no_dot: "CHR ''.'' \<notin> set (b64_encode W b)"
begin

lemma json_print_inj: "json_print W i = json_print W j \<Longrightarrow> i = j"
  by (metis json_rt option.inject)

lemma b64_encode_inj: "b64_encode W a = b64_encode W b \<Longrightarrow> a = b"
  by (metis b64_rt option.inject)

end

text \<open>
  \<open>serde_json::to_string\<close>, \<open>serde_json::from_slice\<close> and \<open>from_str\<close> at a type, given
  the derived functions of the type.
\<close>

definition to_json_string :: "wire \<Rightarrow> ('a \<Rightarrow> json) \<Rightarrow> 'a \<Rightarrow> string" where
  "to_json_string W e x = json_print W (e x)"

definition from_json_slice :: "wire \<Rightarrow> (json \<Rightarrow> 'a option) \<Rightarrow> bytes \<Rightarrow> 'a option" where
  "from_json_slice W d b = Option.bind (json_parse W b) d"

context wire_format
begin

lemma from_to_json [codec]:
  "d (e x) = Some x \<Longrightarrow> from_json_slice W d (to_json_string W e x) = Some x"
  by (simp add: from_json_slice_def to_json_string_def)

end

lemma from_json_slice_codec:
  "wire_format W \<Longrightarrow> d (e x) = Some x \<Longrightarrow> from_json_slice W d (to_json_string W e x) = Some x"
  by (rule wire_format.from_to_json)

definition enc_uuid :: "wire \<Rightarrow> uuid \<Rightarrow> json" where
  "enc_uuid W u = JStr (uuid_print W u)"

definition dec_uuid :: "wire \<Rightarrow> json \<Rightarrow> uuid option" where
  "dec_uuid W j = Option.bind (dec_str j) (uuid_parse W)"

lemma dec_enc_uuid: "wire_format W \<Longrightarrow> dec_uuid W (enc_uuid W u) = Some u"
  by (simp add: enc_uuid_def dec_uuid_def wire_format.uuid_rt)

end
