(* ===== verification/Wire_Instance.thy ===== *)
theory Wire_Instance
  imports Json
begin

section \<open>A concrete wire format\<close>

text \<open>
  An executable instance of the interface \<open>wire_format\<close>: a self-delimiting printer and
  parser for \<open>json\<close>, hexadecimal digits for UUIDs and for bytes. It is not the text
  \<open>serde_json\<close> or \<open>base64\<close> produce; it shows that the laws of the interface can
  hold together, and it is the instance at which the witnesses evaluate.
\<close>

subsection \<open>Strings and numbers\<close>

fun ref_chars :: "string \<Rightarrow> string" where
  "ref_chars [] = [CHR 0x00]"
| "ref_chars (c # cs) = CHR 0x01 # c # ref_chars cs"

fun unref_chars :: "string \<Rightarrow> (string \<times> string) option" where
  "unref_chars [] = None"
| "unref_chars [t] = (if t = CHR 0x00 then Some ([], []) else None)"
| "unref_chars (t # c # r) =
     (if t = CHR 0x00 then Some ([], c # r)
      else map_option (\<lambda>(cs, r). (c # cs, r)) (unref_chars r))"

lemma unref_ref_chars: "unref_chars (ref_chars s @ r) = Some (s, r)"
proof (induction s)
  case Nil
  then show ?case by (cases r) auto
next
  case (Cons c s)
  then show ?case by simp
qed

definition ref_int :: "int \<Rightarrow> string" where
  "ref_int i = (if i < 0 then CHR ''-'' else CHR ''+'') # ref_chars (show_dec (nat \<bar>i\<bar>))"

subsection \<open>Values\<close>

fun ref_json :: "json \<Rightarrow> string"
  and ref_elems :: "json list \<Rightarrow> string"
  and ref_fields :: "(string \<times> json) list \<Rightarrow> string" where
  "ref_json JNull = ''n''"
| "ref_json (JBool b) = (if b then ''t'' else ''f'')"
| "ref_json (JNum i) = ref_int i"
| "ref_json (JStr s) = CHR ''s'' # ref_chars s"
| "ref_json (JArr js) = CHR ''['' # ref_elems js"
| "ref_json (JObj kvs) = CHR ''{'' # ref_fields kvs"
| "ref_elems [] = '']''"
| "ref_elems (j # js) = CHR '','' # ref_json j @ ref_elems js"
| "ref_fields [] = ''}''"
| "ref_fields ((k, v) # kvs) = CHR '','' # ref_chars k @ ref_json v @ ref_fields kvs"

fun unref_json :: "nat \<Rightarrow> string \<Rightarrow> (json \<times> string) option"
  and unref_elems :: "nat \<Rightarrow> string \<Rightarrow> (json list \<times> string) option"
  and unref_fields :: "nat \<Rightarrow> string \<Rightarrow> ((string \<times> json) list \<times> string) option" where
  "unref_json 0 s = None"
| "unref_json (Suc n) s =
     (case s of [] \<Rightarrow> None
      | t # r \<Rightarrow>
        if t = CHR ''n'' then Some (JNull, r)
        else if t = CHR ''t'' then Some (JBool True, r)
        else if t = CHR ''f'' then Some (JBool False, r)
        else if t = CHR ''+'' then map_option (\<lambda>(d, r). (JNum (int (read_radix 10 d)), r)) (unref_chars r)
        else if t = CHR ''-'' then map_option (\<lambda>(d, r). (JNum (- int (read_radix 10 d)), r)) (unref_chars r)
        else if t = CHR ''s'' then map_option (\<lambda>(d, r). (JStr d, r)) (unref_chars r)
        else if t = CHR ''['' then map_option (\<lambda>(js, r). (JArr js, r)) (unref_elems n r)
        else if t = CHR ''{'' then map_option (\<lambda>(kvs, r). (JObj kvs, r)) (unref_fields n r)
        else None)"
| "unref_elems 0 s = None"
| "unref_elems (Suc n) s =
     (case s of [] \<Rightarrow> None
      | t # r \<Rightarrow>
        if t = CHR '']'' then Some ([], r)
        else (case unref_json n r of None \<Rightarrow> None
              | Some (j, r') \<Rightarrow> map_option (\<lambda>(js, r). (j # js, r)) (unref_elems n r')))"
| "unref_fields 0 s = None"
| "unref_fields (Suc n) s =
     (case s of [] \<Rightarrow> None
      | t # r \<Rightarrow>
        if t = CHR ''}'' then Some ([], r)
        else (case unref_chars r of None \<Rightarrow> None
              | Some (k, r1) \<Rightarrow>
                (case unref_json n r1 of None \<Rightarrow> None
                 | Some (v, r2) \<Rightarrow> map_option (\<lambda>(kvs, r). ((k, v) # kvs, r)) (unref_fields n r2))))"

lemma unref_ref_int: "0 < n \<Longrightarrow> unref_json n (ref_int i @ r) = Some (JNum i, r)"
  by (cases n) (auto simp: ref_int_def unref_ref_chars read_show_radix)

lemma unref_ref_json:
  "length (ref_json j) \<le> n \<Longrightarrow> unref_json n (ref_json j @ r) = Some (j, r)"
  "length (ref_elems js) \<le> n \<Longrightarrow> unref_elems n (ref_elems js @ r) = Some (js, r)"
  "length (ref_fields kvs) \<le> n \<Longrightarrow> unref_fields n (ref_fields kvs @ r) = Some (kvs, r)"
proof (induction j and js and kvs arbitrary: n r and n r and n r
    rule: ref_json_ref_elems_ref_fields.induct)
  case (3 i)
  then have "0 < n" by (cases n) (auto simp: ref_int_def)
  then show ?case by (simp add: unref_ref_int)
next
  case (1 n)
  then show ?case by (cases n) auto
next
  case (2 b n)
  then show ?case by (cases n) (auto split: if_splits)
next
  case (4 s n)
  then show ?case by (cases n) (auto simp: unref_ref_chars)
next
  case (5 js n)
  then show ?case by (cases n) auto
next
  case (6 kvs n)
  then show ?case by (cases n) auto
next
  case (7 n)
  then show ?case by (cases n) auto
next
  case (8 j js n)
  then show ?case by (cases n) auto
next
  case (9 n)
  then show ?case by (cases n) auto
next
  case (10 k v kvs n)
  then show ?case by (cases n) (auto simp: unref_ref_chars)
qed

definition ref_json_print :: "json \<Rightarrow> string" where
  "ref_json_print j = ref_json j"

definition ref_json_parse :: "bytes \<Rightarrow> json option" where
  "ref_json_parse b =
     (if b = ''0'' then Some (JNum 0)
      else case unref_json (length b) b of Some (j, []) \<Rightarrow> Some j | _ \<Rightarrow> None)"

lemma ref_json_not_zero: "ref_json j \<noteq> ''0''"
  by (cases j) (auto simp: ref_int_def)

lemma ref_json_rt: "ref_json_parse (ref_json_print j) = Some j"
  using unref_ref_json(1) [of j "length (ref_json j)" "[]"]
  by (simp add: ref_json_parse_def ref_json_print_def ref_json_not_zero)

subsection \<open>Bytes and UUIDs\<close>

fun ref_hex :: "bytes \<Rightarrow> string" where
  "ref_hex [] = []"
| "ref_hex (c # cs) =
     digit_char (of_char c div 16) # digit_char (of_char c mod 16) # ref_hex cs"

fun unref_hex :: "string \<Rightarrow> bytes option" where
  "unref_hex [] = Some []"
| "unref_hex [c] = None"
| "unref_hex (a # b # cs) =
     (case (char_digit a, char_digit b, unref_hex cs) of
        (Some x, Some y, Some r) \<Rightarrow> Some (char_of (16 * x + y) # r)
      | _ \<Rightarrow> None)"

lemma of_char_bound: "(of_char c :: nat) < 256"
  using of_char_of [of "of_char c :: nat"] by (metis mod_less_divisor of_char_mod_256 zero_less_numeral)

lemma div_16_bound: "n < 256 \<Longrightarrow> n div 16 < (16::nat)"
  by (simp add: div_less_iff_less_mult)

lemma unref_ref_hex: "unref_hex (ref_hex b) = Some b"
proof (induction b)
  case Nil
  then show ?case by simp
next
  case (Cons c b)
  have "(of_char c :: nat) div 16 < 16" using of_char_bound [of c] by (rule div_16_bound)
  with Cons show ?case by (simp add: char_digit_digit_char)
qed

lemma ref_hex_no_dot: "CHR ''.'' \<notin> set (ref_hex b)"
proof (induction b)
  case Nil
  then show ?case by simp
next
  case (Cons c b)
  have "(of_char c :: nat) div 16 < 16" using of_char_bound [of c] by (rule div_16_bound)
  with Cons show ?case using digit_char_not_sep(1) [symmetric] by simp
qed

definition ref_uuid_print :: "uuid \<Rightarrow> string" where
  "ref_uuid_print u = show_hex (unat u)"

definition ref_uuid_parse :: "string \<Rightarrow> uuid option" where
  "ref_uuid_parse s = Some (of_nat (read_radix 16 s))"

definition ref_wire :: wire where
  "ref_wire =
     \<lparr>json_print = ref_json_print, json_parse = ref_json_parse,
      uuid_print = ref_uuid_print, uuid_parse = ref_uuid_parse,
      b64_encode = ref_hex, b64_decode = unref_hex\<rparr>"

lemma ref_wire_sel [simp]:
  "json_print ref_wire = ref_json_print" "json_parse ref_wire = ref_json_parse"
  "uuid_print ref_wire = ref_uuid_print" "uuid_parse ref_wire = ref_uuid_parse"
  "b64_encode ref_wire = ref_hex" "b64_decode ref_wire = unref_hex"
  by (simp_all add: ref_wire_def)

interpretation ref: wire_format ref_wire
proof (unfold_locales, goal_cases)
  case (2 kvs)
  then show ?case by (cases kvs) (auto simp: ref_json_print_def)
next
  case 3
  then show ?case by (simp add: ref_json_parse_def)
next
  case (4 u)
  then show ?case by (simp add: ref_uuid_print_def ref_uuid_parse_def read_show_radix)
qed (simp_all add: ref_json_rt unref_ref_hex ref_hex_no_dot)

lemma ref_wire_format: "wire_format ref_wire"
  by (rule ref.wire_format_axioms)

end
