(* ===== verification/Core_Model.thy ===== *)
theory Core_Model
  imports Wire_Instance
begin

section \<open>The shared data model (core/src/model)\<close>

text \<open>
  The device type of a peer and the description of a file, with the JSON form their
  serde attributes define: enum constants in \<open>SCREAMING_SNAKE_CASE\<close>, struct fields in
  \<open>camelCase\<close>, absent options left out.
\<close>

datatype device_type =
    Mobile
  | Desktop
  | Web
  | Headless
  | Server

fun enc_device_type :: "device_type \<Rightarrow> json" where
  "enc_device_type Mobile = JStr ''MOBILE''"
| "enc_device_type Desktop = JStr ''DESKTOP''"
| "enc_device_type Web = JStr ''WEB''"
| "enc_device_type Headless = JStr ''HEADLESS''"
| "enc_device_type Server = JStr ''SERVER''"

definition dec_device_type :: "json \<Rightarrow> device_type option" where
  "dec_device_type j = do {
     s \<leftarrow> dec_str j;
     (if s = ''MOBILE'' then Some Mobile
      else if s = ''DESKTOP'' then Some Desktop
      else if s = ''WEB'' then Some Web
      else if s = ''HEADLESS'' then Some Headless
      else if s = ''SERVER'' then Some Server
      else None)
   }"

lemma dec_enc_device_type [codec]: "dec_device_type (enc_device_type x) = Some x"
  by (cases x) (simp_all add: dec_device_type_def)

lemma enc_device_type_not_null [codec]: "enc_device_type x \<noteq> JNull"
  by (cases x) simp_all

text \<open>The five device types form a finite type, so statements about all of them evaluate.\<close>

instantiation device_type :: enum
begin

definition enum_device_type :: "device_type list" where
  "enum_device_type = [Mobile, Desktop, Web, Headless, Server]"

definition enum_all_device_type :: "(device_type \<Rightarrow> bool) \<Rightarrow> bool" where
  "enum_all_device_type P = (P Mobile \<and> P Desktop \<and> P Web \<and> P Headless \<and> P Server)"

definition enum_ex_device_type :: "(device_type \<Rightarrow> bool) \<Rightarrow> bool" where
  "enum_ex_device_type P = (P Mobile \<or> P Desktop \<or> P Web \<or> P Headless \<or> P Server)"

instance
proof (intro_classes, goal_cases)
  case 1
  have "x \<in> set enum_class.enum" for x :: device_type
    by (cases x) (simp_all add: enum_device_type_def)
  then show ?case by auto
next
  case 2
  show ?case by (simp add: enum_device_type_def)
next
  case (3 P)
  show ?case by (auto simp: enum_all_device_type_def) (metis device_type.exhaust)
next
  case (4 P)
  show ?case by (auto simp: enum_ex_device_type_def) (metis device_type.exhaust)
qed

end

lemma enc_device_type_inj: "enc_device_type a = enc_device_type b \<Longrightarrow> a = b"
  by (metis dec_enc_device_type option.inject)

subsection \<open>Files\<close>

record file_metadata =
  fm_modified :: "string option"
  fm_accessed :: "string option"

definition fields_file_metadata :: "file_metadata \<Rightarrow> (string \<times> json) list" where
  "fields_file_metadata x =
     opt_field ''modified'' JStr (fm_modified x) @
     opt_field ''accessed'' JStr (fm_accessed x)"

definition enc_file_metadata :: "file_metadata \<Rightarrow> json" where
  "enc_file_metadata x = JObj (fields_file_metadata x)"

definition dec_file_metadata :: "json \<Rightarrow> file_metadata option" where
  "dec_file_metadata j = do {
     kvs \<leftarrow> dec_obj j;
     modified \<leftarrow> fld_opt kvs ''modified'' dec_str;
     accessed \<leftarrow> fld_opt kvs ''accessed'' dec_str;
     Some \<lparr>fm_modified = modified, fm_accessed = accessed\<rparr>
   }"

lemma dec_enc_file_metadata [codec]:
  "dec_file_metadata (enc_file_metadata x) = Some x"
  by (cases x) (simp add: dec_file_metadata_def enc_file_metadata_def fields_file_metadata_def codec split: option.splits)

lemma enc_file_metadata_not_null [codec]: "enc_file_metadata x \<noteq> JNull"
  by (simp add: enc_file_metadata_def)

record file_dto =
  fd_id :: string
  fd_file_name :: string
  fd_size :: u64
  fd_file_type :: string
  fd_sha256 :: "string option"
  fd_preview :: "string option"
  fd_metadata :: "file_metadata option"

definition fields_file_dto :: "file_dto \<Rightarrow> (string \<times> json) list" where
  "fields_file_dto x =
     [(''id'', JStr (fd_id x)),
      (''fileName'', JStr (fd_file_name x)),
      (''size'', enc_word (fd_size x)),
      (''fileType'', JStr (fd_file_type x))] @
     opt_field ''sha256'' JStr (fd_sha256 x) @
     opt_field ''preview'' JStr (fd_preview x) @
     opt_field ''metadata'' enc_file_metadata (fd_metadata x)"

definition enc_file_dto :: "file_dto \<Rightarrow> json" where
  "enc_file_dto x = JObj (fields_file_dto x)"

definition dec_file_dto :: "json \<Rightarrow> file_dto option" where
  "dec_file_dto j = do {
     kvs \<leftarrow> dec_obj j;
     id \<leftarrow> fld kvs ''id'' dec_str;
     file_name \<leftarrow> fld kvs ''fileName'' dec_str;
     size \<leftarrow> fld kvs ''size'' dec_word;
     file_type \<leftarrow> fld kvs ''fileType'' dec_str;
     sha256 \<leftarrow> fld_opt kvs ''sha256'' dec_str;
     preview \<leftarrow> fld_opt kvs ''preview'' dec_str;
     metadata \<leftarrow> fld_opt kvs ''metadata'' dec_file_metadata;
     Some \<lparr>fd_id = id, fd_file_name = file_name, fd_size = size, fd_file_type = file_type, fd_sha256 = sha256, fd_preview = preview, fd_metadata = metadata\<rparr>
   }"

lemma dec_enc_file_dto [codec]:
  "dec_file_dto (enc_file_dto x) = Some x"
  by (cases x) (simp add: dec_file_dto_def enc_file_dto_def fields_file_dto_def codec split: option.splits)

end
