(* ===== verification/Rtc_Messages.thy ===== *)
theory Rtc_Messages
  imports Core_Model
begin

section \<open>Messages of the data channel (core/src/webrtc/webrtc.rs)\<close>

text \<open>
  The messages two peers exchange on the WebRTC data channel, with the JSON form their
  serde attributes define (an internally tagged \<open>status\<close> field).
\<close>

record rtc_nonce_message =
  nm_nonce :: string

definition fields_rtc_nonce_message :: "rtc_nonce_message \<Rightarrow> (string \<times> json) list" where
  "fields_rtc_nonce_message x =
     [(''nonce'', JStr (nm_nonce x))]"

definition enc_rtc_nonce_message :: "rtc_nonce_message \<Rightarrow> json" where
  "enc_rtc_nonce_message x = JObj (fields_rtc_nonce_message x)"

definition dec_rtc_nonce_message :: "json \<Rightarrow> rtc_nonce_message option" where
  "dec_rtc_nonce_message j = do {
     kvs \<leftarrow> dec_obj j;
     nonce \<leftarrow> fld kvs ''nonce'' dec_str;
     Some \<lparr>nm_nonce = nonce\<rparr>
   }"

lemma dec_enc_rtc_nonce_message [codec]:
  "dec_rtc_nonce_message (enc_rtc_nonce_message x) = Some x"
  by (cases x) (simp add: dec_rtc_nonce_message_def enc_rtc_nonce_message_def fields_rtc_nonce_message_def codec split: option.splits)

record rtc_token_request =
  tr_token :: string

definition fields_rtc_token_request :: "rtc_token_request \<Rightarrow> (string \<times> json) list" where
  "fields_rtc_token_request x =
     [(''token'', JStr (tr_token x))]"

definition enc_rtc_token_request :: "rtc_token_request \<Rightarrow> json" where
  "enc_rtc_token_request x = JObj (fields_rtc_token_request x)"

definition dec_rtc_token_request :: "json \<Rightarrow> rtc_token_request option" where
  "dec_rtc_token_request j = do {
     kvs \<leftarrow> dec_obj j;
     token \<leftarrow> fld kvs ''token'' dec_str;
     Some \<lparr>tr_token = token\<rparr>
   }"

lemma dec_enc_rtc_token_request [codec]:
  "dec_rtc_token_request (enc_rtc_token_request x) = Some x"
  by (cases x) (simp add: dec_rtc_token_request_def enc_rtc_token_request_def fields_rtc_token_request_def codec split: option.splits)

datatype rtc_token_response =
    TokenOk string
  | TokenPinRequired string
  | TokenInvalidSignature

fun enc_rtc_token_response :: "rtc_token_response \<Rightarrow> json" where
  "enc_rtc_token_response (TokenOk tok) =
     JObj [(''status'', JStr ''OK''), (''token'', JStr tok)]"
| "enc_rtc_token_response (TokenPinRequired tok) =
     JObj [(''status'', JStr ''PIN_REQUIRED''), (''token'', JStr tok)]"
| "enc_rtc_token_response TokenInvalidSignature =
     JObj [(''status'', JStr ''INVALID_SIGNATURE'')]"

definition dec_rtc_token_response :: "json \<Rightarrow> rtc_token_response option" where
  "dec_rtc_token_response j = do {
     kvs \<leftarrow> dec_obj j;
     t \<leftarrow> fld kvs ''status'' dec_str;
     (if t = ''OK'' then map_option TokenOk (fld kvs ''token'' dec_str)
      else if t = ''PIN_REQUIRED'' then map_option TokenPinRequired (fld kvs ''token'' dec_str)
      else if t = ''INVALID_SIGNATURE'' then Some TokenInvalidSignature
      else None)
   }"

lemma dec_enc_rtc_token_response [codec]: "dec_rtc_token_response (enc_rtc_token_response x) = Some x"
  by (cases x) (auto simp: dec_rtc_token_response_def codec)

record rtc_pin_message =
  pm_pin :: string

definition fields_rtc_pin_message :: "rtc_pin_message \<Rightarrow> (string \<times> json) list" where
  "fields_rtc_pin_message x =
     [(''pin'', JStr (pm_pin x))]"

definition enc_rtc_pin_message :: "rtc_pin_message \<Rightarrow> json" where
  "enc_rtc_pin_message x = JObj (fields_rtc_pin_message x)"

definition dec_rtc_pin_message :: "json \<Rightarrow> rtc_pin_message option" where
  "dec_rtc_pin_message j = do {
     kvs \<leftarrow> dec_obj j;
     pin \<leftarrow> fld kvs ''pin'' dec_str;
     Some \<lparr>pm_pin = pin\<rparr>
   }"

lemma dec_enc_rtc_pin_message [codec]:
  "dec_rtc_pin_message (enc_rtc_pin_message x) = Some x"
  by (cases x) (simp add: dec_rtc_pin_message_def enc_rtc_pin_message_def fields_rtc_pin_message_def codec split: option.splits)

datatype rtc_pin_receiving_response =
    PinRecvOk
  | PinRecvRequired
  | PinRecvTooManyAttempts

fun enc_rtc_pin_receiving_response :: "rtc_pin_receiving_response \<Rightarrow> json" where
  "enc_rtc_pin_receiving_response PinRecvOk =
     JObj [(''status'', JStr ''OK'')]"
| "enc_rtc_pin_receiving_response PinRecvRequired =
     JObj [(''status'', JStr ''PIN_REQUIRED'')]"
| "enc_rtc_pin_receiving_response PinRecvTooManyAttempts =
     JObj [(''status'', JStr ''TOO_MANY_ATTEMPTS'')]"

definition dec_rtc_pin_receiving_response :: "json \<Rightarrow> rtc_pin_receiving_response option" where
  "dec_rtc_pin_receiving_response j = do {
     kvs \<leftarrow> dec_obj j;
     t \<leftarrow> fld kvs ''status'' dec_str;
     (if t = ''OK'' then Some PinRecvOk
      else if t = ''PIN_REQUIRED'' then Some PinRecvRequired
      else if t = ''TOO_MANY_ATTEMPTS'' then Some PinRecvTooManyAttempts
      else None)
   }"

lemma dec_enc_rtc_pin_receiving_response [codec]: "dec_rtc_pin_receiving_response (enc_rtc_pin_receiving_response x) = Some x"
  by (cases x) (auto simp: dec_rtc_pin_receiving_response_def codec)

datatype rtc_pin_sending_response =
    PinSendOk "file_dto list"
  | PinSendRequired
  | PinSendTooManyAttempts

fun enc_rtc_pin_sending_response :: "rtc_pin_sending_response \<Rightarrow> json" where
  "enc_rtc_pin_sending_response (PinSendOk fs) =
     JObj [(''status'', JStr ''OK''), (''files'', enc_list enc_file_dto fs)]"
| "enc_rtc_pin_sending_response PinSendRequired =
     JObj [(''status'', JStr ''PIN_REQUIRED'')]"
| "enc_rtc_pin_sending_response PinSendTooManyAttempts =
     JObj [(''status'', JStr ''TOO_MANY_ATTEMPTS'')]"

definition dec_rtc_pin_sending_response :: "json \<Rightarrow> rtc_pin_sending_response option" where
  "dec_rtc_pin_sending_response j = do {
     kvs \<leftarrow> dec_obj j;
     t \<leftarrow> fld kvs ''status'' dec_str;
     (if t = ''OK'' then map_option PinSendOk (fld kvs ''files'' (dec_list dec_file_dto))
      else if t = ''PIN_REQUIRED'' then Some PinSendRequired
      else if t = ''TOO_MANY_ATTEMPTS'' then Some PinSendTooManyAttempts
      else None)
   }"

lemma dec_enc_file_dtos [codec]: "dec_list dec_file_dto (enc_list enc_file_dto fs) = Some fs"
  by (rule dec_enc_list) (rule dec_enc_file_dto)

lemma dec_enc_rtc_pin_sending_response [codec]: "dec_rtc_pin_sending_response (enc_rtc_pin_sending_response x) = Some x"
  by (cases x) (auto simp: dec_rtc_pin_sending_response_def codec)

datatype rtc_file_list_response =
    ListOk "(string, string) hashmap"
  | ListPair string
  | ListDeclined
  | ListInvalidSignature

fun enc_rtc_file_list_response :: "rtc_file_list_response \<Rightarrow> json" where
  "enc_rtc_file_list_response (ListOk fs) =
     JObj [(''status'', JStr ''OK''), (''files'', enc_map JStr fs)]"
| "enc_rtc_file_list_response (ListPair pk) =
     JObj [(''status'', JStr ''PAIR''), (''publicKey'', JStr pk)]"
| "enc_rtc_file_list_response ListDeclined =
     JObj [(''status'', JStr ''DECLINED'')]"
| "enc_rtc_file_list_response ListInvalidSignature =
     JObj [(''status'', JStr ''INVALID_SIGNATURE'')]"

definition dec_rtc_file_list_response :: "json \<Rightarrow> rtc_file_list_response option" where
  "dec_rtc_file_list_response j = do {
     kvs \<leftarrow> dec_obj j;
     t \<leftarrow> fld kvs ''status'' dec_str;
     (if t = ''OK'' then map_option ListOk (fld kvs ''files'' (dec_map dec_str))
      else if t = ''PAIR'' then map_option ListPair (fld kvs ''publicKey'' dec_str)
      else if t = ''DECLINED'' then Some ListDeclined
      else if t = ''INVALID_SIGNATURE'' then Some ListInvalidSignature
      else None)
   }"

text \<open>A file list carries a \<open>HashMap\<close>: its keys are distinct.\<close>

definition file_list_wf :: "rtc_file_list_response \<Rightarrow> bool" where
  "file_list_wf r = (case r of ListOk fs \<Rightarrow> hm_wf fs | _ \<Rightarrow> True)"

lemma dec_enc_rtc_file_list_response:
  "file_list_wf r \<Longrightarrow> dec_rtc_file_list_response (enc_rtc_file_list_response r) = Some r"
  by (cases r) (auto simp: dec_rtc_file_list_response_def file_list_wf_def dec_enc_map codec)

datatype rtc_pair_response =
    PairOk string
  | PairDeclined
  | PairInvalidSignature

fun enc_rtc_pair_response :: "rtc_pair_response \<Rightarrow> json" where
  "enc_rtc_pair_response (PairOk pk) =
     JObj [(''status'', JStr ''OK''), (''publicKey'', JStr pk)]"
| "enc_rtc_pair_response PairDeclined =
     JObj [(''status'', JStr ''PAIR_DECLINED'')]"
| "enc_rtc_pair_response PairInvalidSignature =
     JObj [(''status'', JStr ''INVALID_SIGNATURE'')]"

definition dec_rtc_pair_response :: "json \<Rightarrow> rtc_pair_response option" where
  "dec_rtc_pair_response j = do {
     kvs \<leftarrow> dec_obj j;
     t \<leftarrow> fld kvs ''status'' dec_str;
     (if t = ''OK'' then map_option PairOk (fld kvs ''publicKey'' dec_str)
      else if t = ''PAIR_DECLINED'' then Some PairDeclined
      else if t = ''INVALID_SIGNATURE'' then Some PairInvalidSignature
      else None)
   }"

lemma dec_enc_rtc_pair_response [codec]: "dec_rtc_pair_response (enc_rtc_pair_response x) = Some x"
  by (cases x) (auto simp: dec_rtc_pair_response_def codec)

record rtc_send_file_header_request =
  fh_id :: string
  fh_token :: string

definition fields_rtc_send_file_header_request :: "rtc_send_file_header_request \<Rightarrow> (string \<times> json) list" where
  "fields_rtc_send_file_header_request x =
     [(''id'', JStr (fh_id x)),
      (''token'', JStr (fh_token x))]"

definition enc_rtc_send_file_header_request :: "rtc_send_file_header_request \<Rightarrow> json" where
  "enc_rtc_send_file_header_request x = JObj (fields_rtc_send_file_header_request x)"

definition dec_rtc_send_file_header_request :: "json \<Rightarrow> rtc_send_file_header_request option" where
  "dec_rtc_send_file_header_request j = do {
     kvs \<leftarrow> dec_obj j;
     id \<leftarrow> fld kvs ''id'' dec_str;
     token \<leftarrow> fld kvs ''token'' dec_str;
     Some \<lparr>fh_id = id, fh_token = token\<rparr>
   }"

lemma dec_enc_rtc_send_file_header_request [codec]:
  "dec_rtc_send_file_header_request (enc_rtc_send_file_header_request x) = Some x"
  by (cases x) (simp add: dec_rtc_send_file_header_request_def enc_rtc_send_file_header_request_def fields_rtc_send_file_header_request_def codec split: option.splits)

record rtc_send_file_response =
  fr_id :: string
  fr_success :: bool
  fr_error :: "string option"

definition fields_rtc_send_file_response :: "rtc_send_file_response \<Rightarrow> (string \<times> json) list" where
  "fields_rtc_send_file_response x =
     [(''id'', JStr (fr_id x)),
      (''success'', JBool (fr_success x))] @
     opt_field ''error'' JStr (fr_error x)"

definition enc_rtc_send_file_response :: "rtc_send_file_response \<Rightarrow> json" where
  "enc_rtc_send_file_response x = JObj (fields_rtc_send_file_response x)"

definition dec_rtc_send_file_response :: "json \<Rightarrow> rtc_send_file_response option" where
  "dec_rtc_send_file_response j = do {
     kvs \<leftarrow> dec_obj j;
     id \<leftarrow> fld kvs ''id'' dec_str;
     success \<leftarrow> fld kvs ''success'' dec_bool;
     error \<leftarrow> fld_opt kvs ''error'' dec_str;
     Some \<lparr>fr_id = id, fr_success = success, fr_error = error\<rparr>
   }"

lemma dec_enc_rtc_send_file_response [codec]:
  "dec_rtc_send_file_response (enc_rtc_send_file_response x) = Some x"
  by (cases x) (simp add: dec_rtc_send_file_response_def enc_rtc_send_file_response_def fields_rtc_send_file_response_def codec split: option.splits)

subsection \<open>What the two tasks report\<close>

text \<open>
  An \<open>anyhow::Error\<close>, by what produced it: a literal message, a library's error, or a
  message followed by the error it wraps.
\<close>

datatype task_err =
    Msg string
  | Ctx string task_err
  | DcErr string
  | JsonErr
  | Base64Err
  | KeyErr
  | ZlibErr
  | WebrtcErr
  | SendErr
  | RecvErr
  | SignalErr

datatype rtc_status =
    SdpExchanged
  | Connected
  | StatusPinRequired
  | StatusTooManyAttempts
  | StatusDeclined
  | Sending
  | Finished
  | StatusError task_err

record rtc_file_error =
  fe_file_id :: string
  fe_error :: task_err

record pin_config =
  pc_pin :: string
  pc_max_tries :: u8

record rtc_file_state =
  fs_file_id :: string
  fs_size :: u64

end
