(* ===== verification/Task_Monad.thy ===== *)
theory Task_Monad
  imports Rtc_Messages
begin

section \<open>Asynchronous tasks as state transformers\<close>

text \<open>
  The body of a spawned task is sequential code between \<open>await\<close> points. It is modelled
  as a function on the world the task sees: what it will still receive, how its sends
  will turn out, and the trace of what it has done. A result is \<open>Ok\<close>, an error that
  \<open>?\<close> propagates, or a panic.
\<close>

datatype 'a tres = Ok 'a | Err task_err | Panic

type_synonym ('w, 'a) task = "'w \<Rightarrow> 'a tres \<times> 'w"

definition ret :: "'a \<Rightarrow> ('w, 'a) task" where
  "ret x w = (Ok x, w)"

definition fail :: "task_err \<Rightarrow> ('w, 'a) task" where
  "fail e w = (Err e, w)"

definition panic :: "('w, 'a) task" where
  "panic w = (Panic, w)"

definition tbind :: "('w, 'a) task \<Rightarrow> ('a \<Rightarrow> ('w, 'b) task) \<Rightarrow> ('w, 'b) task" where
  "tbind m f w =
     (case m w of
        (Ok x, w') \<Rightarrow> f x w'
      | (Err e, w') \<Rightarrow> (Err e, w')
      | (Panic, w') \<Rightarrow> (Panic, w'))"

text \<open>\<open>map_err(|e| anyhow!("context: {e}"))\<close> and \<open>let _ = m\<close>.\<close>

definition context_err :: "string \<Rightarrow> ('w, 'a) task \<Rightarrow> ('w, 'a) task" where
  "context_err s m w = (case m w of (Err e, w') \<Rightarrow> (Err (Ctx s e), w') | r \<Rightarrow> r)"

definition ignore :: "('w, 'a) task \<Rightarrow> ('w, unit) task" where
  "ignore m w = (case m w of (Panic, w') \<Rightarrow> (Panic, w') | (_, w') \<Rightarrow> (Ok (), w'))"

text \<open>\<open>if let Err(e) = m\<close>: continue with the handler, or with the success branch.\<close>

definition catch_err :: "('w, 'a) task \<Rightarrow> (task_err \<Rightarrow> ('w, 'b) task) \<Rightarrow> ('a \<Rightarrow> ('w, 'b) task) \<Rightarrow> ('w, 'b) task" where
  "catch_err m h f w =
     (case m w of
        (Ok x, w') \<Rightarrow> f x w'
      | (Err e, w') \<Rightarrow> h e w'
      | (Panic, w') \<Rightarrow> (Panic, w'))"

definition of_option :: "task_err \<Rightarrow> 'a option \<Rightarrow> ('w, 'a) task" where
  "of_option e x = (case x of None \<Rightarrow> fail e | Some y \<Rightarrow> ret y)"

subsection \<open>Monad laws and symbolic execution\<close>

lemma task_basics [task]:
  "ret x w = (Ok x, w)" "fail e w = (Err e, w)" "panic w = (Panic, w)"
  "of_option e None = fail e" "of_option e (Some y) = ret y"
  by (simp_all add: ret_def fail_def panic_def of_option_def)

lemma tbind_Ok [task]: "m w = (Ok x, w') \<Longrightarrow> tbind m f w = f x w'"
  by (simp add: tbind_def)

lemma tbind_Err [task]: "m w = (Err e, w') \<Longrightarrow> tbind m f w = (Err e, w')"
  by (simp add: tbind_def)

lemma tbind_Panic [task]: "m w = (Panic, w') \<Longrightarrow> tbind m f w = (Panic, w')"
  by (simp add: tbind_def)

lemma tbind_ret: "tbind (ret x) f = f x"
  by (simp add: tbind_def ret_def fun_eq_iff)

lemma tbind_fail: "tbind (fail e) f = fail e"
  by (simp add: tbind_def fail_def fun_eq_iff)

lemma tbind_assoc: "tbind (tbind m f) g = tbind m (\<lambda>x. tbind (f x) g)"
  by (auto simp: tbind_def fun_eq_iff split: prod.splits tres.splits)

lemma context_err_Ok [task]: "m w = (Ok x, w') \<Longrightarrow> context_err s m w = (Ok x, w')"
  by (simp add: context_err_def)

lemma context_err_Err [task]: "m w = (Err e, w') \<Longrightarrow> context_err s m w = (Err (Ctx s e), w')"
  by (simp add: context_err_def)

lemma ignore_Ok [task]: "m w = (Ok x, w') \<Longrightarrow> ignore m w = (Ok (), w')"
  by (simp add: ignore_def)

lemma ignore_Err [task]: "m w = (Err e, w') \<Longrightarrow> ignore m w = (Ok (), w')"
  by (simp add: ignore_def)

lemma catch_err_Ok [task]: "m w = (Ok x, w') \<Longrightarrow> catch_err m h f w = f x w'"
  by (simp add: catch_err_def)

lemma catch_err_Err [task]: "m w = (Err e, w') \<Longrightarrow> catch_err m h f w = h e w'"
  by (simp add: catch_err_def)

lemma tbind_OkE:
  assumes "tbind m f w = (Ok y, w2)"
  obtains x w1 where "m w = (Ok x, w1)" "f x w1 = (Ok y, w2)"
  using assms by (auto simp: tbind_def split: prod.splits tres.splits)

lemma context_err_OkE: "context_err s m w = (Ok x, w') \<Longrightarrow> m w = (Ok x, w')"
  by (auto simp: context_err_def split: prod.splits tres.splits)

subsection \<open>The world of a transfer task\<close>

record dc_msg =
  dm_is_string :: bool
  dm_data :: bytes

datatype event =
    EvText string
  | EvBin bytes
  | EvDrained
  | EvClosed
  | EvStatus rtc_status
  | EvPinRequest
  | EvPairRequest
  | EvSelected "string list"
  | EvFiles "file_dto list"
  | EvFileError rtc_file_error
  | EvReceiving string
  | EvChunk string bytes
  | EvFileClosed string

text \<open>
  How the application answers a PIN request, a pairing request and the file list it is shown.
\<close>

datatype pin_answer = PinChannelClosed | PinDropped | PinGiven string
datatype pair_answer = PairChannelClosed | PairDropped | PairAnswer bool
datatype selection = SelectionDropped | SelectionDeclined | SelectionFiles "string list"

text \<open>
  \<open>rx\<close>: the messages that arrive, after which the stream is closed. \<open>dc_sends\<close>: what
  the next sends on the data channel return, \<open>None\<close> (also when the list is used up)
  for success. \<open>chunk_sends\<close>: whether the consumer of the current file still listens,
  likewise. \<open>status_open\<close>, \<open>selected_open\<close>, \<open>files_open\<close>: whether the application
  still holds the other end. \<open>choice\<close>: its answer to a file list.
  \<open>file_results\<close>: what it reports on the received files, in order, given the file's id.
  \<open>time_limits\<close>: what becomes of the blocks under a time limit, see \<open>within_limit\<close>.
\<close>

record rtc_world =
  rx :: "dc_msg list"
  dc_sends :: "string option list"
  chunk_sends :: "bool list"
  status_open :: bool
  selected_open :: bool
  files_open :: bool
  pin_answers :: "pin_answer list"
  pair_with :: pair_answer
  choice :: "file_dto list \<Rightarrow> selection"
  outgoing :: "(string \<times> bytes list) list"
  file_results :: "(string \<Rightarrow> rtc_send_file_response) list"
  time_limits :: "nat option list"
  trace :: "event list"

type_synonym 'a rtc = "(rtc_world, 'a) task"

definition emit :: "event \<Rightarrow> unit rtc" where
  "emit e w = (Ok (), w\<lparr>trace := trace w @ [e]\<rparr>)"

definition dc_send :: "event \<Rightarrow> unit rtc" where
  "dc_send e w =
     (case dc_sends w of
        [] \<Rightarrow> emit e w
      | None # r \<Rightarrow> emit e (w\<lparr>dc_sends := r\<rparr>)
      | Some err # r \<Rightarrow> (Err (DcErr err), w\<lparr>dc_sends := r\<rparr>))"

definition send_text :: "string \<Rightarrow> unit rtc" where
  "send_text s = dc_send (EvText s)"

definition send_bin :: "bytes \<Rightarrow> unit rtc" where
  "send_bin b = dc_send (EvBin b)"

text \<open>\<open>receive_rx.recv()\<close>. The trace records that a task has found its stream closed.\<close>

definition recv :: "dc_msg option rtc" where
  "recv w = (case rx w of [] \<Rightarrow> (Ok None, w\<lparr>trace := trace w @ [EvClosed]\<rparr>) | m # ms \<Rightarrow> (Ok (Some m), w\<lparr>rx := ms\<rparr>))"

definition send_status :: "rtc_status \<Rightarrow> unit rtc" where
  "send_status st w = (if status_open w then emit (EvStatus st) w else (Err SendErr, w))"

text \<open>
  \<open>wait_buffer_empty\<close> polls the amount buffered until it is zero. That it becomes zero
  is up to the network; the trace records that the task waited.
\<close>

definition wait_buffer_empty :: "unit rtc" where
  "wait_buffer_empty = emit EvDrained"

text \<open>
  \<open>let _ = timeout(5 seconds, m)\<close>, for a block that ignores its own results: either it ends
  in time (also when the list is used up), or it is abandoned after its first \<open>k\<close> events.
\<close>

definition within_limit :: "unit rtc \<Rightarrow> unit rtc" where
  "within_limit m w =
     (case time_limits w of
        [] \<Rightarrow> ignore m w
      | None # r \<Rightarrow> ignore m (w\<lparr>time_limits := r\<rparr>)
      | Some k # r \<Rightarrow>
          (let (x, w') = ignore m (w\<lparr>time_limits := r\<rparr>)
           in (x, w'\<lparr>trace := take (length (trace w) + k) (trace w')\<rparr>)))"

definition file_error :: "string \<Rightarrow> task_err \<Rightarrow> unit rtc" where
  "file_error i e = emit (EvFileError \<lparr>fe_file_id = i, fe_error = e\<rparr>)"

subsection \<open>The delimiter\<close>

definition send_delimiter :: "unit rtc" where
  "send_delimiter = send_text ''0''"

definition is_delimiter :: "dc_msg \<Rightarrow> bool" where
  "is_delimiter m \<longleftrightarrow> dm_is_string m \<and> length (dm_data m) \<le> 1"

subsection \<open>What the other side receives\<close>

text \<open>A data channel that is ordered and reliable delivers the sent messages as they are.\<close>

definition text_msg :: "string \<Rightarrow> dc_msg" where
  "text_msg s = \<lparr>dm_is_string = True, dm_data = s\<rparr>"

definition bin_msg :: "bytes \<Rightarrow> dc_msg" where
  "bin_msg b = \<lparr>dm_is_string = False, dm_data = b\<rparr>"

fun dc_out :: "event list \<Rightarrow> dc_msg list" where
  "dc_out [] = []"
| "dc_out (EvText s # es) = text_msg s # dc_out es"
| "dc_out (EvBin b # es) = bin_msg b # dc_out es"
| "dc_out (_ # es) = dc_out es"

lemma dc_out_append [simp]: "dc_out (xs @ ys) = dc_out xs @ dc_out ys"
  by (induction xs rule: dc_out.induct) auto

lemma dc_out_bins [simp]: "dc_out (map EvBin bs) = map bin_msg bs"
  by (induction bs) auto

lemma msg_sel [simp]:
  "dm_is_string (text_msg s)" "dm_data (text_msg s) = s"
  "\<not> dm_is_string (bin_msg b)" "dm_data (bin_msg b) = b"
  by (simp_all add: text_msg_def bin_msg_def)

text \<open>A world in which nothing fails for lack of a partner or of time.\<close>

definition healthy :: "rtc_world \<Rightarrow> bool" where
  "healthy w \<longleftrightarrow> dc_sends w = [] \<and> chunk_sends w = [] \<and> status_open w \<and> selected_open w \<and> files_open w \<and>
     time_limits w = []"

lemma healthy_update [simp]:
  "healthy (w\<lparr>trace := t\<rparr>) = healthy w" "healthy (w\<lparr>rx := r\<rparr>) = healthy w"
  "healthy (w\<lparr>pin_answers := p\<rparr>) = healthy w" "healthy (w\<lparr>outgoing := f\<rparr>) = healthy w"
  "healthy (w\<lparr>file_results := fr\<rparr>) = healthy w"
  by (simp_all add: healthy_def)

lemma emit_run [task]: "emit e w = (Ok (), w\<lparr>trace := trace w @ [e]\<rparr>)"
  by (simp add: emit_def)

lemma dc_send_healthy [task]: "healthy w \<Longrightarrow> dc_send e w = (Ok (), w\<lparr>trace := trace w @ [e]\<rparr>)"
  by (simp add: dc_send_def healthy_def emit_def)

lemma send_text_healthy [task]: "healthy w \<Longrightarrow> send_text s w = (Ok (), w\<lparr>trace := trace w @ [EvText s]\<rparr>)"
  by (simp add: send_text_def task)

lemma send_bin_healthy [task]: "healthy w \<Longrightarrow> send_bin b w = (Ok (), w\<lparr>trace := trace w @ [EvBin b]\<rparr>)"
  by (simp add: send_bin_def task)

lemma send_status_healthy [task]:
  "healthy w \<Longrightarrow> send_status st w = (Ok (), w\<lparr>trace := trace w @ [EvStatus st]\<rparr>)"
  by (simp add: send_status_def healthy_def task)

lemma within_limit_healthy [task]: "healthy w \<Longrightarrow> within_limit m w = ignore m w"
  by (simp add: within_limit_def healthy_def)

lemma recv_Cons [task]: "rx w = m # ms \<Longrightarrow> recv w = (Ok (Some m), w\<lparr>rx := ms\<rparr>)"
  by (simp add: recv_def)

lemma recv_Nil [task]: "rx w = [] \<Longrightarrow> recv w = (Ok None, w\<lparr>trace := trace w @ [EvClosed]\<rparr>)"
  by (simp add: recv_def)

lemma wait_buffer_empty_run [task]: "wait_buffer_empty w = (Ok (), w\<lparr>trace := trace w @ [EvDrained]\<rparr>)"
  by (simp add: wait_buffer_empty_def task)

lemma file_error_run [task]:
  "file_error i e w = (Ok (), w\<lparr>trace := trace w @ [EvFileError \<lparr>fe_file_id = i, fe_error = e\<rparr>]\<rparr>)"
  by (simp add: file_error_def task)

lemma send_delimiter_healthy [task]:
  "healthy w \<Longrightarrow> send_delimiter w = (Ok (), w\<lparr>trace := trace w @ [EvText ''0'']\<rparr>)"
  by (simp add: send_delimiter_def task)

lemma text_not_delimiter: "1 < length s \<Longrightarrow> \<not> is_delimiter (text_msg s)"
  by (simp add: is_delimiter_def)

end
