(* ===== verification/Chunks.thy ===== *)
theory Chunks
  imports Task_Monad
begin

section \<open>Chunking (core/src/webrtc/webrtc.rs, app/rust/src/util/bytes.rs)\<close>

text \<open>
  A stream of byte blocks of any length leaves a sender in blocks of \<open>CHUNK_SIZE\<close>, the
  last one possibly shorter. The routines are generic in the callback that receives each
  block; the value it threads through is part of the task's world here.
\<close>

definition CHUNK_SIZE :: nat where
  "CHUNK_SIZE = 16 * 1024"

lemma CHUNK_SIZE_pos [simp]: "0 < CHUNK_SIZE"
  by (simp add: CHUNK_SIZE_def)

subsection \<open>The code\<close>

text \<open>The inner loop: \<open>while buffer.len() >= CHUNK_SIZE\<close>.\<close>

function drain_chunks :: "(bytes \<Rightarrow> ('w, unit) task) \<Rightarrow> bytes \<Rightarrow> ('w, bytes) task" where
  "drain_chunks callback buffer w =
     (if CHUNK_SIZE \<le> length buffer
      then (case callback (take CHUNK_SIZE buffer) w of
              (Ok _, w') \<Rightarrow> drain_chunks callback (drop CHUNK_SIZE buffer) w'
            | (Err e, w') \<Rightarrow> (Err e, w')
            | (Panic, w') \<Rightarrow> (Panic, w'))
      else (Ok buffer, w))"
  by auto
termination
proof (relation "measure (\<lambda>(_, buffer, _). length buffer)")
  show "wf (measure (\<lambda>(_, buffer, _). length buffer))" by simp
next
  fix callback :: "bytes \<Rightarrow> ('w, unit) task" and buffer :: bytes and w x xa y
  assume "CHUNK_SIZE \<le> length buffer"
  then show "((callback, drop CHUNK_SIZE buffer, y), callback, buffer, w)
      \<in> measure (\<lambda>(_, buffer, _). length buffer)"
    by (auto simp: CHUNK_SIZE_def)
qed

declare drain_chunks.simps [simp del]

text \<open>The outer loop over the blocks of the receiver, and what follows it.\<close>

fun process_from :: "(bytes \<Rightarrow> ('w, unit) task) \<Rightarrow> bytes \<Rightarrow> bytes list \<Rightarrow> ('w, unit) task" where
  "process_from callback buffer [] = (if buffer = [] then ret () else callback buffer)"
| "process_from callback buffer (data # rest) =
     tbind (drain_chunks callback (buffer @ data)) (\<lambda>left. process_from callback left rest)"

definition process_in_chunks :: "(bytes \<Rightarrow> ('w, unit) task) \<Rightarrow> bytes list \<Rightarrow> ('w, unit) task" where
  "process_in_chunks callback blocks = process_from callback [] blocks"

definition send_string_in_chunks :: "(bytes \<Rightarrow> ('w, unit) task) \<Rightarrow> string \<Rightarrow> ('w, unit) task" where
  "send_string_in_chunks callback s = process_in_chunks callback [s]"

fun take_chunks :: "bytes \<Rightarrow> dc_msg list \<Rightarrow> bytes \<times> dc_msg list" where
  "take_chunks buffer [] = (buffer, [])"
| "take_chunks buffer (m # ms) =
     (if dm_is_string m then (buffer, ms) else take_chunks (buffer @ dm_data m) ms)"

text \<open>The trace records that the stream has ended before the delimiter.\<close>

definition receive_string_from_chunks :: "bytes rtc" where
  "receive_string_from_chunks w =
     (let (b, ms) = take_chunks [] (rx w);
          closed = (if list_ex dm_is_string (rx w) then [] else [EvClosed])
      in (Ok b, w\<lparr>rx := ms, trace := trace w @ closed\<rparr>))"

text \<open>
  \<open>to_receive_stream\<close>: every message that arrives before the receiver is dropped enters
  the channel, in order; a send blocks while the channel is full, so none is lost.
\<close>

definition to_receive_stream :: "dc_msg list \<Rightarrow> dc_msg list" where
  "to_receive_stream arriving = fold (\<lambda>m queue. queue @ [m]) arriving []"

subsection \<open>The reference: cut the whole stream\<close>

function chunk_list :: "nat \<Rightarrow> bytes \<Rightarrow> bytes list" where
  "chunk_list n b = (if b = [] \<or> n = 0 then [] else take n b # chunk_list n (drop n b))"
  by auto
termination by (relation "measure (\<lambda>(_, b). length b)") auto

declare chunk_list.simps [simp del]

fun run_each :: "(bytes \<Rightarrow> ('w, unit) task) \<Rightarrow> bytes list \<Rightarrow> ('w, unit) task" where
  "run_each f [] = ret ()"
| "run_each f (c # cs) = tbind (f c) (\<lambda>_. run_each f cs)"

lemma chunk_list_Nil [simp]: "chunk_list n [] = []"
  by (simp add: chunk_list.simps)

lemma chunk_list_short: "b \<noteq> [] \<Longrightarrow> length b \<le> n \<Longrightarrow> chunk_list n b = [b]"
  by (subst chunk_list.simps) (cases b; simp)

lemma chunk_list_long:
  "n \<le> length b \<Longrightarrow> 0 < n \<Longrightarrow> chunk_list n (b @ r) = take n b # chunk_list n (drop n b @ r)"
  by (subst chunk_list.simps) auto

lemma concat_chunk_list [simp]: "0 < n \<Longrightarrow> concat (chunk_list n b) = b"
proof (induction n b rule: chunk_list.induct)
  case (1 n b)
  then show ?case by (subst chunk_list.simps) auto
qed

lemma chunk_list_nonempty: "c \<in> set (chunk_list n b) \<Longrightarrow> c \<noteq> [] \<and> length c \<le> n"
proof (induction n b rule: chunk_list.induct)
  case (1 n b)
  show ?case
  proof (cases "b = [] \<or> n = 0")
    case True
    then show ?thesis using "1.prems" by (simp add: chunk_list.simps [of n b])
  next
    case False
    then show ?thesis using 1 by (auto simp: chunk_list.simps [of n b])
  qed
qed

lemma chunk_list_full: "c \<in> set (butlast (chunk_list n b)) \<Longrightarrow> length c = n"
proof (induction n b rule: chunk_list.induct)
  case (1 n b)
  show ?case
  proof (cases "b = [] \<or> n = 0")
    case True
    then show ?thesis using "1.prems" by (simp add: chunk_list.simps [of n b])
  next
    case False
    then have e: "chunk_list n b = take n b # chunk_list n (drop n b)"
      by (simp add: chunk_list.simps [of n b])
    show ?thesis
    proof (cases "chunk_list n (drop n b) = []")
      case True
      then show ?thesis using "1.prems" e by simp
    next
      case nonempty: False
      then have "drop n b \<noteq> []" by auto
      then have "length (take n b) = n" by simp
      then show ?thesis using 1 False e nonempty by auto
    qed
  qed
qed

lemma length_chunk_list: "0 < n \<Longrightarrow> length (chunk_list n b) = (length b + n - 1) div n"
proof (induction n b rule: chunk_list.induct)
  case (1 n b)
  show ?case
  proof (cases "b = []")
    case True
    then show ?thesis using 1 by simp
  next
    case False
    then have e: "length (chunk_list n b) = 1 + (length b - n + n - 1) div n"
      using 1 by (simp add: chunk_list.simps [of n b])
    have split: "length b + n - 1 = (length b - 1) + n * 1" "0 < length b"
      using False by (cases b; simp)+
    show ?thesis
    proof (cases "n \<le> length b")
      case True
      have "(length b + n - 1) div n = 1 + (length b - 1) div n"
        using 1 unfolding split by (subst div_mult_self2) simp_all
      then show ?thesis using e True by simp
    next
      case short: False
      then have "length b - 1 < n" by simp
      then have "(length b + n - 1) div n = 1"
        using 1 unfolding split by (subst div_mult_self2) simp_all
      then show ?thesis using e short 1 by simp
    qed
  qed
qed

subsection \<open>The code computes the reference\<close>

lemma drain_chunks_run:
  assumes k: "\<And>left w. length left < CHUNK_SIZE \<Longrightarrow>
      k left w = run_each f (chunk_list CHUNK_SIZE (left @ r)) w"
  shows "tbind (drain_chunks f b) k w = run_each f (chunk_list CHUNK_SIZE (b @ r)) w"
proof (induction b arbitrary: w rule: measure_induct_rule [where f = length])
  case (less b)
  show ?case
  proof (cases "CHUNK_SIZE \<le> length b")
    case False
    then show ?thesis using k [of b w] by (simp add: tbind_def drain_chunks.simps [of f b w])
  next
    case True
    obtain o' w' where step: "f (take CHUNK_SIZE b) w = (o', w')" by fastforce
    have "length (drop CHUNK_SIZE b) < length b"
      using True by (simp add: CHUNK_SIZE_def)
    then show ?thesis
      using less [of "drop CHUNK_SIZE b" w'] True step
      by (cases o') (simp_all add: tbind_def drain_chunks.simps [of f b w] chunk_list_long)
  qed
qed

lemma process_from_run:
  "length buffer < CHUNK_SIZE \<Longrightarrow>
   process_from f buffer blocks w = run_each f (chunk_list CHUNK_SIZE (buffer @ concat blocks)) w"
proof (induction blocks arbitrary: buffer w)
  case Nil
  have "tbind (f buffer) (\<lambda>_. ret ()) = f buffer"
    by (auto simp: tbind_def ret_def fun_eq_iff split: prod.splits tres.splits)
  then show ?case using Nil by (simp add: chunk_list_short)
next
  case (Cons d ds)
  show ?case using drain_chunks_run [OF Cons.IH, where b = "buffer @ d"] by simp
qed

lemma process_in_chunks_run:
  "process_in_chunks f blocks w = run_each f (chunk_list CHUNK_SIZE (concat blocks)) w"
  by (simp add: process_in_chunks_def process_from_run)

lemma send_string_run: "send_string_in_chunks f s w = run_each f (chunk_list CHUNK_SIZE s) w"
  by (simp add: send_string_in_chunks_def process_in_chunks_run)

subsection \<open>Sending and receiving\<close>

lemma run_each_send_bin [task]:
  "healthy w \<Longrightarrow> run_each send_bin cs w = (Ok (), w\<lparr>trace := trace w @ map EvBin cs\<rparr>)"
  by (induction cs arbitrary: w) (simp_all add: task)

lemma process_send_bin [task]:
  "healthy w \<Longrightarrow> process_in_chunks send_bin blocks w =
    (Ok (), w\<lparr>trace := trace w @ map EvBin (chunk_list CHUNK_SIZE (concat blocks))\<rparr>)"
  by (simp add: process_in_chunks_run task)

lemma send_string_send_bin [task]:
  "healthy w \<Longrightarrow> send_string_in_chunks send_bin s w =
    (Ok (), w\<lparr>trace := trace w @ map EvBin (chunk_list CHUNK_SIZE s)\<rparr>)"
  by (simp add: send_string_run task)

text \<open>A string in chunks, closed by the delimiter.\<close>

definition chunked :: "string \<Rightarrow> dc_msg list" where
  "chunked s = map bin_msg (chunk_list CHUNK_SIZE s) @ [text_msg ''0'']"

lemma take_chunks_bins:
  "take_chunks buffer (map bin_msg cs @ text_msg d # ms) = (buffer @ concat cs, ms)"
  by (induction cs arbitrary: buffer) simp_all

lemma take_chunks_closed: "take_chunks buffer (map bin_msg cs) = (buffer @ concat cs, [])"
  by (induction cs arbitrary: buffer) simp_all

lemma receive_chunked [task]:
  "rx w = chunked s @ ms \<Longrightarrow> receive_string_from_chunks w = (Ok s, w\<lparr>rx := ms\<rparr>)"
  by (simp add: receive_string_from_chunks_def chunked_def take_chunks_bins)

lemma to_receive_stream_id [simp]: "to_receive_stream ms = ms"
proof -
  have "fold (\<lambda>m queue. queue @ [m]) ms q = q @ ms" for q
    by (induction ms arbitrary: q) simp_all
  then show ?thesis by (simp add: to_receive_stream_def)
qed

subsection \<open>Buffering for the application (bytes.rs)\<close>

text \<open>
  The forwarding task of \<open>buffer_receiver\<close>: blocks go on when at least \<open>BUFFER_SIZE\<close> bytes
  are there, as one vector, whatever their number. The task ends at the first send that
  fails, when the application has dropped its receiver.
\<close>

definition BUFFER_SIZE :: nat where
  "BUFFER_SIZE = 1024 * 1024"

fun buffer_from :: "nat \<Rightarrow> (bytes \<Rightarrow> ('w, unit) task) \<Rightarrow> bytes \<Rightarrow> bytes list \<Rightarrow> ('w, unit) task" where
  "buffer_from cap tx_send buffer [] = (if buffer = [] then ret () else tx_send buffer)"
| "buffer_from cap tx_send buffer (data # rest) =
     (let buffer = buffer @ data in
      if cap \<le> length buffer
      then tbind (tx_send buffer) (\<lambda>_. buffer_from cap tx_send [] rest)
      else buffer_from cap tx_send buffer rest)"

definition buffer_receiver :: "(bytes \<Rightarrow> ('w, unit) task) \<Rightarrow> bytes list \<Rightarrow> ('w, unit) task" where
  "buffer_receiver tx_send blocks = buffer_from BUFFER_SIZE tx_send [] blocks"

text \<open>The blocks a live application gets.\<close>

fun regroup :: "nat \<Rightarrow> bytes \<Rightarrow> bytes list \<Rightarrow> bytes list" where
  "regroup cap buffer [] = (if buffer = [] then [] else [buffer])"
| "regroup cap buffer (data # rest) =
     (if cap \<le> length (buffer @ data) then (buffer @ data) # regroup cap [] rest
      else regroup cap (buffer @ data) rest)"

lemma buffer_from_run: "buffer_from n f buffer blocks w = run_each f (regroup n buffer blocks) w"
proof (induction blocks arbitrary: buffer w)
  case Nil
  have "tbind (f buffer) (\<lambda>_. ret ()) = f buffer"
    by (auto simp: tbind_def ret_def fun_eq_iff split: prod.splits tres.splits)
  then show ?case by simp
next
  case (Cons d ds)
  have "buffer_from n f b ds = run_each f (regroup n b ds)" for b
    by (rule ext) (rule Cons.IH)
  then show ?case by (simp add: Let_def)
qed

lemma concat_regroup: "concat (regroup n buffer blocks) = buffer @ concat blocks"
  by (induction blocks arbitrary: buffer) simp_all

lemma regroup_sizes: "b \<in> set (butlast (regroup n buffer blocks)) \<Longrightarrow> n \<le> length b"
proof (induction blocks arbitrary: buffer)
  case Nil
  then show ?case by (simp split: if_splits)
next
  case (Cons d ds)
  then show ?case by (auto split: if_splits)
qed

end
