(* ===== verification/Crypto_Token.thy ===== *)
theory Crypto_Token
  imports Wire_Instance
begin

section \<open>Nonces and signed tokens (core/src/crypto)\<close>

text \<open>
  A token binds a public key to a salt: \<open>sha256.HASH.SALT.METHOD.SIGNATURE\<close>, where the
  hash is over the key's DER form and the salt, and the signature is over the hash. The
  salt is a nonce or a time stamp. The primitives (SHA-256, Ed25519, RSA-PSS, PEM and
  DER forms of keys) are third-party code: the parameter record \<open>crypto\<close>. A key is an
  opaque byte string.
\<close>

datatype 'a outcome = Done 'a | Panicked

record crypto =
  sha256 :: "bytes \<Rightarrow> bytes"
  ed_verifying_key :: "bytes \<Rightarrow> bytes"
  ed_sign :: "bytes \<Rightarrow> bytes \<Rightarrow> bytes"
  ed_verify :: "bytes \<Rightarrow> bytes \<Rightarrow> bytes \<Rightarrow> bool"
  ed_der :: "bytes \<Rightarrow> bytes option"
  ed_public_pem :: "bytes \<Rightarrow> string option"
  ed_from_public_pem :: "string \<Rightarrow> bytes option"
  ed_private_pem :: "bytes \<Rightarrow> string option"
  ed_from_private_pem :: "string \<Rightarrow> bytes option"
  rsa_verify :: "bytes \<Rightarrow> bytes \<Rightarrow> bytes \<Rightarrow> bool"
  rsa_der :: "bytes \<Rightarrow> bytes option"
  rsa_from_public_pem :: "string \<Rightarrow> bytes option"

text \<open>The documented behaviour of a signature scheme and of the key encodings.\<close>

locale signature_scheme =
  fixes C :: crypto
  assumes sign_verify: "ed_verify C (ed_verifying_key C sk) msg (ed_sign C sk msg)"
    and der_total: "\<exists>d. ed_der C vk = Some d"
    and private_pem_rt: "ed_private_pem C sk = Some p \<Longrightarrow> ed_from_private_pem C p = Some sk"
    and public_pem_rt: "ed_public_pem C vk = Some p \<Longrightarrow> ed_from_public_pem C p = Some vk"

subsection \<open>Nonces (nonce.rs)\<close>

text \<open>\<open>fill\<close> is the random generator's \<open>fill_bytes\<close>: it overwrites a buffer.\<close>

definition generate_nonce :: "(bytes \<Rightarrow> bytes) \<Rightarrow> bytes" where
  "generate_nonce fill = fill (replicate 32 (CHR 0x00))"

definition validate_nonce :: "bytes \<Rightarrow> bool" where
  "validate_nonce nonce \<longleftrightarrow> 16 \<le> length nonce \<and> length nonce \<le> 128"

lemma validate_generated: "(\<And>b. length (fill b) = length b) \<Longrightarrow> validate_nonce (generate_nonce fill)"
  by (simp add: validate_nonce_def generate_nonce_def)

subsection \<open>Keys (token.rs)\<close>

datatype verifying_key = Ed25519VerifyingKey bytes | RsaPssVerifyingKey bytes

fun vk_verify :: "crypto \<Rightarrow> verifying_key \<Rightarrow> bytes \<Rightarrow> bytes \<Rightarrow> bool" where
  "vk_verify C (Ed25519VerifyingKey k) msg sig = ed_verify C k msg sig"
| "vk_verify C (RsaPssVerifyingKey k) msg sig = rsa_verify C k msg sig"

fun vk_to_der :: "crypto \<Rightarrow> verifying_key \<Rightarrow> bytes option" where
  "vk_to_der C (Ed25519VerifyingKey k) = ed_der C k"
| "vk_to_der C (RsaPssVerifyingKey k) = rsa_der C k"

fun signature_method :: "verifying_key \<Rightarrow> string" where
  "signature_method (Ed25519VerifyingKey k) = ''ed25519''"
| "signature_method (RsaPssVerifyingKey k) = ''rsa-pss''"

definition to_verifying_key :: "crypto \<Rightarrow> bytes \<Rightarrow> verifying_key" where
  "to_verifying_key C sk = Ed25519VerifyingKey (ed_verifying_key C sk)"

definition export_private_key :: "crypto \<Rightarrow> bytes \<Rightarrow> string option" where
  "export_private_key C sk = ed_private_pem C sk"

definition parse_private_key :: "crypto \<Rightarrow> string \<Rightarrow> bytes option" where
  "parse_private_key C pem = ed_from_private_pem C pem"

definition export_public_key :: "crypto \<Rightarrow> bytes \<Rightarrow> string option" where
  "export_public_key C sk = ed_public_pem C (ed_verifying_key C sk)"

definition parse_public_key :: "crypto \<Rightarrow> string \<Rightarrow> string \<Rightarrow> verifying_key option" where
  "parse_public_key C pem identifier =
     (if identifier = ''ed25519'' then map_option Ed25519VerifyingKey (ed_from_public_pem C pem)
      else if identifier = ''rsa-pss'' then map_option RsaPssVerifyingKey (rsa_from_public_pem C pem)
      else None)"

subsection \<open>Generating a token\<close>

definition token_digest :: "crypto \<Rightarrow> bytes \<Rightarrow> bytes \<Rightarrow> bytes" where
  "token_digest C der salt = sha256 C (der @ salt)"

definition generate_token_nonce :: "wire \<Rightarrow> crypto \<Rightarrow> bytes \<Rightarrow> bytes \<Rightarrow> string option" where
  "generate_token_nonce W C key salt =
     (case ed_der C (ed_verifying_key C key) of
        None \<Rightarrow> None
      | Some der \<Rightarrow>
          (let digest = token_digest C der salt; signature = ed_sign C key digest in
           Some (join_with ''.''
             [''sha256'', b64_encode W digest, b64_encode W salt, ''ed25519'', b64_encode W signature])))"

text \<open>\<open>u64::to_le_bytes\<close> and \<open>from_le_bytes\<close>.\<close>

fun nat_to_le :: "nat \<Rightarrow> nat \<Rightarrow> bytes" where
  "nat_to_le 0 n = []"
| "nat_to_le (Suc k) n = char_of (n mod 256) # nat_to_le k (n div 256)"

fun nat_from_le :: "bytes \<Rightarrow> nat" where
  "nat_from_le [] = 0"
| "nat_from_le (c # cs) = of_char c + 256 * nat_from_le cs"

definition to_le_bytes :: "u64 \<Rightarrow> bytes" where
  "to_le_bytes w = nat_to_le 8 (unat w)"

definition from_le_bytes :: "bytes \<Rightarrow> u64" where
  "from_le_bytes b = of_nat (nat_from_le b)"

text \<open>The clock: \<open>None\<close> before the Unix epoch, the error of \<open>duration_since\<close>.\<close>

definition generate_token_timestamp :: "wire \<Rightarrow> crypto \<Rightarrow> u64 option \<Rightarrow> bytes \<Rightarrow> string option" where
  "generate_token_timestamp W C now key =
     (case now of None \<Rightarrow> None | Some n \<Rightarrow> generate_token_nonce W C key (to_le_bytes n))"

subsection \<open>Verifying a token\<close>

definition extract_signature_identifier :: "string \<Rightarrow> string option" where
  "extract_signature_identifier token =
     (let parts = split_on CHR ''.'' token in
      if 3 < length parts then Some (parts ! 3) else None)"

text \<open>
  \<open>parts[0..5]\<close> panics when the token has fewer than five parts; further parts are
  ignored. \<open>verify_salt\<close> may itself panic.
\<close>

definition verify_token_with_result ::
  "wire \<Rightarrow> crypto \<Rightarrow> verifying_key \<Rightarrow> string \<Rightarrow> (bytes \<Rightarrow> (anyhow + unit) outcome) \<Rightarrow>
     (anyhow + unit) outcome" where
  "verify_token_with_result W C public_key token verify_salt =
     (case split_on CHR ''.'' token of
        hash_method # hash_base64 # salt_base64 # sign_method # signature_base64 # _ \<Rightarrow>
          if hash_method \<noteq> ''sha256'' then Done (Inl (Anyhow ''Invalid hash method''))
          else if sign_method \<noteq> signature_method public_key then Done (Inl (Anyhow ''Invalid sign method''))
          else
            (case b64_decode W salt_base64 of
               None \<Rightarrow> Done (Inl LibError)
             | Some salt \<Rightarrow>
                 (case verify_salt salt of
                    Panicked \<Rightarrow> Panicked
                  | Done (Inl e) \<Rightarrow> Done (Inl e)
                  | Done (Inr _) \<Rightarrow>
                      (case vk_to_der C public_key of
                         None \<Rightarrow> Done (Inl LibError)
                       | Some der \<Rightarrow>
                           (let digest = token_digest C der salt in
                            if b64_encode W digest \<noteq> hash_base64 then Done (Inl (Anyhow ''Hash mismatch''))
                            else
                              (case b64_decode W signature_base64 of
                                 None \<Rightarrow> Done (Inl (Anyhow ''Invalid signature base64 encoding''))
                               | Some signature \<Rightarrow>
                                   if vk_verify C public_key digest signature then Done (Inr ())
                                   else Done (Inl (Anyhow ''Invalid signature'')))))))
      | _ \<Rightarrow> Panicked)"

definition outcome_ok :: "(anyhow + unit) outcome \<Rightarrow> bool outcome" where
  "outcome_ok r = (case r of Panicked \<Rightarrow> Panicked | Done x \<Rightarrow> Done (is_ok x))"

definition verify_token_nonce ::
  "wire \<Rightarrow> crypto \<Rightarrow> verifying_key \<Rightarrow> string \<Rightarrow> bytes \<Rightarrow> bool outcome" where
  "verify_token_nonce W C public_key token nonce =
     outcome_ok (verify_token_with_result W C public_key token
       (\<lambda>salt. Done (if salt \<noteq> nonce then Inl (Anyhow ''Invalid nonce'') else Inr ())))"

text \<open>
  Rust's \<open>u64\<close> subtraction: with overflow checks (a debug build) an underflow panics,
  without (a release build) it wraps.
\<close>

definition sub_u64 :: "bool \<Rightarrow> u64 \<Rightarrow> u64 \<Rightarrow> u64 outcome" where
  "sub_u64 overflow_checks a b = (if overflow_checks \<and> a < b then Panicked else Done (a - b))"

definition verify_timestamp_salt :: "bool \<Rightarrow> u64 option \<Rightarrow> bytes \<Rightarrow> (anyhow + unit) outcome" where
  "verify_timestamp_salt overflow_checks now salt =
     (if length salt \<noteq> 8 then Done (Inl (Anyhow ''Invalid salt length''))
      else
        (case now of
           None \<Rightarrow> Done (Inl LibError)
         | Some n \<Rightarrow>
             (case sub_u64 overflow_checks n (from_le_bytes salt) of
                Panicked \<Rightarrow> Panicked
              | Done age \<Rightarrow>
                  Done (if 60 * 60 < age then Inl (Anyhow ''Fingerprint timestamp expired'') else Inr ()))))"

definition verify_token_timestamp ::
  "wire \<Rightarrow> crypto \<Rightarrow> bool \<Rightarrow> u64 option \<Rightarrow> verifying_key \<Rightarrow> string \<Rightarrow> bool outcome" where
  "verify_token_timestamp W C overflow_checks now public_key token =
     outcome_ok (verify_token_with_result W C public_key token (verify_timestamp_salt overflow_checks now))"

subsection \<open>Lemmas\<close>

lemma nat_from_to_le: "nat_from_le (nat_to_le k n) = n mod 256 ^ k"
proof (induction k arbitrary: n)
  case 0
  then show ?case by simp
next
  case (Suc k)
  have "n mod (256 * 256 ^ k) = 256 * (n div 256 mod 256 ^ k) + n mod 256"
    by (rule mod_mult2_eq)
  with Suc show ?case by simp
qed

lemma length_nat_to_le [simp]: "length (nat_to_le k n) = k"
  by (induction k arbitrary: n) auto

lemma from_to_le_bytes [simp]: "from_le_bytes (to_le_bytes w) = w"
proof -
  have "unat w < 2 ^ LENGTH(64)" by (rule unsigned_less)
  then show ?thesis by (simp add: from_le_bytes_def to_le_bytes_def nat_from_to_le)
qed

lemma length_to_le_bytes [simp]: "length (to_le_bytes w) = 8"
  by (simp add: to_le_bytes_def)

lemma outcome_ok_simps [simp]:
  "outcome_ok Panicked = Panicked" "outcome_ok (Done r) = Done (is_ok r)"
  by (simp_all add: outcome_ok_def)

text \<open>The five parts of a generated token.\<close>

lemma split_token:
  assumes "wire_format W"
  shows "split_on CHR ''.''
      (join_with ''.'' [''sha256'', b64_encode W h, b64_encode W s, ''ed25519'', b64_encode W g]) =
    [''sha256'', b64_encode W h, b64_encode W s, ''ed25519'', b64_encode W g]"
proof -
  note nodot = wire_format.b64_no_dot [OF assms]
  have "join_with ''.'' [''sha256'', b64_encode W h, b64_encode W s, ''ed25519'', b64_encode W g] =
    ''sha256'' @ CHR ''.'' # b64_encode W h @ CHR ''.'' # b64_encode W s @ CHR ''.'' #
    ''ed25519'' @ CHR ''.'' # b64_encode W g"
    by simp
  then show ?thesis
    by (simp only: split_on_append split_on_clean nodot) (simp add: split_on_append split_on_clean nodot)
qed

lemma verify_generated:
  assumes "wire_format W" "generate_token_nonce W C key salt = Some token"
  shows "\<exists>der. ed_der C (ed_verifying_key C key) = Some der \<and>
    split_on CHR ''.'' token =
      [''sha256'', b64_encode W (token_digest C der salt), b64_encode W salt, ''ed25519'',
       b64_encode W (ed_sign C key (token_digest C der salt))]"
  using assms(2) split_token [OF assms(1)]
  by (auto simp: generate_token_nonce_def Let_def split: option.splits)

text \<open>What verification of a generated token with its own key comes down to: the salt.\<close>

lemma verify_own_token:
  assumes "wire_format W" "signature_scheme C" "generate_token_nonce W C key salt = Some token"
  shows "verify_token_with_result W C (to_verifying_key C key) token vs = vs salt"
proof -
  from verify_generated [OF assms(1,3)] obtain der where
    "ed_der C (ed_verifying_key C key) = Some der"
    "split_on CHR ''.'' token =
      [''sha256'', b64_encode W (token_digest C der salt), b64_encode W salt, ''ed25519'',
       b64_encode W (ed_sign C key (token_digest C der salt))]" by blast
  then show ?thesis
    using assms(1)
    by (auto simp: verify_token_with_result_def to_verifying_key_def Let_def
        signature_scheme.sign_verify [OF assms(2)] wire_format.b64_rt
        split: outcome.splits sum.splits)
qed

lemma verify_token_ok_iff:
  "verify_token_with_result W C k token vs = Done (Inr ()) \<longleftrightarrow>
    (\<exists>hash salt64 sig64 rest salt der sig.
      split_on CHR ''.'' token = ''sha256'' # hash # salt64 # signature_method k # sig64 # rest
      \<and> b64_decode W salt64 = Some salt \<and> vs salt = Done (Inr ())
      \<and> vk_to_der C k = Some der \<and> hash = b64_encode W (token_digest C der salt)
      \<and> b64_decode W sig64 = Some sig \<and> vk_verify C k (token_digest C der salt) sig)"
  by (auto simp: verify_token_with_result_def Let_def
      split: list.splits option.splits outcome.splits sum.splits if_splits)

lemma verify_token_panics_iff:
  assumes "\<And>s. vs s \<noteq> Panicked"
  shows "verify_token_with_result W C k token vs = Panicked \<longleftrightarrow> count_list token CHR ''.'' < 4"
proof -
  have "verify_token_with_result W C k token vs = Panicked \<longleftrightarrow> length (split_on CHR ''.'' token) < 5"
    using assms
    by (auto simp: verify_token_with_result_def Let_def
        split: list.splits option.splits outcome.splits sum.splits if_splits)
  then show ?thesis by (simp add: length_split_on)
qed

subsection \<open>An executable instance\<close>

text \<open>
  For the witnesses: a key is its own public key and its own PEM and DER form, a
  signature is the key followed by the message, the hash is the identity.
\<close>

definition ref_crypto :: crypto where
  "ref_crypto =
     \<lparr>sha256 = id, ed_verifying_key = id, ed_sign = (\<lambda>k m. k @ m), ed_verify = (\<lambda>k m s. s = k @ m),
      ed_der = Some, ed_public_pem = Some, ed_from_public_pem = Some,
      ed_private_pem = Some, ed_from_private_pem = Some,
      rsa_verify = (\<lambda>k m s. s = m @ k), rsa_der = Some, rsa_from_public_pem = Some\<rparr>"

interpretation ref_sig: signature_scheme ref_crypto
  by unfold_locales (simp_all add: ref_crypto_def)

lemma ref_signature_scheme: "signature_scheme ref_crypto"
  by (rule ref_sig.signature_scheme_axioms)

end
