(* ===== verification/Rtc_Pin.thy ===== *)
theory Rtc_Pin
  imports Chunks Crypto_Token
begin

section \<open>Messages and PIN challenges on the data channel (core/src/webrtc/webrtc.rs)\<close>

text \<open>
  The exchange of one nonce message and the two sides of a PIN challenge:
  \<open>handle_pin\<close> asks the user until the peer accepts, \<open>verify_pin\<close> gives the peer at most
  \<open>max_tries\<close> tries.
\<close>

subsection \<open>Single messages\<close>

definition send_json :: "wire \<Rightarrow> ('a \<Rightarrow> json) \<Rightarrow> 'a \<Rightarrow> unit rtc" where
  "send_json W e x = send_text (to_json_string W e x)"

definition parse_json :: "wire \<Rightarrow> (json \<Rightarrow> 'a option) \<Rightarrow> bytes \<Rightarrow> 'a rtc" where
  "parse_json W d b = of_option JsonErr (from_json_slice W d b)"

definition json_msg :: "wire \<Rightarrow> ('a \<Rightarrow> json) \<Rightarrow> 'a \<Rightarrow> dc_msg" where
  "json_msg W e x = text_msg (to_json_string W e x)"

text \<open>
  \<open>match receive_rx.recv().await\<close> with an error for a closed stream and one for a binary
  message.
\<close>

definition recv_string :: "string \<Rightarrow> bytes rtc" where
  "recv_string closed =
     tbind recv (\<lambda>m.
       case m of
         None \<Rightarrow> fail (Msg closed)
       | Some m \<Rightarrow>
           if \<not> dm_is_string m then fail (Msg ''Expected string message'') else ret (dm_data m))"

definition receive_nonce :: "wire \<Rightarrow> bytes rtc" where
  "receive_nonce W =
     tbind (recv_string ''Failed to receive nonce'') (\<lambda>data.
     tbind (parse_json W dec_rtc_nonce_message data) (\<lambda>nonce_msg.
     tbind (context_err ''Failed to decode remote nonce''
              (of_option Base64Err (b64_decode W (nm_nonce nonce_msg)))) (\<lambda>remote_nonce.
     if \<not> validate_nonce remote_nonce then fail (Msg ''Invalid remote nonce'')
     else ret remote_nonce)))"

subsection \<open>Answering a challenge\<close>

datatype 'a challenge_pin_result = ChalOk 'a | ChalPinRequired | ChalTooManyAttempts | ChalParseError task_err

text \<open>
  One element of the answers is used up by each request of the application for a PIN.
  When there is none left the application has gone, and the request fails.
\<close>

definition receive_pin_response :: "bool \<Rightarrow> bytes rtc" where
  "receive_pin_response in_chunks =
     (if in_chunks then receive_string_from_chunks
      else recv_string ''Failed to receive initial message'')"

fun handle_pin_loop ::
    "wire \<Rightarrow> bool \<Rightarrow> (bytes \<Rightarrow> 'a challenge_pin_result) \<Rightarrow> pin_answer list \<Rightarrow> 'a rtc" where
  "handle_pin_loop W in_chunks parse_response [] =
     tbind (send_status StatusPinRequired) (\<lambda>_. fail (Msg ''Failed to send PIN request''))"
| "handle_pin_loop W in_chunks parse_response (a # answers) =
     tbind (send_status StatusPinRequired) (\<lambda>_.
     case a of
       PinChannelClosed \<Rightarrow> fail (Msg ''Failed to send PIN request'')
     | PinDropped \<Rightarrow>
         tbind (emit EvPinRequest) (\<lambda>_. fail (Msg ''PIN required but not provided''))
     | PinGiven pin \<Rightarrow>
         tbind (emit EvPinRequest) (\<lambda>_.
         tbind (send_json W enc_rtc_pin_message \<lparr>pm_pin = pin\<rparr>) (\<lambda>_.
         tbind (receive_pin_response in_chunks) (\<lambda>data.
         case parse_response data of
           ChalOk result \<Rightarrow> ret result
         | ChalPinRequired \<Rightarrow> handle_pin_loop W in_chunks parse_response answers
         | ChalTooManyAttempts \<Rightarrow>
             tbind (send_status StatusTooManyAttempts) (\<lambda>_. fail (Msg ''Too many requests''))
         | ChalParseError e \<Rightarrow> fail e))))"

definition handle_pin :: "wire \<Rightarrow> bool \<Rightarrow> (bytes \<Rightarrow> 'a challenge_pin_result) \<Rightarrow> 'a rtc" where
  "handle_pin W in_chunks parse_response w =
     handle_pin_loop W in_chunks parse_response (pin_answers w) w"

text \<open>The closures the two peers pass.\<close>

definition parse_receiving_response :: "wire \<Rightarrow> bytes \<Rightarrow> unit challenge_pin_result" where
  "parse_receiving_response W data =
     (case from_json_slice W dec_rtc_pin_receiving_response data of
        None \<Rightarrow> ChalParseError (Msg ''Failed to parse pin response'')
      | Some PinRecvOk \<Rightarrow> ChalOk ()
      | Some PinRecvRequired \<Rightarrow> ChalPinRequired
      | Some PinRecvTooManyAttempts \<Rightarrow> ChalTooManyAttempts)"

definition parse_sending_response :: "wire \<Rightarrow> bytes \<Rightarrow> file_dto list challenge_pin_result" where
  "parse_sending_response W data =
     (case from_json_slice W dec_rtc_pin_sending_response data of
        None \<Rightarrow> ChalParseError (Msg ''Failed to parse pin response'')
      | Some (PinSendOk files) \<Rightarrow> ChalOk files
      | Some PinSendRequired \<Rightarrow> ChalPinRequired
      | Some PinSendTooManyAttempts \<Rightarrow> ChalTooManyAttempts)"

subsection \<open>Posing a challenge\<close>

datatype verify_pin_result = VerPinRequired | VerTooManyAttempts

definition recv_pin :: "wire \<Rightarrow> string rtc" where
  "recv_pin W =
     tbind recv (\<lambda>m.
       case m of
         None \<Rightarrow> fail (Msg ''Failed to receive pin'')
       | Some m \<Rightarrow>
           tbind (parse_json W dec_rtc_pin_message (dm_data m)) (\<lambda>pin_req. ret (pm_pin pin_req)))"

function verify_pin_loop ::
    "wire \<Rightarrow> pin_config \<Rightarrow> (verify_pin_result \<Rightarrow> unit rtc) \<Rightarrow> bool \<Rightarrow> string \<Rightarrow> u8 \<Rightarrow> unit rtc" where
  "verify_pin_loop W cfg send_result send_initial_notice remote_pin pin_try =
     (if remote_pin = pc_pin cfg then ret ()
      else if pc_max_tries cfg \<le> pin_try then
        tbind (within_limit (tbind (ignore (send_result VerTooManyAttempts)) (\<lambda>_. wait_buffer_empty))) (\<lambda>_.
        tbind (send_status StatusTooManyAttempts) (\<lambda>_.
        fail (Msg ''Too many requests'')))
      else
        tbind (if send_initial_notice \<or> 0 < pin_try then send_result VerPinRequired else ret ()) (\<lambda>_.
        tbind (recv_pin W) (\<lambda>pin.
        verify_pin_loop W cfg send_result False pin (pin_try + 1))))"
  by auto
termination
proof (relation "measure (\<lambda>(_, cfg, _, _, _, pin_try). unat (pc_max_tries cfg) - unat pin_try)")
  show "wf (measure (\<lambda>(_, cfg, _, _, _, pin_try). unat (pc_max_tries cfg) - unat pin_try))" by simp
next
  fix W cfg send_result send_initial_notice remote_pin and pin_try :: u8 and pin
  assume "\<not> pc_max_tries cfg \<le> pin_try"
  then have lt: "pin_try < pc_max_tries cfg" by simp
  then have "unat (pin_try + 1) = unat pin_try + 1" by (rule unat_succ_below)
  then show "((W, cfg, send_result, False, pin, pin_try + 1), W, cfg, send_result, send_initial_notice, remote_pin, pin_try)
      \<in> measure (\<lambda>(_, cfg, _, _, _, pin_try). unat (pc_max_tries cfg) - unat pin_try)"
    using lt by (simp add: word_less_nat_alt)
qed

declare verify_pin_loop.simps [simp del]

definition verify_pin ::
    "wire \<Rightarrow> pin_config \<Rightarrow> bool \<Rightarrow> (verify_pin_result \<Rightarrow> unit rtc) \<Rightarrow> unit rtc" where
  "verify_pin W cfg send_initial_notice send_result =
     tbind (send_status StatusPinRequired) (\<lambda>_.
     verify_pin_loop W cfg send_result send_initial_notice [] 0)"

text \<open>The closures: the receiver notifies by a message, the sender by chunks and a delimiter.\<close>

definition receiver_notice :: "wire \<Rightarrow> verify_pin_result \<Rightarrow> unit rtc" where
  "receiver_notice W result =
     send_json W enc_rtc_pin_receiving_response
       (case result of VerPinRequired \<Rightarrow> PinRecvRequired | VerTooManyAttempts \<Rightarrow> PinRecvTooManyAttempts)"

definition sender_notice :: "wire \<Rightarrow> verify_pin_result \<Rightarrow> unit rtc" where
  "sender_notice W result =
     tbind (send_string_in_chunks send_bin
       (to_json_string W enc_rtc_pin_sending_response
         (case result of VerPinRequired \<Rightarrow> PinSendRequired | VerTooManyAttempts \<Rightarrow> PinSendTooManyAttempts))) (\<lambda>_.
     send_delimiter)"

subsection \<open>Runs of the single messages\<close>

lemma send_json_healthy [task]:
  "healthy w \<Longrightarrow> send_json W e x w = (Ok (), w\<lparr>trace := trace w @ [EvText (to_json_string W e x)]\<rparr>)"
  by (simp add: send_json_def task)

lemma parse_json_codec [task]:
  "wire_format W \<Longrightarrow> d (e x) = Some x \<Longrightarrow> parse_json W d (to_json_string W e x) w = (Ok x, w)"
  by (simp add: parse_json_def from_json_slice_codec task)

lemma recv_string_text [task]:
  "rx w = text_msg s # ms \<Longrightarrow> recv_string c w = (Ok s, w\<lparr>rx := ms\<rparr>)"
  by (simp add: recv_string_def tbind_def task)

lemma recv_string_json [task]:
  "rx w = json_msg W e x # ms \<Longrightarrow> recv_string c w = (Ok (to_json_string W e x), w\<lparr>rx := ms\<rparr>)"
  by (simp add: json_msg_def task)

definition nonce_msg :: "wire \<Rightarrow> bytes \<Rightarrow> dc_msg" where
  "nonce_msg W n = json_msg W enc_rtc_nonce_message \<lparr>nm_nonce = b64_encode W n\<rparr>"

lemma receive_nonce_run:
  assumes "wire_format W" "rx w = nonce_msg W n # ms"
  shows "receive_nonce W w =
    (if validate_nonce n then (Ok n, w\<lparr>rx := ms\<rparr>) else (Err (Msg ''Invalid remote nonce''), w\<lparr>rx := ms\<rparr>))"
  using assms
  by (simp add: receive_nonce_def nonce_msg_def task dec_enc_rtc_nonce_message tbind_def
      context_err_def wire_format.b64_rt)

definition pin_msg :: "wire \<Rightarrow> string \<Rightarrow> dc_msg" where
  "pin_msg W pin = json_msg W enc_rtc_pin_message \<lparr>pm_pin = pin\<rparr>"

lemma recv_pin_run [task]:
  "wire_format W \<Longrightarrow> rx w = pin_msg W pin # ms \<Longrightarrow> recv_pin W w = (Ok pin, w\<lparr>rx := ms\<rparr>)"
  by (simp add: recv_pin_def pin_msg_def json_msg_def tbind_def task dec_enc_rtc_pin_message)

subsection \<open>A verifier reads at most \<open>max_tries\<close> messages\<close>

definition keeps_rx :: "'a rtc \<Rightarrow> bool" where
  "keeps_rx m \<longleftrightarrow> (\<forall>w. rx (snd (m w)) = rx w)"

named_theorems keeps

lemma keeps_basic [keeps]:
  "keeps_rx (ret x)" "keeps_rx (fail e)" "keeps_rx (emit ev)" "keeps_rx (send_status st)"
  "keeps_rx (dc_send ev)" "keeps_rx (send_text s)" "keeps_rx (send_bin b)" "keeps_rx wait_buffer_empty"
  "keeps_rx send_delimiter" "keeps_rx (send_json W enc y)"
  by (auto simp: keeps_rx_def ret_def fail_def emit_def send_status_def dc_send_def send_text_def
      send_bin_def wait_buffer_empty_def send_delimiter_def send_json_def split: list.splits option.splits)

lemma keeps_tbind [keeps]: "keeps_rx m \<Longrightarrow> (\<And>x. keeps_rx (f x)) \<Longrightarrow> keeps_rx (tbind m f)"
  unfolding keeps_rx_def tbind_def
  by (auto split: prod.splits tres.splits) (metis snd_conv)+

lemma keeps_ignore [keeps]: "keeps_rx m \<Longrightarrow> keeps_rx (ignore m)"
  unfolding keeps_rx_def ignore_def
  by (auto split: prod.splits tres.splits) (metis snd_conv)+

lemma keeps_within_limit [keeps]:
  assumes "keeps_rx m"
  shows "keeps_rx (within_limit m)"
proof -
  have "rx (snd (ignore m w)) = rx w" for w using keeps_ignore [OF assms] by (simp add: keeps_rx_def)
  then show ?thesis
    unfolding keeps_rx_def within_limit_def
    by (auto simp: split_beta Let_def split: list.split option.split)
qed

lemma keeps_run_each [keeps]: "(\<And>c. keeps_rx (f c)) \<Longrightarrow> keeps_rx (run_each f cs)"
  by (induction cs) (auto intro: keeps)

lemma keeps_send_string [keeps]: "(\<And>c. keeps_rx (f c)) \<Longrightarrow> keeps_rx (send_string_in_chunks f s)"
  using keeps_run_each [of f] by (simp add: keeps_rx_def send_string_run)

lemma keeps_notice [keeps]: "keeps_rx (receiver_notice W r)" "keeps_rx (sender_notice W r)"
  unfolding receiver_notice_def sender_notice_def by (intro keeps)+

lemma keeps_rxD: "keeps_rx m \<Longrightarrow> m w = (r, w') \<Longrightarrow> rx w' = rx w"
  unfolding keeps_rx_def by (metis snd_conv)

text \<open>A message that carries the configured PIN.\<close>

definition right_pin :: "wire \<Rightarrow> pin_config \<Rightarrow> dc_msg \<Rightarrow> bool" where
  "right_pin W cfg m \<longleftrightarrow> map_option pm_pin (from_json_slice W dec_rtc_pin_message (dm_data m)) = Some (pc_pin cfg)"

lemma recv_pin_cases:
  obtains (closed) "rx w = []" "\<exists>e. recv_pin W w = (Err e, w\<lparr>trace := trace w @ [EvClosed]\<rparr>)"
  | (bad) m ms where "rx w = m # ms" "\<exists>e. recv_pin W w = (Err e, w\<lparr>rx := ms\<rparr>)"
  | (pin) m ms p where "rx w = m # ms" "recv_pin W w = (Ok p, w\<lparr>rx := ms\<rparr>)"
      "map_option pm_pin (from_json_slice W dec_rtc_pin_message (dm_data m)) = Some p"
proof (cases "rx w")
  case Nil
  then show ?thesis by (intro closed) (simp_all add: recv_pin_def tbind_def recv_def fail_def)
next
  case (Cons m ms)
  show ?thesis
  proof (cases "from_json_slice W dec_rtc_pin_message (dm_data m)")
    case None
    then show ?thesis using Cons
      by (intro bad [of m ms]) (simp_all add: recv_pin_def tbind_def recv_def parse_json_def task)
  next
    case (Some r)
    then show ?thesis using Cons
      by (intro pin [of m ms "pm_pin r"]) (simp_all add: recv_pin_def tbind_def recv_def parse_json_def task)
  qed
qed

lemma verify_pin_loop_safe:
  assumes keeps_sr: "\<And>r. keeps_rx (send_result r)"
  shows "\<exists>k \<le> unat (pc_max_tries cfg) - unat pin_try.
     rx (snd (verify_pin_loop W cfg send_result notice remote_pin pin_try w)) = drop k (rx w) \<and>
     (fst (verify_pin_loop W cfg send_result notice remote_pin pin_try w) = Ok () \<longrightarrow>
        remote_pin = pc_pin cfg \<or> (\<exists>m \<in> set (take k (rx w)). right_pin W cfg m))"
proof (induction "unat (pc_max_tries cfg) - unat pin_try" arbitrary: notice remote_pin pin_try w
    rule: less_induct)
  case less
  let ?run = "verify_pin_loop W cfg send_result notice remote_pin pin_try w"
  note unfold = verify_pin_loop.simps [of W cfg send_result notice remote_pin pin_try]
  show ?case
  proof (cases "remote_pin = pc_pin cfg \<or> pc_max_tries cfg \<le> pin_try")
    case True
    define many :: "unit rtc" where
      "many = tbind (within_limit (tbind (ignore (send_result VerTooManyAttempts)) (\<lambda>_. wait_buffer_empty)))
        (\<lambda>_. tbind (send_status StatusTooManyAttempts) (\<lambda>_. fail (Msg ''Too many requests'')))"
    have "keeps_rx many" unfolding many_def by (intro keeps keeps_sr)
    moreover have run: "?run = (if remote_pin = pc_pin cfg then ret () else many) w"
      using True by (subst unfold) (auto simp: many_def)
    ultimately have "rx (snd ?run) = rx w" by (simp add: keeps_rx_def ret_def)
    moreover have "remote_pin \<noteq> pc_pin cfg \<Longrightarrow> fst ?run \<noteq> Ok ()"
      by (auto simp: run many_def tbind_def fail_def split: prod.splits tres.splits)
    ultimately show ?thesis by (intro exI [of _ 0]) auto
  next
    case False
    then have lt: "pin_try < pc_max_tries cfg" by (simp add: not_le)
    note inc = unat_succ_below [OF lt]
    have bound: "unat pin_try < unat (pc_max_tries cfg)" using lt by (simp add: word_less_nat_alt)
    define note_it where "note_it = (if notice \<or> 0 < pin_try then send_result VerPinRequired else ret ())"
    have keep: "keeps_rx note_it" by (simp add: note_it_def keeps keeps_sr)
    have run: "?run = tbind note_it (\<lambda>_. tbind (recv_pin W) (\<lambda>pin.
        verify_pin_loop W cfg send_result False pin (pin_try + 1))) w"
      using False by (simp add: unfold note_it_def)
    obtain o1 w1 where n: "note_it w = (o1, w1)" by fastforce
    then have r1: "rx w1 = rx w" using keep by (rule keeps_rxD [rotated])
    show ?thesis
    proof (cases o1)
      case (Ok u)
      then have run1: "?run = tbind (recv_pin W) (\<lambda>pin.
          verify_pin_loop W cfg send_result False pin (pin_try + 1)) w1"
        using n by (simp add: run tbind_def)
      show ?thesis
      proof (cases rule: recv_pin_cases [where w = w1 and W = W])
        case closed
        then show ?thesis using run1 r1 by (intro exI [of _ 0]) (auto simp: tbind_def)
      next
        case (bad m ms)
        then show ?thesis using run1 r1 bound by (intro exI [of _ 1]) (auto simp: tbind_def)
      next
        case (pin m ms p)
        let ?w2 = "w1\<lparr>rx := ms\<rparr>"
        have run2: "?run = verify_pin_loop W cfg send_result False p (pin_try + 1) ?w2"
          using run1 pin by (simp add: tbind_def)
        have "unat (pc_max_tries cfg) - unat (pin_try + 1) < unat (pc_max_tries cfg) - unat pin_try"
          using inc bound by simp
        from less [OF this, of False p ?w2] obtain k where k: "k \<le> unat (pc_max_tries cfg) - unat (pin_try + 1)"
          "rx (snd ?run) = drop k ms"
          "fst ?run = Ok () \<longrightarrow> p = pc_pin cfg \<or> (\<exists>m \<in> set (take k ms). right_pin W cfg m)"
          unfolding run2 by auto
        have "right_pin W cfg m" if "p = pc_pin cfg" using pin that by (simp add: right_pin_def)
        then show ?thesis using k pin r1 bound inc
          by (intro exI [of _ "Suc k"]) auto
      qed
    next
      case (Err e)
      then show ?thesis using run n r1 by (intro exI [of _ 0]) (simp add: tbind_def)
    next
      case Panic
      then show ?thesis using run n r1 by (intro exI [of _ 0]) (simp add: tbind_def)
    qed
  qed
qed

lemma verify_pin_safe:
  assumes keeps_sr: "\<And>r. keeps_rx (send_result r)"
    and run: "verify_pin W cfg notice send_result w = (r, w')"
  obtains k where "k \<le> unat (pc_max_tries cfg)" "rx w' = drop k (rx w)"
    "r = Ok () \<Longrightarrow> pc_pin cfg = [] \<or> (\<exists>m \<in> set (take k (rx w)). right_pin W cfg m)"
proof (cases "send_status StatusPinRequired w")
  case (Pair o1 w1)
  then have rx1: "rx w1 = rx w" by (rule keeps_rxD [OF keeps_basic(4)])
  show ?thesis
  proof (cases o1)
    case (Ok u)
    then have run': "verify_pin_loop W cfg send_result notice [] 0 w1 = (r, w')"
      using run Pair by (simp add: verify_pin_def tbind_def)
    show ?thesis
      using verify_pin_loop_safe [where cfg = cfg and w = w1 and W = W and notice = notice
          and remote_pin = "[]" and pin_try = 0 and send_result = send_result, OF keeps_sr] run' rx1
      by (auto intro: that)
  next
    case (Err e)
    then show ?thesis using run Pair rx1 by (intro that [of 0]) (auto simp: verify_pin_def tbind_def)
  next
    case Panic
    then show ?thesis using run Pair rx1 by (intro that [of 0]) (auto simp: verify_pin_def tbind_def)
  qed
qed

subsection \<open>A challenge between two live peers\<close>

lemma verify_pin_loop_accepts:
  assumes W: "wire_format W"
    and notice: "\<And>r w. healthy w \<Longrightarrow> send_result r w = (Ok (), w\<lparr>trace := trace w @ evs r\<rparr>)"
  shows "\<lbrakk>healthy w; remote_pin \<noteq> pc_pin cfg; pc_pin cfg \<notin> set ps;
      unat pin_try + length ps < unat (pc_max_tries cfg);
      rx w = map (pin_msg W) (ps @ [pc_pin cfg]) @ rest\<rbrakk> \<Longrightarrow>
    verify_pin_loop W cfg send_result n remote_pin pin_try w =
      (Ok (), w\<lparr>rx := rest, trace := trace w @ (if n \<or> 0 < pin_try then evs VerPinRequired else []) @
         concat (replicate (length ps) (evs VerPinRequired))\<rparr>)"
proof (induction ps arbitrary: n remote_pin pin_try w)
  case Nil
  then have "\<not> pc_max_tries cfg \<le> pin_try" by (simp add: word_le_nat_alt)
  then show ?case
    using Nil W
    by (auto simp: verify_pin_loop.simps [of W cfg send_result n remote_pin pin_try]
        verify_pin_loop.simps [of W cfg send_result False "pc_pin cfg"] notice task)
next
  case (Cons p ps)
  then have lt: "pin_try < pc_max_tries cfg" by (simp add: word_less_nat_alt)
  then have nle: "\<not> pc_max_tries cfg \<le> pin_try" by simp
  have inc: "unat (pin_try + 1) = unat pin_try + 1" by (rule unat_succ_below [OF lt])
  then have pos: "0 < pin_try + 1" by (simp add: word_less_nat_alt)
  have more: "unat (pin_try + 1) + length ps < unat (pc_max_tries cfg)"
    using Cons.prems inc by simp
  define before where "before = (if n \<or> 0 < pin_try then evs VerPinRequired else [])"
  define w1 where "w1 = w\<lparr>trace := trace w @ before, rx := map (pin_msg W) (ps @ [pc_pin cfg]) @ rest\<rparr>"
  have "verify_pin_loop W cfg send_result n remote_pin pin_try w =
      verify_pin_loop W cfg send_result False p (pin_try + 1) w1"
    using Cons.prems W nle
    by (simp add: verify_pin_loop.simps [of W cfg send_result n remote_pin pin_try]
        notice task before_def w1_def)
  also have "\<dots> = (Ok (), w1\<lparr>rx := rest, trace := trace w1 @
      (if False \<or> 0 < pin_try + 1 then evs VerPinRequired else []) @
      concat (replicate (length ps) (evs VerPinRequired))\<rparr>)"
    using Cons.prems more by (intro Cons.IH) (auto simp: w1_def)
  finally show ?case using pos by (simp add: w1_def before_def)
qed

lemma verify_pin_accepts:
  assumes "wire_format W"
    and "\<And>r w. healthy w \<Longrightarrow> send_result r w = (Ok (), w\<lparr>trace := trace w @ evs r\<rparr>)"
    and "healthy w" "pc_pin cfg \<noteq> []" "pc_pin cfg \<notin> set ps" "length ps < unat (pc_max_tries cfg)"
    and "rx w = map (pin_msg W) (ps @ [pc_pin cfg]) @ rest"
  shows "verify_pin W cfg n send_result w =
    (Ok (), w\<lparr>rx := rest, trace := trace w @ [EvStatus StatusPinRequired] @
       concat (replicate (length ps + (if n then 1 else 0)) (evs VerPinRequired))\<rparr>)"
  using assms
  by (auto simp: verify_pin_def task verify_pin_loop_accepts [where evs = evs and ps = ps and rest = rest])

lemma verify_pin_loop_rejects:
  assumes W: "wire_format W"
    and notice: "\<And>r w. healthy w \<Longrightarrow> send_result r w = (Ok (), w\<lparr>trace := trace w @ evs r\<rparr>)"
  shows "\<lbrakk>healthy w; remote_pin \<noteq> pc_pin cfg; pc_pin cfg \<notin> set ps;
      unat pin_try + length ps = unat (pc_max_tries cfg);
      rx w = map (pin_msg W) ps @ rest\<rbrakk> \<Longrightarrow>
    verify_pin_loop W cfg send_result n remote_pin pin_try w =
      (Err (Msg ''Too many requests''), w\<lparr>rx := rest, trace := trace w @
         (if ps \<noteq> [] \<and> (n \<or> 0 < pin_try) then evs VerPinRequired else []) @
         concat (replicate (length ps - 1) (evs VerPinRequired)) @
         evs VerTooManyAttempts @ [EvDrained, EvStatus StatusTooManyAttempts]\<rparr>)"
proof (induction ps arbitrary: n remote_pin pin_try w)
  case Nil
  then have "pc_max_tries cfg \<le> pin_try" by (simp add: word_le_nat_alt)
  then show ?case
    using Nil by (simp add: verify_pin_loop.simps [of W cfg send_result n remote_pin pin_try] notice task ignore_def tbind_def)
next
  case (Cons p ps)
  then have lt: "pin_try < pc_max_tries cfg" by (simp add: word_less_nat_alt)
  then have nle: "\<not> pc_max_tries cfg \<le> pin_try" by simp
  have inc: "unat (pin_try + 1) = unat pin_try + 1" by (rule unat_succ_below [OF lt])
  then have pos: "0 < pin_try + 1" by (simp add: word_less_nat_alt)
  have more: "unat (pin_try + 1) + length ps = unat (pc_max_tries cfg)"
    using Cons.prems inc by simp
  define before where "before = (if n \<or> 0 < pin_try then evs VerPinRequired else [])"
  define w1 where "w1 = w\<lparr>trace := trace w @ before, rx := map (pin_msg W) ps @ rest\<rparr>"
  have "verify_pin_loop W cfg send_result n remote_pin pin_try w =
      verify_pin_loop W cfg send_result False p (pin_try + 1) w1"
    using Cons.prems W nle
    by (simp add: verify_pin_loop.simps [of W cfg send_result n remote_pin pin_try]
        notice task before_def w1_def)
  also have "\<dots> = (Err (Msg ''Too many requests''), w1\<lparr>rx := rest, trace := trace w1 @
      (if ps \<noteq> [] \<and> (False \<or> 0 < pin_try + 1) then evs VerPinRequired else []) @
      concat (replicate (length ps - 1) (evs VerPinRequired)) @
      evs VerTooManyAttempts @ [EvDrained, EvStatus StatusTooManyAttempts]\<rparr>)"
    using Cons.prems more by (intro Cons.IH) (auto simp: w1_def)
  finally show ?case using pos by (cases ps) (simp_all add: w1_def before_def)
qed

definition pin_events :: "wire \<Rightarrow> string \<Rightarrow> event list" where
  "pin_events W p = [EvStatus StatusPinRequired, EvPinRequest,
     EvText (to_json_string W enc_rtc_pin_message \<lparr>pm_pin = p\<rparr>)]"

lemma dc_out_pin_events [simp]: "dc_out (concat (map (pin_events W) ps)) = map (pin_msg W) ps"
  by (induction ps) (simp_all add: pin_events_def pin_msg_def json_msg_def)

text \<open>The wrong PINs of the user, each answered by the notice \<open>retry\<close>, and what comes after them.\<close>

lemma handle_pin_loop_retries:
  assumes retry: "\<And>w ms. rx w = retry @ ms \<Longrightarrow> receive_pin_response c w = (Ok d, w\<lparr>rx := ms\<rparr>)"
      "parse d = ChalPinRequired"
  shows "\<lbrakk>healthy w; rx w = concat (replicate (length ps) retry) @ ms\<rbrakk> \<Longrightarrow>
    handle_pin_loop W c parse (map PinGiven ps @ later) w =
      handle_pin_loop W c parse later (w\<lparr>rx := ms, trace := trace w @ concat (map (pin_events W) ps)\<rparr>)"
proof (induction ps arbitrary: w)
  case Nil
  then show ?case by (cases w) simp
next
  case (Cons q ps)
  then show ?case by (simp add: task tbind_def retry pin_events_def)
qed

lemma handle_pin_loop_accepted:
  assumes retry: "\<And>w ms. rx w = retry @ ms \<Longrightarrow> receive_pin_response c w = (Ok d, w\<lparr>rx := ms\<rparr>)"
      "parse d = ChalPinRequired"
    and accept: "\<And>w ms. rx w = accept @ ms \<Longrightarrow> receive_pin_response c w = (Ok d', w\<lparr>rx := ms\<rparr>)"
      "parse d' = ChalOk x"
    and run: "healthy w" "rx w = concat (replicate (length ps) retry) @ accept @ rest"
  shows "handle_pin_loop W c parse (map PinGiven (ps @ [p]) @ others) w =
    (Ok x, w\<lparr>rx := rest, trace := trace w @ concat (map (pin_events W) (ps @ [p]))\<rparr>)"
  using handle_pin_loop_retries [where c = c and d = d and parse = parse and ps = ps and W = W and retry = retry and ms = "accept @ rest" and later = "PinGiven p # others",
      OF retry run] run(1)
  by (simp add: task tbind_def accept pin_events_def)

lemma handle_pin_loop_refused:
  assumes retry: "\<And>w ms. rx w = retry @ ms \<Longrightarrow> receive_pin_response c w = (Ok d, w\<lparr>rx := ms\<rparr>)"
      "parse d = ChalPinRequired"
    and refuse: "\<And>w ms. rx w = refuse @ ms \<Longrightarrow> receive_pin_response c w = (Ok d', w\<lparr>rx := ms\<rparr>)"
      "parse d' = ChalTooManyAttempts"
    and run: "healthy w" "rx w = concat (replicate (length ps) retry) @ refuse @ rest"
  shows "handle_pin_loop W c parse (map PinGiven (ps @ [p]) @ others) w =
    (Err (Msg ''Too many requests''), w\<lparr>rx := rest,
      trace := trace w @ concat (map (pin_events W) (ps @ [p])) @ [EvStatus StatusTooManyAttempts]\<rparr>)"
  using handle_pin_loop_retries [where c = c and d = d and parse = parse and ps = ps and W = W and retry = retry and ms = "refuse @ rest" and later = "PinGiven p # others",
      OF retry run] run(1)
  by (simp add: task tbind_def refuse pin_events_def)

end
