(* ===== verification/Rtc_Sender.thy ===== *)
theory Rtc_Sender
  imports Rtc_Pin
begin

section \<open>The sending task (send_offer in core/src/webrtc/webrtc.rs)\<close>

text \<open>
  The task spawned by \<open>send_offer\<close>, one definition per stage of the protocol, in its
  order. A stage that ends the task without an error returns \<open>Stop\<close>.
\<close>

datatype 'a stage = Go 'a | Stop

definition and_then :: "('w, 'a stage) task \<Rightarrow> ('a \<Rightarrow> ('w, 'b stage) task) \<Rightarrow> ('w, 'b stage) task" where
  "and_then m f = tbind m (\<lambda>s. case s of Stop \<Rightarrow> ret Stop | Go x \<Rightarrow> f x)"

lemma and_then_Go [task]: "m w = (Ok (Go x), w') \<Longrightarrow> and_then m f w = f x w'"
  by (simp add: and_then_def tbind_def)

lemma and_then_Stop [task]: "m w = (Ok Stop, w') \<Longrightarrow> and_then m f w = (Ok Stop, w')"
  by (simp add: and_then_def tbind_def ret_def)

lemma and_then_Err [task]: "m w = (Err e, w') \<Longrightarrow> and_then m f w = (Err e, w')"
  by (simp add: and_then_def tbind_def)

definition verified :: "bool outcome \<Rightarrow> bool rtc" where
  "verified r = (case r of Done b \<Rightarrow> ret b | Panicked \<Rightarrow> panic)"

text \<open>What both tasks are given: the key, the expected peer, the PIN, the random nonce.\<close>

record rtc_params =
  rp_signing_key :: bytes
  rp_expecting_public_key :: "verifying_key option"
  rp_pin :: "pin_config option"
  rp_fill :: "bytes \<Rightarrow> bytes"

definition local_nonce_of :: "rtc_params \<Rightarrow> bytes" where
  "local_nonce_of P = generate_nonce (rp_fill P)"

definition send_nonce :: "wire \<Rightarrow> bytes \<Rightarrow> unit rtc" where
  "send_nonce W n =
     context_err ''Failed to send nonce'' (send_json W enc_rtc_nonce_message \<lparr>nm_nonce = b64_encode W n\<rparr>)"

definition make_token :: "wire \<Rightarrow> crypto \<Rightarrow> rtc_params \<Rightarrow> bytes \<Rightarrow> string rtc" where
  "make_token W C P nonce =
     of_option (Ctx ''Failed to generate token'' KeyErr) (generate_token_nonce W C (rp_signing_key P) nonce)"

subsection \<open>Nonce and token exchange\<close>

definition offer_nonce :: "wire \<Rightarrow> rtc_params \<Rightarrow> bytes rtc" where
  "offer_nonce W P =
     (let local_nonce = local_nonce_of P in
      tbind (send_nonce W local_nonce) (\<lambda>_.
      tbind (receive_nonce W) (\<lambda>remote_nonce.
      ret (local_nonce @ remote_nonce))))"

definition check_expected ::
    "wire \<Rightarrow> crypto \<Rightarrow> verifying_key option \<Rightarrow> string \<Rightarrow> bytes \<Rightarrow> unit rtc" where
  "check_expected W C expecting token nonce =
     (case expecting of
        None \<Rightarrow> ret ()
      | Some key \<Rightarrow>
          tbind (verified (verify_token_nonce W C key token nonce)) (\<lambda>valid.
          if \<not> valid then fail (Msg ''Invalid token signature or nonce'') else ret ()))"

definition offer_token :: "wire \<Rightarrow> crypto \<Rightarrow> rtc_params \<Rightarrow> bytes \<Rightarrow> (bool \<times> string) rtc" where
  "offer_token W C P nonce =
     tbind (make_token W C P nonce) (\<lambda>local_token.
     tbind (context_err ''Failed to send token''
              (send_json W enc_rtc_token_request \<lparr>tr_token = local_token\<rparr>)) (\<lambda>_.
     tbind (recv_string ''Failed to receive token response'') (\<lambda>data.
     tbind (parse_json W dec_rtc_token_response data) (\<lambda>token_response.
     case token_response of
       TokenOk token \<Rightarrow>
         tbind (check_expected W C (rp_expecting_public_key P) token nonce) (\<lambda>_. ret (False, token))
     | TokenPinRequired token \<Rightarrow>
         tbind (check_expected W C (rp_expecting_public_key P) token nonce) (\<lambda>_. ret (True, token))
     | TokenInvalidSignature \<Rightarrow> fail (Msg ''Invalid token signature from receiving peer'')))))"

subsection \<open>The PIN challenges\<close>

definition offer_answer_pin :: "wire \<Rightarrow> bool \<Rightarrow> unit rtc" where
  "offer_answer_pin W pin_required =
     (if pin_required then handle_pin W False (parse_receiving_response W) else ret ())"

definition offer_verify_pin :: "wire \<Rightarrow> rtc_params \<Rightarrow> unit rtc" where
  "offer_verify_pin W P =
     (case rp_pin P of None \<Rightarrow> ret () | Some cfg \<Rightarrow> verify_pin W cfg True (sender_notice W))"

subsection \<open>The file list\<close>

definition report_list_failure :: "unit rtc \<Rightarrow> unit rtc" where
  "report_list_failure m =
     catch_err m
       (\<lambda>e. tbind (ignore (send_status (StatusError (Ctx ''Failed to send file list message'' e)))) (\<lambda>_. fail e))
       ret"

definition offer_files :: "wire \<Rightarrow> file_dto list \<Rightarrow> unit rtc" where
  "offer_files W files =
     tbind (report_list_failure
       (send_string_in_chunks send_bin (to_json_string W enc_rtc_pin_sending_response (PinSendOk files)))) (\<lambda>_.
     report_list_failure send_delimiter)"

definition receive_file_list :: "wire \<Rightarrow> rtc_file_list_response rtc" where
  "receive_file_list W =
     tbind receive_string_from_chunks (\<lambda>b.
     context_err ''Failed to deserialize file list response'' (parse_json W dec_rtc_file_list_response b))"

definition stop_declined :: "(string, string) hashmap stage rtc" where
  "stop_declined = tbind (ignore (send_status StatusDeclined)) (\<lambda>_. ret Stop)"

definition list_error :: "string \<Rightarrow> (string, string) hashmap stage rtc" where
  "list_error s = tbind (ignore (send_status (StatusError (Msg s)))) (\<lambda>_. fail (Msg s))"

text \<open>The user's decision on a pairing request.\<close>

definition ask_pair :: "bool rtc" where
  "ask_pair w =
     (case pair_with w of
        PairChannelClosed \<Rightarrow> fail (Msg ''Failed to send pair response'') w
      | PairDropped \<Rightarrow> tbind (emit EvPairRequest) (\<lambda>_. fail RecvErr) w
      | PairAnswer b \<Rightarrow> tbind (emit EvPairRequest) (\<lambda>_. ret b) w)"

definition offer_pair ::
    "wire \<Rightarrow> crypto \<Rightarrow> string \<Rightarrow> string \<Rightarrow> bytes \<Rightarrow> (string, string) hashmap stage rtc" where
  "offer_pair W C public_key remote_token nonce =
     tbind (of_option (Msg ''Failed to extract signature identifier'')
              (extract_signature_identifier remote_token)) (\<lambda>signature_identifier.
     tbind (of_option KeyErr (parse_public_key C public_key signature_identifier)) (\<lambda>parsed_key.
     tbind (verified (verify_token_nonce W C parsed_key remote_token nonce)) (\<lambda>valid.
     if \<not> valid then
       tbind wait_buffer_empty (\<lambda>_.
       tbind (send_json W enc_rtc_pair_response PairInvalidSignature) (\<lambda>_.
       fail (Msg ''Invalid token signature or nonce'')))
     else
       tbind ask_pair (\<lambda>accepted.
       tbind (send_json W enc_rtc_pair_response (if accepted then PairOk public_key else PairDeclined)) (\<lambda>_.
       tbind (receive_file_list W) (\<lambda>res.
       case res of
         ListOk files \<Rightarrow> ret (Go files)
       | ListDeclined \<Rightarrow> stop_declined
       | ListInvalidSignature \<Rightarrow> list_error ''Invalid signature (not expected)''
       | ListPair _ \<Rightarrow> list_error ''Unexpected pair response''))))))"

definition offer_selection ::
    "wire \<Rightarrow> crypto \<Rightarrow> string \<Rightarrow> bytes \<Rightarrow> (string, string) hashmap stage rtc" where
  "offer_selection W C remote_token nonce =
     tbind (receive_file_list W) (\<lambda>file_list_res.
     case file_list_res of
       ListOk files \<Rightarrow> ret (Go files)
     | ListPair public_key \<Rightarrow> offer_pair W C public_key remote_token nonce
     | ListDeclined \<Rightarrow> stop_declined
     | ListInvalidSignature \<Rightarrow> list_error ''Invalid signature (not expected)'')"

text \<open>
  When the application has dropped the receiver, the code creates the send of an error
  status without awaiting it, so no status is sent.
\<close>

definition publish_selection :: "(string, string) hashmap \<Rightarrow> unit rtc" where
  "publish_selection file_map w =
     (if selected_open w then emit (EvSelected (hm_keys file_map)) w
      else fail (Msg ''Could not publish selection'') w)"

subsection \<open>The files\<close>

definition send_file :: "wire \<Rightarrow> (string, string) hashmap \<Rightarrow> string \<times> bytes list \<Rightarrow> unit rtc" where
  "send_file W file_map message =
     (let file_id = fst message; binary_rx = snd message in
      case hm_get file_map file_id of
        None \<Rightarrow> file_error file_id (Msg ''Failed to get file token'')
      | Some file_token \<Rightarrow>
          catch_err (send_json W enc_rtc_send_file_header_request \<lparr>fh_id = file_id, fh_token = file_token\<rparr>)
            (file_error file_id)
            (\<lambda>_. catch_err (process_in_chunks send_bin binary_rx) (file_error file_id) ret))"

fun send_files :: "wire \<Rightarrow> (string, string) hashmap \<Rightarrow> (string \<times> bytes list) list \<Rightarrow> unit rtc" where
  "send_files W file_map [] = ret ()"
| "send_files W file_map (message # messages) =
     tbind (send_file W file_map message) (\<lambda>_. send_files W file_map messages)"

definition send_outgoing :: "wire \<Rightarrow> (string, string) hashmap \<Rightarrow> unit rtc" where
  "send_outgoing W file_map w = send_files W file_map (outgoing w) w"

text \<open>The last message is awaited whatever it is, one message only.\<close>

definition finish_sending :: "unit stage rtc" where
  "finish_sending =
     tbind wait_buffer_empty (\<lambda>_.
     tbind send_delimiter (\<lambda>_.
     tbind recv (\<lambda>_. ret (Go ()))))"

subsection \<open>The task\<close>

definition offer_handshake :: "wire \<Rightarrow> crypto \<Rightarrow> rtc_params \<Rightarrow> (bytes \<times> string) rtc" where
  "offer_handshake W C P =
     tbind (offer_nonce W P) (\<lambda>nonce.
     tbind (offer_token W C P nonce) (\<lambda>(pin_required, remote_token).
     tbind (offer_answer_pin W pin_required) (\<lambda>_.
     tbind (offer_verify_pin W P) (\<lambda>_.
     tbind (send_status Connected) (\<lambda>_.
     ret (nonce, remote_token))))))"

definition offer_task :: "wire \<Rightarrow> crypto \<Rightarrow> rtc_params \<Rightarrow> file_dto list \<Rightarrow> unit stage rtc" where
  "offer_task W C P files =
     tbind wait_buffer_empty (\<lambda>_.
     tbind (offer_handshake W C P) (\<lambda>(nonce, remote_token).
     tbind (offer_files W files) (\<lambda>_.
     and_then (offer_selection W C remote_token nonce) (\<lambda>file_map.
     tbind (publish_selection file_map) (\<lambda>_.
     tbind (send_outgoing W file_map) (\<lambda>_.
     finish_sending))))))"

end
