(* ===== verification/Rtc_Receiver.thy ===== *)
theory Rtc_Receiver
  imports Rtc_Sender
begin

section \<open>The receiving task (accept_offer in core/src/webrtc/webrtc.rs)\<close>

text \<open>
  The task spawned by \<open>accept_offer\<close>, one definition per stage, and the loop that turns
  the messages of the data channel into files. \<open>new_token\<close> stands for the random UUIDs,
  by position: file tokens are what the peer has to repeat in a file's header.
\<close>

subsection \<open>Handshake\<close>

definition accept_nonce :: "wire \<Rightarrow> rtc_params \<Rightarrow> bytes rtc" where
  "accept_nonce W P =
     tbind (receive_nonce W) (\<lambda>remote_nonce.
     (let local_nonce = local_nonce_of P in
      tbind (send_nonce W local_nonce) (\<lambda>_.
      ret (remote_nonce @ local_nonce))))"

definition accept_token :: "wire \<Rightarrow> crypto \<Rightarrow> rtc_params \<Rightarrow> bytes \<Rightarrow> unit rtc" where
  "accept_token W C P nonce =
     tbind (recv_string ''Failed to receive token'') (\<lambda>data.
     tbind (parse_json W dec_rtc_token_request data) (\<lambda>req.
     tbind (case rp_expecting_public_key P of
              None \<Rightarrow> ret ()
            | Some key \<Rightarrow>
                tbind (verified (verify_token_nonce W C key (tr_token req) nonce)) (\<lambda>valid.
                if \<not> valid then
                  tbind (send_json W enc_rtc_token_response TokenInvalidSignature) (\<lambda>_.
                  tbind wait_buffer_empty (\<lambda>_.
                  fail (Msg ''Invalid token signature or nonce'')))
                else ret ())) (\<lambda>_.
     tbind (make_token W C P nonce) (\<lambda>local_token.
     context_err ''Failed to send token''
       (send_json W enc_rtc_token_response
         (case rp_pin P of Some _ \<Rightarrow> TokenPinRequired local_token | None \<Rightarrow> TokenOk local_token))))))"

definition accept_verify_pin :: "wire \<Rightarrow> rtc_params \<Rightarrow> unit rtc" where
  "accept_verify_pin W P =
     (case rp_pin P of
        None \<Rightarrow> ret ()
      | Some cfg \<Rightarrow>
          tbind (verify_pin W cfg False (receiver_notice W)) (\<lambda>_.
          send_json W enc_rtc_pin_receiving_response PinRecvOk))"

definition accept_file_list :: "wire \<Rightarrow> file_dto list rtc" where
  "accept_file_list W =
     tbind receive_string_from_chunks (\<lambda>b.
     tbind (context_err ''Failed to deserialize file list response''
              (parse_json W dec_rtc_pin_sending_response b)) (\<lambda>pin_response.
     case pin_response of
       PinSendOk files \<Rightarrow> ret files
     | PinSendRequired \<Rightarrow> handle_pin W True (parse_sending_response W)
     | PinSendTooManyAttempts \<Rightarrow>
         tbind (ignore (send_status (StatusError (Msg ''Unexpected TooManyAttempts response'')))) (\<lambda>_.
         fail (Msg ''Unexpected TooManyAttempts response''))))"

definition accept_handshake :: "wire \<Rightarrow> crypto \<Rightarrow> rtc_params \<Rightarrow> (bytes \<times> file_dto list) rtc" where
  "accept_handshake W C P =
     tbind (accept_nonce W P) (\<lambda>nonce.
     tbind (accept_token W C P nonce) (\<lambda>_.
     tbind (accept_verify_pin W P) (\<lambda>_.
     tbind (accept_file_list W) (\<lambda>file_list.
     tbind (send_status Connected) (\<lambda>_.
     ret (nonce, file_list))))))"

subsection \<open>The selection\<close>

definition publish_files :: "file_dto list \<Rightarrow> unit rtc" where
  "publish_files files w =
     (if files_open w then emit (EvFiles files) w else fail (Msg ''Failed to send file list'') w)"

definition send_file_list :: "wire \<Rightarrow> rtc_file_list_response \<Rightarrow> unit rtc" where
  "send_file_list W r =
     tbind (send_string_in_chunks send_bin (to_json_string W enc_rtc_file_list_response r)) (\<lambda>_.
     send_delimiter)"

definition file_tokens_of :: "(nat \<Rightarrow> string) \<Rightarrow> string list \<Rightarrow> (string, string) hashmap" where
  "file_tokens_of new_token ids = hm_collect (zip ids (map new_token [0..<length ids]))"

definition accept_selection ::
    "wire \<Rightarrow> (nat \<Rightarrow> string) \<Rightarrow> file_dto list \<Rightarrow> (string, string) hashmap stage rtc" where
  "accept_selection W new_token files w =
     (case choice w files of
        SelectionDropped \<Rightarrow> ret Stop w
      | SelectionDeclined \<Rightarrow> tbind (send_file_list W ListDeclined) (\<lambda>_. ret Stop) w
      | SelectionFiles ids \<Rightarrow>
          (let file_tokens = file_tokens_of new_token ids in
           tbind (send_file_list W (ListOk file_tokens)) (\<lambda>_. ret (Go file_tokens)) w))"

subsection \<open>Receiving the files\<close>

text \<open>
  Dropping the state of a file closes the stream its consumer reads. Sending on that
  stream fails when the consumer is gone.
\<close>

definition drop_state :: "rtc_file_state option \<Rightarrow> unit rtc" where
  "drop_state st = (case st of None \<Rightarrow> ret () | Some s \<Rightarrow> emit (EvFileClosed (fs_file_id s)))"

definition binary_send :: "string \<Rightarrow> bytes \<Rightarrow> unit rtc" where
  "binary_send i b w =
     (case chunk_sends w of
        [] \<Rightarrow> emit (EvChunk i b) w
      | True # r \<Rightarrow> emit (EvChunk i b) (w\<lparr>chunk_sends := r\<rparr>)
      | False # r \<Rightarrow> (Err SendErr, w\<lparr>chunk_sends := r\<rparr>))"

definition file_result :: "string \<Rightarrow> rtc_send_file_response option rtc" where
  "file_result i w =
     (case file_results w of
        [] \<Rightarrow> (Ok None, w)
      | r # rs \<Rightarrow> (Ok (Some (r i)), w\<lparr>file_results := rs\<rparr>))"

definition result_error :: "rtc_send_file_response option \<Rightarrow> string option" where
  "result_error r =
     (case r of
        Some result \<Rightarrow>
          if fr_success result then None
          else Some (case fr_error result of None \<Rightarrow> ''Unknown error'' | Some e \<Rightarrow> e)
      | None \<Rightarrow> Some ''Failed to receive file result'')"

text \<open>The report on the file that the current string message ends.\<close>

definition report_last :: "wire \<Rightarrow> string \<Rightarrow> unit rtc" where
  "report_last W last_file_id =
     tbind (file_result last_file_id) (\<lambda>r.
     (let error = result_error r in
      send_json W enc_rtc_send_file_response
        \<lparr>fr_id = last_file_id, fr_success = (error = None), fr_error = error\<rparr>))"

definition find_size :: "file_dto list \<Rightarrow> string \<Rightarrow> u64 option" where
  "find_size file_list i = map_option fd_size (find (\<lambda>f. fd_id f = i) file_list)"

text \<open>A header opens the file it names, if its token is the one given out for it.\<close>

definition open_file ::
    "wire \<Rightarrow> (string, string) hashmap \<Rightarrow> file_dto list \<Rightarrow> bytes \<Rightarrow> rtc_file_state option rtc" where
  "open_file W file_tokens file_list data =
     tbind (parse_json W dec_rtc_send_file_header_request data) (\<lambda>header.
     case hm_get file_tokens (fh_id header) of
       None \<Rightarrow> tbind (file_error (fh_id header) (Msg ''File not found'')) (\<lambda>_. ret None)
     | Some entry \<Rightarrow>
         if fh_token header \<noteq> entry
         then tbind (file_error (fh_id header) (Msg ''Invalid token'')) (\<lambda>_. ret None)
         else
           (case find_size file_list (fh_id header) of
              None \<Rightarrow>
                tbind (file_error (fh_id header) (Msg ''Expected size to be available'')) (\<lambda>_. ret None)
            | Some sz \<Rightarrow>
                tbind (emit (EvReceiving (fh_id header))) (\<lambda>_.
                ret (Some \<lparr>fs_file_id = fh_id header, fs_size = sz\<rparr>))))"

text \<open>One message. \<open>None\<close>: the loop ends.\<close>

definition receive_message ::
    "wire \<Rightarrow> (string, string) hashmap \<Rightarrow> file_dto list \<Rightarrow> rtc_file_state option \<Rightarrow> dc_msg \<Rightarrow>
       rtc_file_state option option rtc" where
  "receive_message W file_tokens file_list file_state msg =
     (if dm_is_string msg then
        tbind (drop_state file_state) (\<lambda>_.
        case file_state of
          Some s \<Rightarrow>
            tbind (report_last W (fs_file_id s)) (\<lambda>_.
            if is_delimiter msg then tbind (within_limit wait_buffer_empty) (\<lambda>_. ret None)
            else tbind (open_file W file_tokens file_list (dm_data msg)) (\<lambda>st. ret (Some st)))
        | None \<Rightarrow> tbind (open_file W file_tokens file_list (dm_data msg)) (\<lambda>st. ret (Some st)))
      else
        (case file_state of
           Some s \<Rightarrow> tbind (binary_send (fs_file_id s) (dm_data msg)) (\<lambda>_. ret (Some file_state))
         | None \<Rightarrow>
             tbind (file_error ''unknown'' (Msg ''Received binary data without a header'')) (\<lambda>_.
             ret (Some None))))"

text \<open>
  The loop. The state that is left when the stream ends is dropped; the trace records the end. When a send to the
  consumer of a file fails, the consumer is gone and nobody sees the drop.
\<close>

fun receive_loop ::
    "wire \<Rightarrow> (string, string) hashmap \<Rightarrow> file_dto list \<Rightarrow> rtc_file_state option \<Rightarrow> dc_msg list \<Rightarrow>
       unit rtc" where
  "receive_loop W file_tokens file_list file_state [] w =
     drop_state file_state (w\<lparr>rx := [], trace := trace w @ [EvClosed]\<rparr>)"
| "receive_loop W file_tokens file_list file_state (msg # msgs) w =
     tbind (receive_message W file_tokens file_list file_state msg) (\<lambda>next_state.
       case next_state of
         None \<Rightarrow> ret ()
       | Some st \<Rightarrow> receive_loop W file_tokens file_list st msgs) (w\<lparr>rx := msgs\<rparr>)"

definition receive_files :: "wire \<Rightarrow> (string, string) hashmap \<Rightarrow> file_dto list \<Rightarrow> unit rtc" where
  "receive_files W file_tokens file_list w = receive_loop W file_tokens file_list None (rx w) w"

subsection \<open>The task\<close>

definition accept_task :: "wire \<Rightarrow> crypto \<Rightarrow> rtc_params \<Rightarrow> (nat \<Rightarrow> string) \<Rightarrow> unit stage rtc" where
  "accept_task W C P new_token =
     tbind (accept_handshake W C P) (\<lambda>(nonce, file_list).
     tbind (publish_files file_list) (\<lambda>_.
     and_then (accept_selection W new_token file_list) (\<lambda>file_tokens.
     tbind (receive_files W file_tokens file_list) (\<lambda>_. ret (Go ())))))"

end
