(* ===== verification/Rtc_Safety.thy ===== *)
theory Rtc_Safety
  imports Rtc_Receiver
begin

section \<open>What the transfer tasks do against any peer\<close>

text \<open>
  No assumption on the messages that arrive, on the sends or on the application: what
  the receiver hands to the application, and what has been checked before either side
  goes on.
\<close>

subsection \<open>The streams the receiver opens\<close>

text \<open>
  An automaton over the trace: the file that is open. A chunk or a close belongs to the
  open file, and no file is opened while another is.
\<close>

fun stream_end :: "string option \<Rightarrow> event list \<Rightarrow> string option option" where
  "stream_end cur [] = Some cur"
| "stream_end cur (e # es) =
     (case e of
        EvReceiving i \<Rightarrow> (if cur = None then stream_end (Some i) es else None)
      | EvChunk i b \<Rightarrow> (if cur = Some i then stream_end cur es else None)
      | EvFileClosed i \<Rightarrow> (if cur = Some i then stream_end None es else None)
      | _ \<Rightarrow> stream_end cur es)"

lemma stream_end_append:
  "stream_end cur (xs @ ys) = Option.bind (stream_end cur xs) (\<lambda>c. stream_end c ys)"
  by (induction cur xs rule: stream_end.induct) (auto split: event.split)

text \<open>The files that are opened.\<close>

definition opened :: "event list \<Rightarrow> string set" where
  "opened es = {i. EvReceiving i \<in> set es}"

definition authorised :: "(string, string) hashmap \<Rightarrow> file_dto list \<Rightarrow> string \<Rightarrow> bool" where
  "authorised file_tokens file_list i \<longleftrightarrow> hm_get file_tokens i \<noteq> None \<and> find_size file_list i \<noteq> None"

definition open_id :: "rtc_file_state option \<Rightarrow> string option" where
  "open_id st = map_option fs_file_id st"

text \<open>Runs that only add events of no stream.\<close>

definition quiet :: "event list \<Rightarrow> bool" where
  "quiet es \<longleftrightarrow> (\<forall>cur. stream_end cur es = Some cur) \<and> opened es = {}"

lemma quiet_simps [simp]:
  "quiet []"
  "quiet (EvText s # es) = quiet es" "quiet (EvBin b # es) = quiet es"
  "quiet (EvDrained # es) = quiet es" "quiet (EvStatus st # es) = quiet es"
  "quiet (EvFileError fe # es) = quiet es"
  by (auto simp: quiet_def opened_def)

definition adds :: "event list \<Rightarrow> rtc_world \<Rightarrow> rtc_world \<Rightarrow> bool" where
  "adds es w w' \<longleftrightarrow> trace w' = trace w @ es"

lemma adds_refl [simp]: "trace w' = trace w \<Longrightarrow> adds [] w w'"
  by (simp add: adds_def)

lemma adds_trans: "adds xs w w1 \<Longrightarrow> adds ys w1 w2 \<Longrightarrow> adds (xs @ ys) w w2"
  by (simp add: adds_def)

lemma dc_send_adds:
  "dc_send e w = (r, w') \<Longrightarrow> \<exists>es. adds es w w' \<and> (es = [] \<or> es = [e])"
  by (auto simp: dc_send_def emit_def adds_def split: list.splits option.splits)

lemma drop_state_run:
  "drop_state st w = (Ok (), w\<lparr>trace := trace w @ (case st of None \<Rightarrow> [] | Some s \<Rightarrow> [EvFileClosed (fs_file_id s)])\<rparr>)"
  by (simp add: drop_state_def task split: option.splits)

lemma report_last_adds:
  "report_last W i w = (r, w') \<Longrightarrow> r \<noteq> Panic \<and> (\<exists>es. adds es w w' \<and> quiet es)"
proof -
  assume run: "report_last W i w = (r, w')"
  obtain x w1 where f: "file_result i w = (Ok x, w1)" and t: "trace w1 = trace w"
    by (cases "file_results w") (auto simp: file_result_def)
  then have d: "dc_send (EvText (to_json_string W enc_rtc_send_file_response
      \<lparr>fr_id = i, fr_success = (result_error x = None), fr_error = result_error x\<rparr>)) w1 = (r, w')"
    using run by (simp add: report_last_def tbind_def send_json_def send_text_def Let_def)
  from dc_send_adds [OF d] t show ?thesis
    using d by (auto simp: adds_def dc_send_def emit_def split: list.splits option.splits)
qed

lemma open_file_step:
  assumes "open_file W ft fl data w = (r, w')"
  shows "r \<noteq> Panic \<and> (\<exists>es. adds es w w' \<and> opened es \<subseteq> Collect (authorised ft fl) \<and>
     stream_end None es = Some (case r of Ok st \<Rightarrow> open_id st | _ \<Rightarrow> None))"
  using assms
  by (auto simp: open_file_def tbind_def parse_json_def of_option_def fail_def ret_def emit_def file_error_def
      adds_def open_id_def authorised_def opened_def split: option.splits if_splits)

lemma within_limit_drained:
  obtains k w' where "within_limit wait_buffer_empty w = (Ok (), w')" "adds (take k [EvDrained]) w w'"
    "quiet (take k [EvDrained])"
proof -
  have wait: "ignore wait_buffer_empty v = (Ok (), v\<lparr>trace := trace v @ [EvDrained]\<rparr>)" for v
    by (simp add: ignore_def wait_buffer_empty_def emit_def)
  have quiet: "quiet (take k [EvDrained])" for k by (cases k) simp_all
  show thesis
  proof (cases "time_limits w")
    case Nil
    then show thesis using that [of _ 1] quiet [of 1] by (simp add: within_limit_def wait adds_def)
  next
    case (Cons l ls)
    then show thesis
    proof (cases l)
      case None
      then show thesis using that [of _ 1] quiet [of 1] Cons by (simp add: within_limit_def wait adds_def)
    next
      case (Some k)
      then show thesis using that [of _ k] quiet [of k] Cons by (simp add: within_limit_def wait adds_def)
    qed
  qed
qed

lemma receive_message_step:
  assumes run: "receive_message W ft fl st m w = (r, w')"
  shows "\<exists>es. adds es w w' \<and> opened es \<subseteq> Collect (authorised ft fl) \<and>
     (case r of
        Ok None \<Rightarrow> stream_end (open_id st) es = Some None
      | Ok (Some st') \<Rightarrow> stream_end (open_id st) es = Some (open_id st')
      | _ \<Rightarrow> stream_end (open_id st) es \<noteq> None)"
proof (cases "dm_is_string m")
  case False
  then show ?thesis
    using run
    by (auto simp: receive_message_def tbind_def ret_def binary_send_def emit_def file_error_def
        adds_def open_id_def opened_def split: option.splits list.splits bool.splits if_splits)
next
  case True
  let ?closing = "case st of None \<Rightarrow> [] | Some s \<Rightarrow> [EvFileClosed (fs_file_id s)]"
  let ?w1 = "w\<lparr>trace := trace w @ ?closing\<rparr>"
  have closing: "stream_end (open_id st) (?closing @ es) = stream_end None es" for es
    by (cases st) (simp_all add: open_id_def)
  have closing_opened: "opened (?closing @ es) = opened es" for es
    by (cases st) (auto simp: opened_def)
  have w1: "adds es ?w1 w' \<Longrightarrow> adds (?closing @ es) w w'" for es
    by (simp add: adds_def)
  have opens: "\<exists>es. adds es w2 w' \<and> opened es \<subseteq> Collect (authorised ft fl) \<and>
      stream_end None es = Some (case r of Ok (Some st') \<Rightarrow> open_id st' | _ \<Rightarrow> None) \<and> r \<noteq> Ok None"
    if o: "tbind (open_file W ft fl (dm_data m)) (\<lambda>st. ret (Some st)) w2 = (r, w')" for w2
  proof (cases "open_file W ft fl (dm_data m) w2")
    case (Pair ro w3)
    then show ?thesis
      using o open_file_step [OF Pair] by (cases ro) (auto simp: tbind_def ret_def)
  qed
  show ?thesis
  proof (cases st)
    case None
    then have "tbind (open_file W ft fl (dm_data m)) (\<lambda>st. ret (Some st)) w = (r, w')"
      using run True by (simp add: receive_message_def tbind_def drop_state_def ret_def)
    from opens [OF this] show ?thesis using None
      by (auto simp: open_id_def split: tres.splits option.splits)
  next
    case (Some s)
    obtain rr w2 where rep: "report_last W (fs_file_id s) ?w1 = (rr, w2)" by fastforce
    from report_last_adds [OF rep] obtain es1 where es1: "rr \<noteq> Panic" "adds es1 ?w1 w2" "quiet es1" by blast
    show ?thesis
    proof (cases rr)
      case (Err e)
      then have "r = Err e" "w' = w2"
        using run True Some rep by (auto simp: receive_message_def tbind_def drop_state_run)
      then show ?thesis using es1 closing closing_opened
        by (intro exI [of _ "?closing @ es1"]) (auto simp: adds_def quiet_def)
    next
      case Panic
      then show ?thesis using es1 by simp
    next
      case (Ok u)
      then have rest: "(if is_delimiter m then tbind (within_limit wait_buffer_empty) (\<lambda>_. ret None)
          else tbind (open_file W ft fl (dm_data m)) (\<lambda>st. ret (Some st))) w2 = (r, w')"
        using run True Some rep by (simp add: receive_message_def tbind_def drop_state_run)
      show ?thesis
      proof (cases "is_delimiter m")
        case d: True
        obtain k w3 where k: "within_limit wait_buffer_empty w2 = (Ok (), w3)" "adds (take k [EvDrained]) w2 w3"
          "quiet (take k [EvDrained])" by (rule within_limit_drained)
        then have "r = Ok None" "w' = w3" using rest d by (simp_all add: tbind_def ret_def)
        then show ?thesis using es1 k closing [of "es1 @ take k [EvDrained]"] closing_opened [of "es1 @ take k [EvDrained]"]
          by (intro exI [of _ "?closing @ es1 @ take k [EvDrained]"])
            (auto simp: adds_def quiet_def stream_end_append [of None] opened_def simp del: append_assoc)
      next
        case d: False
        then obtain es where es: "adds es w2 w'" "opened es \<subseteq> Collect (authorised ft fl)"
          "stream_end None es = Some (case r of Ok (Some st') \<Rightarrow> open_id st' | _ \<Rightarrow> None)" "r \<noteq> Ok None"
          using opens [of w2] rest by auto
        have "opened (es1 @ es) = opened es" using es1 by (auto simp: opened_def quiet_def)
        then show ?thesis using es1 es closing [of "es1 @ es"] closing_opened [of "es1 @ es"]
          by (intro exI [of _ "?closing @ es1 @ es"])
            (auto simp: adds_def quiet_def stream_end_append [of None] split: tres.splits option.splits)
      qed
    qed
  qed
qed

lemma receive_loop_safe:
  "receive_loop W ft fl st msgs w = (r, w') \<Longrightarrow>
   \<exists>es. adds es w w' \<and> opened es \<subseteq> Collect (authorised ft fl) \<and>
     stream_end (open_id st) es \<noteq> None \<and>
     (r = Ok () \<longrightarrow> stream_end (open_id st) es = Some None)"
proof (induction msgs arbitrary: st w)
  case Nil
  then show ?case
    by (cases st) (auto simp: drop_state_def ret_def emit_def adds_def open_id_def opened_def)
next
  case (Cons m ms)
  let ?w = "w\<lparr>rx := ms\<rparr>"
  obtain r1 w1 where step: "receive_message W ft fl st m ?w = (r1, w1)" by fastforce
  from receive_message_step [OF step] obtain es1 where es1: "adds es1 w w1"
    "opened es1 \<subseteq> Collect (authorised ft fl)"
    and r1: "case r1 of Ok None \<Rightarrow> stream_end (open_id st) es1 = Some None
      | Ok (Some st') \<Rightarrow> stream_end (open_id st) es1 = Some (open_id st')
      | _ \<Rightarrow> stream_end (open_id st) es1 \<noteq> None"
    by (auto simp: adds_def)
  show ?case
  proof (cases "\<exists>st'. r1 = Ok (Some st')")
    case True
    then obtain st' where st': "r1 = Ok (Some st')" by blast
    with Cons.prems step have "receive_loop W ft fl st' ms w1 = (r, w')" by (simp add: tbind_def)
    from Cons.IH [OF this] obtain es2 where es2: "adds es2 w1 w'" "opened es2 \<subseteq> Collect (authorised ft fl)"
      "stream_end (open_id st') es2 \<noteq> None" "r = Ok () \<longrightarrow> stream_end (open_id st') es2 = Some None" by blast
    have "opened (es1 @ es2) = opened es1 \<union> opened es2" by (auto simp: opened_def)
    then show ?thesis using es1 es2 r1 st'
      by (intro exI [of _ "es1 @ es2"]) (simp add: adds_trans stream_end_append)
  next
    case False
    then have "r \<noteq> Ok () \<or> r1 = Ok None" "w' = w1"
      using Cons.prems step by (auto simp: tbind_def ret_def split: tres.splits option.splits)
    then show ?thesis using es1 r1 False
      by (intro exI [of _ es1]) (auto split: tres.splits option.splits)
  qed
qed

subsection \<open>Frames: what a stage may emit and consume\<close>

text \<open>
  A task obeys a frame if its events satisfy it, if it only takes messages from the
  front of the queue, and if the user's choice is left alone.
\<close>

definition obeys :: "(event \<Rightarrow> bool) \<Rightarrow> 'a rtc \<Rightarrow> bool" where
  "obeys P m \<longleftrightarrow> (\<forall>w r w'. m w = (r, w') \<longrightarrow>
     (\<exists>taken. rx w = taken @ rx w') \<and> choice w' = choice w \<and>
     (\<exists>es. adds es w w' \<and> (\<forall>e \<in> set es. P e)))"

named_theorems frame

lemma obeysD:
  assumes "obeys P m" "m w = (r, w')"
  obtains taken es where "rx w = taken @ rx w'" "choice w' = choice w" "adds es w w'" "\<forall>e \<in> set es. P e"
  using assms unfolding obeys_def by blast

lemma obeysI:
  assumes "\<And>w r w'. m w = (r, w') \<Longrightarrow> rx w' = rx w \<and> choice w' = choice w \<and>
     (\<exists>es. adds es w w' \<and> (\<forall>e \<in> set es. P e))"
  shows "obeys P m"
  unfolding obeys_def using assms by (metis append_Nil)

lemma obeys_silent [frame]: "obeys P (ret x)" "obeys P (fail e)" "obeys P panic" "obeys P (of_option e y)"
  by (rule obeysI; cases y; auto simp: ret_def fail_def panic_def of_option_def adds_def)+

lemma obeys_emit [frame]: "P e \<Longrightarrow> obeys P (emit e)"
  by (rule obeysI) (auto simp: emit_def adds_def)

lemma obeys_dc_send: "P e \<Longrightarrow> obeys P (dc_send e)"
  by (rule obeysI) (auto simp: dc_send_def emit_def adds_def split: list.splits option.splits)

lemma obeys_sends [frame]:
  "P (EvText s) \<Longrightarrow> obeys P (send_text s)" "P (EvBin b) \<Longrightarrow> obeys P (send_bin b)"
  "P (EvText ''0'') \<Longrightarrow> obeys P send_delimiter" "P (EvText (to_json_string W enc y)) \<Longrightarrow> obeys P (send_json W enc y)"
  "P EvDrained \<Longrightarrow> obeys P wait_buffer_empty"
  by (simp_all add: send_text_def send_bin_def send_delimiter_def send_json_def wait_buffer_empty_def
      obeys_dc_send obeys_emit)

lemma obeys_status [frame]: "P (EvStatus st) \<Longrightarrow> obeys P (send_status st)"
  by (rule obeysI) (auto simp: send_status_def emit_def adds_def split: if_splits)

lemma obeys_recv [frame]: "P EvClosed \<Longrightarrow> obeys P recv"
  unfolding obeys_def recv_def by (auto simp: adds_def split: list.splits)

lemma take_chunks_suffix: "take_chunks b ms = (r, rest) \<Longrightarrow> \<exists>taken. ms = taken @ rest"
proof (induction b ms rule: take_chunks.induct)
  case (2 b m ms)
  show ?case
  proof (cases "dm_is_string m")
    case True
    then show ?thesis using "2.prems" by (intro exI [of _ "[m]"]) simp
  next
    case False
    then obtain taken where "ms = taken @ rest" using 2 by auto
    then show ?thesis by (intro exI [of _ "m # taken"]) simp
  qed
qed simp

lemma obeys_receive_string [frame]: "P EvClosed \<Longrightarrow> obeys P receive_string_from_chunks"
  unfolding obeys_def receive_string_from_chunks_def
  by (auto simp: adds_def Let_def take_chunks_suffix split: prod.splits)

lemma obeys_tbind [frame]:
  assumes "obeys P m" "\<And>x. obeys P (f x)"
  shows "obeys P (tbind m f)"
  unfolding obeys_def
proof (intro allI impI)
  fix w r w' assume run: "tbind m f w = (r, w')"
  obtain r1 w1 where m: "m w = (r1, w1)" by fastforce
  from assms(1) m obtain t1 e1 where 1: "rx w = t1 @ rx w1" "choice w1 = choice w" "adds e1 w w1" "\<forall>e \<in> set e1. P e"
    by (rule obeysD)
  show "(\<exists>taken. rx w = taken @ rx w') \<and> choice w' = choice w \<and> (\<exists>es. adds es w w' \<and> (\<forall>e \<in> set es. P e))"
  proof (cases r1)
    case (Ok x)
    then have "f x w1 = (r, w')" using run m by (simp add: tbind_def)
    with assms(2) obtain t2 e2 where 2: "rx w1 = t2 @ rx w'" "choice w' = choice w1" "adds e2 w1 w'" "\<forall>e \<in> set e2. P e"
      by (rule obeysD)
    with 1 show ?thesis by (intro conjI exI [of _ "t1 @ t2"] exI [of _ "e1 @ e2"]) (auto intro: adds_trans)
  qed (use run m 1 in \<open>auto simp: tbind_def\<close>)
qed

lemma obeys_context [frame]: "obeys P m \<Longrightarrow> obeys P (context_err s m)"
  unfolding obeys_def context_err_def by (auto split: prod.splits tres.splits)

lemma obeys_ignore [frame]: "obeys P m \<Longrightarrow> obeys P (ignore m)"
  unfolding obeys_def ignore_def by (auto split: prod.splits tres.splits)

lemma obeys_within_limit [frame]:
  assumes "obeys P m"
  shows "obeys P (within_limit m)"
  unfolding obeys_def
proof (intro allI impI)
  fix w r w' assume run: "within_limit m w = (r, w')"
  have framed: "(\<exists>taken. rx v = taken @ rx v') \<and> choice v' = choice v \<and> (\<exists>es. adds es v v' \<and> (\<forall>e \<in> set es. P e))"
    if "ignore m v = (x, v')" for v x v'
    using obeys_ignore [OF assms] that unfolding obeys_def by blast
  show "(\<exists>taken. rx w = taken @ rx w') \<and> choice w' = choice w \<and> (\<exists>es. adds es w w' \<and> (\<forall>e \<in> set es. P e))"
  proof (cases "time_limits w")
    case Nil
    then show ?thesis using run framed by (simp add: within_limit_def)
  next
    case (Cons l ls)
    obtain x v where v: "ignore m (w\<lparr>time_limits := ls\<rparr>) = (x, v)" by fastforce
    from framed [OF this] obtain taken es where es: "rx w = taken @ rx v" "choice v = choice w" "trace v = trace w @ es"
      "\<forall>e \<in> set es. P e" by (auto simp: adds_def)
    obtain n where "rx w' = rx v" "choice w' = choice v" "trace w' = trace w @ take n es"
    proof (cases l)
      case None
      then show ?thesis using run v es that [of "length es"] Cons by (simp add: within_limit_def)
    next
      case (Some k)
      then show ?thesis using run v es that [of k] Cons by (auto simp: within_limit_def)
    qed
    then show ?thesis using es by (auto simp: adds_def dest: in_set_takeD intro!: exI [of _ "take n es"])
  qed
qed

lemma obeys_run_each [frame]: "(\<And>c. obeys P (f c)) \<Longrightarrow> obeys P (run_each f cs)"
  by (induction cs) (auto intro: frame)

lemma obeys_send_string [frame]: "(\<And>c. obeys P (f c)) \<Longrightarrow> obeys P (send_string_in_chunks f s)"
  using obeys_run_each [of P f "chunk_list CHUNK_SIZE s"] by (simp add: obeys_def send_string_run)

lemma obeys_if [frame]: "(b \<Longrightarrow> obeys P m) \<Longrightarrow> (\<not> b \<Longrightarrow> obeys P n) \<Longrightarrow> obeys P (if b then m else n)"
  by simp

lemma obeys_option [frame]:
  "obeys P m \<Longrightarrow> (\<And>x. obeys P (f x)) \<Longrightarrow> obeys P (case y of None \<Rightarrow> m | Some x \<Rightarrow> f x)"
  by (simp split: option.split)

lemma obeys_parse [frame]: "obeys P (parse_json W d b)"
  by (simp add: parse_json_def frame)

lemma obeys_verified [frame]: "obeys P (verified b)"
  by (simp add: verified_def frame split: outcome.split)

lemma obeys_mono: "obeys P m \<Longrightarrow> (\<And>e. P e \<Longrightarrow> Q e) \<Longrightarrow> obeys Q m"
  unfolding obeys_def by blast

subsection \<open>Nothing but handshake messages before \<open>Connected\<close>\<close>

definition early :: "event \<Rightarrow> bool" where
  "early e = (case e of
     EvText _ \<Rightarrow> True | EvBin _ \<Rightarrow> True | EvDrained \<Rightarrow> True | EvClosed \<Rightarrow> True | EvPinRequest \<Rightarrow> True
   | EvStatus st \<Rightarrow> st \<noteq> Connected | _ \<Rightarrow> False)"

lemma early_simps [simp]:
  "early (EvText s)" "early (EvBin b)" "early EvDrained" "early EvClosed" "early EvPinRequest"
  "early (EvStatus st) = (st \<noteq> Connected)"
  by (simp_all add: early_def)

lemma obeys_recv_string [frame]: "P EvClosed \<Longrightarrow> obeys P (recv_string c)"
  unfolding recv_string_def by (intro frame)

lemma obeys_receive_nonce [frame]: "P EvClosed \<Longrightarrow> obeys P (receive_nonce W)"
  unfolding receive_nonce_def by (intro frame)

lemma obeys_make_token [frame]: "obeys P (make_token W C Q n)"
  unfolding make_token_def by (intro frame)

lemma obeys_send_nonce [frame]: "obeys early (send_nonce W n)"
  unfolding send_nonce_def by (intro frame) simp

lemma obeys_handle_pin_loop: "obeys early (handle_pin_loop W c parse answers)"
proof (induction answers)
  case Nil
  show ?case by (auto intro!: frame)
next
  case (Cons a as)
  have "obeys early (case parse data of ChalOk result \<Rightarrow> ret result
      | ChalPinRequired \<Rightarrow> handle_pin_loop W c parse as
      | ChalTooManyAttempts \<Rightarrow>
          tbind (send_status StatusTooManyAttempts) (\<lambda>_. fail (Msg ''Too many requests''))
      | ChalParseError e \<Rightarrow> fail e)" for data
    using Cons by (auto intro!: frame split: challenge_pin_result.split)
  moreover have "obeys early (receive_pin_response c)"
    unfolding receive_pin_response_def by (intro frame) simp_all
  ultimately show ?case by (cases a) (auto intro!: frame)
qed

lemma obeys_handle_pin [frame]: "obeys early (handle_pin W c parse)"
  using obeys_handle_pin_loop unfolding obeys_def handle_pin_def by blast

lemma obeys_recv_pin [frame]: "P EvClosed \<Longrightarrow> obeys P (recv_pin W)"
  unfolding recv_pin_def by (intro frame)

lemma obeys_verify_pin_loop:
  assumes "\<And>r. obeys early (sr r)"
  shows "obeys early (verify_pin_loop W cfg sr n rp pt)"
proof (induction W cfg sr \<equiv> sr n rp pt rule: verify_pin_loop.induct)
  case (1 W cfg n rp pt)
  show ?case
    by (subst verify_pin_loop.simps) (auto intro!: frame 1 assms)
qed

lemma obeys_notices [frame]: "obeys early (receiver_notice W r)" "obeys early (sender_notice W r)"
  unfolding receiver_notice_def sender_notice_def by (auto intro!: frame)

lemma obeys_verify_pin [frame]: "(\<And>r. obeys early (sr r)) \<Longrightarrow> obeys early (verify_pin W cfg n sr)"
  unfolding verify_pin_def by (auto intro!: frame obeys_verify_pin_loop)

lemma obeys_offer_stages [frame]:
  "obeys early (offer_nonce W P)" "obeys early (offer_token W C P n)"
  "obeys early (offer_answer_pin W b)" "obeys early (offer_verify_pin W P)"
  unfolding offer_nonce_def offer_token_def check_expected_def offer_answer_pin_def offer_verify_pin_def Let_def
  by (auto intro!: frame split: rtc_token_response.split)

lemma obeys_accept_stages [frame]:
  "obeys early (accept_nonce W P)" "obeys early (accept_token W C P n)"
  "obeys early (accept_verify_pin W P)" "obeys early (accept_file_list W)"
  unfolding accept_nonce_def accept_token_def accept_verify_pin_def accept_file_list_def Let_def
  by (auto intro!: frame split: rtc_pin_sending_response.split)

subsection \<open>What a completed handshake has checked\<close>

definition peer_verified :: "wire \<Rightarrow> crypto \<Rightarrow> rtc_params \<Rightarrow> bytes \<Rightarrow> string \<Rightarrow> bool" where
  "peer_verified W C P nonce token =
     (case rp_expecting_public_key P of None \<Rightarrow> True | Some k \<Rightarrow> verify_token_nonce W C k token nonce = Done True)"

text \<open>
  The stronger form over what has arrived: a message carries a token that verifies with
  the expected key and the nonce. Where the token is in a message depends on the side.
\<close>

definition request_token :: "wire \<Rightarrow> dc_msg \<Rightarrow> string option" where
  "request_token W m = map_option tr_token (from_json_slice W dec_rtc_token_request (dm_data m))"

definition response_token :: "wire \<Rightarrow> dc_msg \<Rightarrow> string option" where
  "response_token W m =
     (case from_json_slice W dec_rtc_token_response (dm_data m) of
        Some (TokenOk t) \<Rightarrow> Some t | Some (TokenPinRequired t) \<Rightarrow> Some t | _ \<Rightarrow> None)"

definition token_checked ::
    "(dc_msg \<Rightarrow> string option) \<Rightarrow> wire \<Rightarrow> crypto \<Rightarrow> rtc_params \<Rightarrow> bytes \<Rightarrow> dc_msg list \<Rightarrow> bool" where
  "token_checked token_in W C P nonce ms =
     (case rp_expecting_public_key P of
        None \<Rightarrow> True
      | Some k \<Rightarrow> \<exists>m \<in> set ms. \<exists>t. token_in m = Some t \<and> verify_token_nonce W C k t nonce = Done True)"

lemma token_checked_mono: "token_checked f W C P n ms \<Longrightarrow> set ms \<subseteq> set ms' \<Longrightarrow> token_checked f W C P n ms'"
  by (auto simp: token_checked_def split: option.splits)

lemma recv_string_Ok: "recv_string c w = (Ok d, w') \<Longrightarrow> \<exists>m \<in> set (rx w). dm_data m = d"
  by (auto simp: recv_string_def recv_def fail_def ret_def elim!: tbind_OkE split: list.splits option.splits if_splits)

lemma parse_json_Ok: "parse_json W d b w = (Ok x, w') \<Longrightarrow> from_json_slice W d b = Some x \<and> w' = w"
  by (auto simp: parse_json_def of_option_def fail_def ret_def split: option.splits)

definition pin_verified :: "wire \<Rightarrow> rtc_params \<Rightarrow> dc_msg list \<Rightarrow> bool" where
  "pin_verified W P ms =
     (case rp_pin P of None \<Rightarrow> True | Some cfg \<Rightarrow> pc_pin cfg = [] \<or> (\<exists>m \<in> set ms. right_pin W cfg m))"

lemma verify_pin_checked:
  assumes "verify_pin W cfg n sr w = (Ok (), w')" "\<And>r. keeps_rx (sr r)"
  shows "pc_pin cfg = [] \<or> (\<exists>m \<in> set (rx w). right_pin W cfg m)"
  using verify_pin_safe [OF assms(2,1)] by (metis in_set_takeD)

lemma verified_Ok: "verified r w = (Ok b, w') \<Longrightarrow> r = Done b \<and> w' = w"
  by (auto simp: verified_def ret_def panic_def split: outcome.splits)

lemma check_expected_Ok:
  "check_expected W C e token nonce w = (Ok (), w') \<Longrightarrow>
   (case e of None \<Rightarrow> True | Some k \<Rightarrow> verify_token_nonce W C k token nonce = Done True)"
  by (auto simp: check_expected_def fail_def elim!: tbind_OkE dest!: verified_Ok split: option.splits if_splits)

lemma offer_token_Ok:
  "offer_token W C P nonce w = (Ok (b, token), w') \<Longrightarrow> peer_verified W C P nonce token"
  unfolding offer_token_def peer_verified_def
  by (auto elim!: tbind_OkE split: rtc_token_response.splits simp: ret_def fail_def dest!: check_expected_Ok)

lemma offer_token_checked:
  assumes "offer_token W C P nonce w = (Ok x, w')"
  shows "token_checked (response_token W) W C P nonce (rx w)"
proof -
  from assms obtain t w1 w2 d w3 r w4 where "send_json W enc_rtc_token_request \<lparr>tr_token = t\<rparr> w1 = (Ok (), w2)"
    and own: "make_token W C P nonce w = (Ok t, w1)"
    and d: "recv_string ''Failed to receive token response'' w2 = (Ok d, w3)"
    and r: "parse_json W dec_rtc_token_response d w3 = (Ok r, w4)"
    and rest: "(case r of
       TokenOk token \<Rightarrow>
         tbind (check_expected W C (rp_expecting_public_key P) token nonce) (\<lambda>_. ret (False, token))
     | TokenPinRequired token \<Rightarrow>
         tbind (check_expected W C (rp_expecting_public_key P) token nonce) (\<lambda>_. ret (True, token))
     | TokenInvalidSignature \<Rightarrow> fail (Msg ''Invalid token signature from receiving peer'')) w4 = (Ok x, w')"
    unfolding offer_token_def by (auto elim!: tbind_OkE dest!: context_err_OkE)
  then have "rx w2 = rx w1" by (blast intro: keeps_rxD [OF keeps_basic(10)])
  moreover have "rx w1 = rx w"
    using own by (auto simp: make_token_def of_option_def ret_def fail_def split: option.splits)
  ultimately obtain m where m: "m \<in> set (rx w)" "dm_data m = d" using recv_string_Ok [OF d] by auto
  have r': "from_json_slice W dec_rtc_token_response (dm_data m) = Some r" using parse_json_Ok [OF r] m by simp
  have "\<exists>t. response_token W m = Some t \<and>
      (case rp_expecting_public_key P of None \<Rightarrow> True | Some k \<Rightarrow> verify_token_nonce W C k t nonce = Done True)"
    using rest r' by (cases r) (auto simp: response_token_def fail_def elim!: tbind_OkE dest!: check_expected_Ok)
  then show ?thesis using m(1) unfolding token_checked_def by (auto split: option.splits)
qed

lemma offer_nonce_Ok: "offer_nonce W P w = (Ok nonce, w') \<Longrightarrow> \<exists>rn. nonce = local_nonce_of P @ rn \<and> validate_nonce rn"
  unfolding offer_nonce_def receive_nonce_def Let_def
  by (auto elim!: tbind_OkE simp: ret_def fail_def split: if_splits)

lemma offer_handshake_Ok:
  assumes "offer_handshake W C P w = (Ok (nonce, token), w')"
  shows "\<exists>rn. nonce = local_nonce_of P @ rn \<and> validate_nonce rn"
    and "peer_verified W C P nonce token" and "pin_verified W P (rx w)"
    and "EvStatus Connected \<in> set (trace w')"
    and "token_checked (response_token W) W C P nonce (rx w)"
proof -
  from assms obtain w1 b w2 w3 w4 where n: "offer_nonce W P w = (Ok nonce, w1)"
    and t: "offer_token W C P nonce w1 = (Ok (b, token), w2)"
    and a: "offer_answer_pin W b w2 = (Ok (), w3)"
    and v: "offer_verify_pin W P w3 = (Ok (), w4)"
    and c: "send_status Connected w4 = (Ok (), w')"
    unfolding offer_handshake_def by (auto elim!: tbind_OkE simp: ret_def)
  show "\<exists>rn. nonce = local_nonce_of P @ rn \<and> validate_nonce rn" using n by (rule offer_nonce_Ok)
  show "peer_verified W C P nonce token" using t by (rule offer_token_Ok)
  show "EvStatus Connected \<in> set (trace w')" using c by (auto simp: send_status_def emit_def split: if_splits)
  obtain t1 where r1: "rx w = t1 @ rx w1" using n obeys_offer_stages(1) by (blast elim: obeysD)
  then show "token_checked (response_token W) W C P nonce (rx w)"
    by (intro token_checked_mono [OF offer_token_checked [OF t]]) auto
  note r1 moreover obtain t2 where "rx w1 = t2 @ rx w2" using t obeys_offer_stages(2) by (blast elim: obeysD)
  moreover obtain t3 where "rx w2 = t3 @ rx w3" using a obeys_offer_stages(3) by (blast elim: obeysD)
  ultimately have sub: "set (rx w3) \<subseteq> set (rx w)" by auto
  show "pin_verified W P (rx w)"
    using v sub keeps_notice(2) unfolding pin_verified_def offer_verify_pin_def
    by (auto split: option.splits dest!: verify_pin_checked)
qed

lemma accept_token_Ok:
  assumes "accept_token W C P nonce w = (Ok (), w')"
  shows "token_checked (request_token W) W C P nonce (rx w)"
proof (cases "rp_expecting_public_key P")
  case None
  then show ?thesis by (simp add: token_checked_def)
next
  case (Some key)
  from assms Some obtain d w1 req w2 where d: "recv_string ''Failed to receive token'' w = (Ok d, w1)"
    and req: "parse_json W dec_rtc_token_request d w1 = (Ok req, w2)"
    and valid: "verify_token_nonce W C key (tr_token req) nonce = Done True"
    unfolding accept_token_def by (auto elim!: tbind_OkE simp: fail_def dest!: verified_Ok split: if_splits)
  obtain m where "m \<in> set (rx w)" "dm_data m = d" using recv_string_Ok [OF d] by blast
  then show ?thesis
    using Some parse_json_Ok [OF req] valid by (force simp: token_checked_def request_token_def)
qed

lemma accept_nonce_Ok: "accept_nonce W P w = (Ok nonce, w') \<Longrightarrow> \<exists>rn. nonce = rn @ local_nonce_of P \<and> validate_nonce rn"
  unfolding accept_nonce_def receive_nonce_def Let_def
  by (auto elim!: tbind_OkE simp: ret_def fail_def split: if_splits)

lemma accept_handshake_Ok:
  assumes "accept_handshake W C P w = (Ok (nonce, files), w')"
  shows "\<exists>rn. nonce = rn @ local_nonce_of P \<and> validate_nonce rn"
    and "token_checked (request_token W) W C P nonce (rx w)" and "pin_verified W P (rx w)"
proof -
  from assms obtain w1 w2 w3 w4 where n: "accept_nonce W P w = (Ok nonce, w1)"
    and t: "accept_token W C P nonce w1 = (Ok (), w2)"
    and v: "accept_verify_pin W P w2 = (Ok (), w3)"
    and a: "accept_file_list W w3 = (Ok files, w4)"
    unfolding accept_handshake_def by (auto elim!: tbind_OkE simp: ret_def)
  show "\<exists>rn. nonce = rn @ local_nonce_of P \<and> validate_nonce rn" using n by (rule accept_nonce_Ok)
  obtain t1 where r1: "rx w = t1 @ rx w1" using n obeys_accept_stages(1) by (blast elim: obeysD)
  then show "token_checked (request_token W) W C P nonce (rx w)"
    by (intro token_checked_mono [OF accept_token_Ok [OF t]]) auto
  note r1 moreover obtain t2 where "rx w1 = t2 @ rx w2" using t obeys_accept_stages(2) by (blast elim: obeysD)
  ultimately have sub: "set (rx w2) \<subseteq> set (rx w)" by auto
  show "pin_verified W P (rx w)"
    using v sub keeps_notice(1) unfolding pin_verified_def accept_verify_pin_def
    by (auto split: option.splits elim!: tbind_OkE dest!: verify_pin_checked) blast
qed

subsection \<open>A handshake that does not complete\<close>

lemma guarded_connected:
  assumes "obeys early pre"
    and "tbind pre (\<lambda>x. tbind (send_status Connected) (\<lambda>_. ret (f x))) w = (r, w')"
    and "\<And>x. r \<noteq> Ok x"
  shows "\<exists>es. adds es w w' \<and> (\<forall>e \<in> set es. early e)"
proof -
  obtain r1 w1 where p: "pre w = (r1, w1)" by fastforce
  with assms(1) obtain es where es: "adds es w w1" "\<forall>e \<in> set es. early e" by (rule obeysD)
  have "w' = w1"
  proof (cases r1)
    case (Ok x)
    then show ?thesis using assms(2) assms(3) [of "f x"] p
      by (simp add: tbind_def send_status_def emit_def ret_def split: if_splits)
  qed (use assms(2) p in \<open>simp_all add: tbind_def\<close>)
  then show ?thesis using es by blast
qed

lemma offer_handshake_early:
  assumes "offer_handshake W C P w = (r, w')" "\<And>x. r \<noteq> Ok x"
  shows "\<exists>es. adds es w w' \<and> (\<forall>e \<in> set es. early e)"
proof -
  let ?pre = "tbind (offer_nonce W P) (\<lambda>nonce. tbind (offer_token W C P nonce) (\<lambda>(pin_required, remote_token).
     tbind (offer_answer_pin W pin_required) (\<lambda>_. tbind (offer_verify_pin W P) (\<lambda>_. ret (nonce, remote_token)))))"
  have o: "obeys early ?pre" by (auto intro!: frame split: prod.split)
  have e: "offer_handshake W C P = tbind ?pre (\<lambda>x. tbind (send_status Connected) (\<lambda>_. ret (id x)))"
    by (simp add: offer_handshake_def tbind_assoc tbind_ret case_prod_unfold)
  show ?thesis by (rule guarded_connected [OF o assms(1) [unfolded e] assms(2)])
qed

lemma accept_handshake_early:
  assumes "accept_handshake W C P w = (r, w')" "\<And>x. r \<noteq> Ok x"
  shows "\<exists>es. adds es w w' \<and> (\<forall>e \<in> set es. early e)"
proof -
  let ?pre = "tbind (accept_nonce W P) (\<lambda>nonce. tbind (accept_token W C P nonce) (\<lambda>_.
     tbind (accept_verify_pin W P) (\<lambda>_. tbind (accept_file_list W) (\<lambda>files. ret (nonce, files)))))"
  have o: "obeys early ?pre" by (auto intro!: frame)
  have e: "accept_handshake W C P = tbind ?pre (\<lambda>x. tbind (send_status Connected) (\<lambda>_. ret (id x)))"
    by (simp add: accept_handshake_def tbind_assoc tbind_ret)
  show ?thesis by (rule guarded_connected [OF o assms(1) [unfolded e] assms(2)])
qed

lemma obeys_catch [frame]:
  assumes "obeys P m" "\<And>e. obeys P (h e)" "\<And>x. obeys P (f x)"
  shows "obeys P (catch_err m h f)"
  unfolding obeys_def
proof (intro allI impI)
  fix w r w' assume run: "catch_err m h f w = (r, w')"
  obtain r1 w1 where m: "m w = (r1, w1)" by fastforce
  from assms(1) m obtain t1 e1 where 1: "rx w = t1 @ rx w1" "choice w1 = choice w" "adds e1 w w1" "\<forall>e \<in> set e1. P e"
    by (rule obeysD)
  have seq: "(\<exists>taken. rx w = taken @ rx w') \<and> choice w' = choice w \<and> (\<exists>es. adds es w w' \<and> (\<forall>e \<in> set es. P e))"
    if "obeys P n" "n w1 = (r, w')" for n :: "'b rtc"
  proof -
    from that obtain t2 e2 where 2: "rx w1 = t2 @ rx w'" "choice w' = choice w1" "adds e2 w1 w'" "\<forall>e \<in> set e2. P e"
      by (rule obeysD)
    with 1 show ?thesis by (intro conjI exI [of _ "t1 @ t2"] exI [of _ "e1 @ e2"]) (auto intro: adds_trans)
  qed
  show "(\<exists>taken. rx w = taken @ rx w') \<and> choice w' = choice w \<and> (\<exists>es. adds es w w' \<and> (\<forall>e \<in> set es. P e))"
  proof (cases r1)
    case (Ok x)
    then show ?thesis using run m by (intro seq [OF assms(3) [of x]]) (simp add: catch_err_def)
  next
    case (Err e)
    then show ?thesis using run m by (intro seq [OF assms(2) [of e]]) (simp add: catch_err_def)
  next
    case Panic
    then have "w' = w1" using run m by (simp add: catch_err_def)
    then show ?thesis using 1 by blast
  qed
qed

lemma obeys_and_then [frame]: "obeys P m \<Longrightarrow> (\<And>x. obeys P (f x)) \<Longrightarrow> obeys P (and_then m f)"
  unfolding and_then_def by (auto intro!: frame split: stage.split)

lemma obeys_process [frame]: "(\<And>c. obeys P (f c)) \<Longrightarrow> obeys P (process_in_chunks f bs)"
  using obeys_run_each [of P f "chunk_list CHUNK_SIZE (concat bs)"] by (simp add: obeys_def process_in_chunks_run)

text \<open>The stages after the handshake, in the weakest frame: they only extend the trace.\<close>

abbreviation any_event :: "event \<Rightarrow> bool" where
  "any_event \<equiv> (\<lambda>_. True)"

lemma obeys_send_files [frame]: "obeys any_event (send_files W fm msgs)"
  by (induction msgs) (auto simp: send_file_def file_error_def Let_def intro!: frame split: option.split)

lemma obeys_later [frame]:
  "obeys any_event (offer_files W files)" "obeys any_event (receive_file_list W)"
  "obeys any_event ask_pair" "obeys any_event (publish_selection fm)"
  "obeys any_event (send_outgoing W fm)" "obeys any_event finish_sending"
  subgoal unfolding offer_files_def report_list_failure_def by (auto intro!: frame)
  subgoal unfolding receive_file_list_def by (auto intro!: frame)
  subgoal by (rule obeysI) (auto simp: ask_pair_def tbind_def fail_def ret_def emit_def adds_def split: pair_answer.splits)
  subgoal by (rule obeysI) (auto simp: publish_selection_def fail_def emit_def adds_def split: if_splits)
  subgoal using obeys_send_files unfolding obeys_def send_outgoing_def by blast
  subgoal unfolding finish_sending_def by (auto intro!: frame)
  done

lemma obeys_selection [frame]: "obeys any_event (offer_selection W C t n)"
  unfolding offer_selection_def offer_pair_def stop_declined_def list_error_def
  by (auto intro!: frame split: rtc_file_list_response.split)

text \<open>The sender: no \<open>Connected\<close>, and the run does not depend on the files.\<close>

definition offer_rest :: "wire \<Rightarrow> crypto \<Rightarrow> file_dto list \<Rightarrow> bytes \<times> string \<Rightarrow> unit stage rtc" where
  "offer_rest W C files x =
     tbind (offer_files W files) (\<lambda>_.
     and_then (offer_selection W C (snd x) (fst x)) (\<lambda>file_map.
     tbind (publish_selection file_map) (\<lambda>_.
     tbind (send_outgoing W file_map) (\<lambda>_. finish_sending))))"

lemma offer_task_split:
  "offer_task W C P files =
     tbind wait_buffer_empty (\<lambda>_. tbind (offer_handshake W C P) (offer_rest W C files))"
  by (simp add: offer_task_def offer_rest_def [abs_def] case_prod_unfold)

lemma offer_task_connected:
  assumes "offer_task W C P files w = (r, w')"
  obtains (early) es where "adds es w w'" "\<forall>e \<in> set es. early e" "\<And>files'. offer_task W C P files' w = (r, w')"
  | (connected) nonce token w0 w1 where "rx w0 = rx w" "offer_handshake W C P w0 = (Ok (nonce, token), w1)"
      "EvStatus Connected \<in> set (trace w')"
proof -
  let ?w0 = "w\<lparr>trace := trace w @ [EvDrained]\<rparr>"
  have d: "wait_buffer_empty w = (Ok (), ?w0)" by (simp add: wait_buffer_empty_def emit_def)
  obtain r1 w1 where h: "offer_handshake W C P ?w0 = (r1, w1)" by fastforce
  show ?thesis
  proof (cases r1)
    case (Ok x)
    obtain nonce token where x: "x = (nonce, token)" by fastforce
    have c: "EvStatus Connected \<in> set (trace w1)" using h Ok x by (blast dest: offer_handshake_Ok(4))
    have run: "offer_rest W C files x w1 = (r, w')"
      using assms d h Ok by (simp add: offer_task_split tbind_def)
    have "obeys any_event (offer_rest W C files x)" unfolding offer_rest_def by (intro frame)
    then obtain es where "adds es w1 w'" using run by (rule obeysD)
    then have "EvStatus Connected \<in> set (trace w')" using c by (simp add: adds_def)
    then show ?thesis using h Ok x by (intro connected [of ?w0]) auto
  next
    case (Err e)
    with offer_handshake_early [OF h] obtain es where es: "adds es ?w0 w1" "\<forall>e \<in> set es. early e" by blast
    have "offer_task W C P files' w = (Err e, w1)" for files'
      using d h Err by (simp add: offer_task_split tbind_def)
    then show ?thesis using es assms by (intro early [of "EvDrained # es"]) (auto simp: adds_def)
  next
    case Panic
    with offer_handshake_early [OF h] obtain es where es: "adds es ?w0 w1" "\<forall>e \<in> set es. early e" by blast
    have "offer_task W C P files' w = (Panic, w1)" for files'
      using d h Panic by (simp add: offer_task_split tbind_def)
    then show ?thesis using es assms by (intro early [of "EvDrained # es"]) (auto simp: adds_def)
  qed
qed

subsection \<open>The receiver\<close>

lemma file_tokens_chosen: "hm_get (file_tokens_of nt ids) i \<noteq> None \<Longrightarrow> i \<in> set ids"
proof -
  have "hm_get (fold (\<lambda>(k, v). hm_insert k v) kvs m) i \<noteq> None \<Longrightarrow> i \<in> fst ` set kvs \<or> hm_get m i \<noteq> None"
    for kvs and m :: "(string, string) hashmap"
  proof (induction kvs arbitrary: m)
    case (Cons kv kvs)
    then show ?case by (cases kv) (fastforce simp: hm.get_ins split: if_splits)
  qed simp
  moreover have "fst ` set (zip ids ts) \<subseteq> set ids" for ts :: "string list"
    by (auto dest: set_zip_leftD)
  ultimately show "hm_get (file_tokens_of nt ids) i \<noteq> None \<Longrightarrow> i \<in> set ids"
    unfolding file_tokens_of_def hm_collect_def by (force simp: hm.get_emp)
qed

lemma find_size_listed: "find_size files i \<noteq> None \<Longrightarrow> i \<in> fd_id ` set files"
  by (auto simp: find_size_def find_Some_iff)

lemma early_quiet: "\<forall>e \<in> set es. early e \<Longrightarrow> quiet es"
  unfolding quiet_def opened_def
proof (induction es)
  case (Cons e es)
  then show ?case by (cases e) (auto simp: early_def)
qed simp

definition no_stream :: "event \<Rightarrow> bool" where
  "no_stream e = (case e of EvReceiving _ \<Rightarrow> False | EvChunk _ _ \<Rightarrow> False | EvFileClosed _ \<Rightarrow> False | _ \<Rightarrow> True)"

lemma no_stream_quiet: "\<forall>e \<in> set es. no_stream e \<Longrightarrow> quiet es"
  unfolding quiet_def opened_def
proof (induction es)
  case (Cons e es)
  then show ?case by (cases e) (auto simp: no_stream_def)
qed simp

lemma quiet_append [simp]: "quiet xs \<Longrightarrow> quiet ys \<Longrightarrow> quiet (xs @ ys)"
  by (auto simp: quiet_def stream_end_append opened_def)

lemma quiet_stream: "quiet xs \<Longrightarrow> stream_end c (xs @ ys) = stream_end c ys \<and> opened (xs @ ys) = opened ys"
  by (auto simp: quiet_def stream_end_append opened_def)

lemma obeys_accept_selection: "obeys no_stream (accept_selection W nt files)"
proof -
  have "obeys no_stream (send_file_list W r)" for r
    unfolding send_file_list_def by (auto intro!: frame simp: no_stream_def)
  then have "obeys no_stream (tbind (send_file_list W r) (\<lambda>_. ret x))" for r and x :: "(string, string) hashmap stage"
    by (intro frame)
  then show ?thesis
    unfolding obeys_def accept_selection_def
    by (auto simp: ret_def Let_def adds_def split: selection.splits)
qed

lemma accept_selection_Go:
  "accept_selection W nt files w = (Ok (Go tokens), w') \<Longrightarrow>
   \<exists>ids. choice w files = SelectionFiles ids \<and> tokens = file_tokens_of nt ids"
  by (auto simp: accept_selection_def ret_def Let_def split: selection.splits elim!: tbind_OkE)

lemma accept_handshake_frame:
  assumes "accept_handshake W C P w = (r, w')"
  obtains es where "adds es w w'" "quiet es" "choice w' = choice w" "\<forall>e \<in> set es. early e \<or> e = EvStatus Connected"
proof -
  have "obeys (\<lambda>e. early e \<or> e = EvStatus Connected) (accept_handshake W C P)"
    unfolding accept_handshake_def
    by (auto intro!: frame intro: obeys_mono [OF obeys_accept_stages(1)] obeys_mono [OF obeys_accept_stages(2)]
        obeys_mono [OF obeys_accept_stages(3)] obeys_mono [OF obeys_accept_stages(4)])
  then obtain es where es: "adds es w w'" "choice w' = choice w" "\<forall>e \<in> set es. early e \<or> e = EvStatus Connected"
    using assms by (rule obeysD)
  moreover have "quiet es" using es(3) by (intro no_stream_quiet) (auto simp: early_def no_stream_def split: event.splits)
  ultimately show ?thesis using that by blast
qed

lemma accept_task_safe:
  assumes run: "accept_task W C P nt w = (r, w')"
  obtains es where "adds es w w'" "stream_end None es \<noteq> None" "r = Ok (Go ()) \<Longrightarrow> stream_end None es = Some None"
    "\<And>fs. EvFiles fs \<in> set es \<Longrightarrow> (\<exists>rn. validate_nonce rn \<and> token_checked (request_token W) W C P (rn @ local_nonce_of P) (rx w)) \<and>
        pin_verified W P (rx w)"
    "\<And>i. i \<in> opened es \<Longrightarrow> \<exists>ids files. choice w files = SelectionFiles ids \<and> i \<in> set ids \<and>
        EvFiles files \<in> set es \<and> i \<in> fd_id ` set files"
proof -
  note final = that
  obtain r1 w1 where h: "accept_handshake W C P w = (r1, w1)" by fastforce
  then obtain es1 where es1: "adds es1 w w1" "quiet es1" "choice w1 = choice w"
    "\<forall>e \<in> set es1. early e \<or> e = EvStatus Connected" by (rule accept_handshake_frame)
  have nofiles: "EvFiles fs \<notin> set es1" for fs using es1(4) by (auto simp: early_def)
  have stopped: thesis if "w' = w1" "r \<noteq> Ok (Go ())"
    using es1 that nofiles by (intro final [of es1]) (auto simp: quiet_def)
  show thesis
  proof (cases "\<exists>x. r1 = Ok x \<and> files_open w1")
    case False
    then show thesis using run h
      by (intro stopped; cases r1)
        (auto simp: accept_task_def tbind_def publish_files_def fail_def split: prod.splits)
  next
    case True
    then obtain nonce files where ok: "r1 = Ok (nonce, files)" and opn: "files_open w1" by auto
    let ?w2 = "w1\<lparr>trace := trace w1 @ [EvFiles files]\<rparr>"
    note checks = accept_handshake_Ok [OF h [unfolded ok]]
    have checked: "(\<exists>rn. validate_nonce rn \<and> token_checked (request_token W) W C P (rn @ local_nonce_of P) (rx w)) \<and>
        pin_verified W P (rx w)"
      using checks by blast
    obtain r3 w3 where sel: "accept_selection W nt files ?w2 = (r3, w3)" by fastforce
    with obeys_accept_selection obtain es3 where es3: "choice w3 = choice ?w2" "adds es3 ?w2 w3" "\<forall>e \<in> set es3. no_stream e"
      by (rule obeysD)
    let ?es = "es1 @ EvFiles files # es3"
    have pre: "adds ?es w w3" "quiet ?es"
      using es1 es3 no_stream_quiet [of "EvFiles files # es3"] by (simp_all add: adds_def no_stream_def)
    show thesis
    proof (cases "\<exists>tokens. r3 = Ok (Go tokens)")
      case False
      then have "w' = w3" "r \<noteq> Ok (Go ())"
        using run h ok opn sel
        by (auto simp: accept_task_def and_then_def tbind_def publish_files_def emit_def ret_def split: tres.splits stage.splits)
      then show thesis using pre checked by (intro final [of ?es]) (auto simp: quiet_def)
    next
      case True
      then obtain tokens where go: "r3 = Ok (Go tokens)" by blast
      from accept_selection_Go [OF sel [unfolded go]] obtain ids where
        ids: "choice w1 files = SelectionFiles ids" "tokens = file_tokens_of nt ids" by auto
      obtain r4 w4 where rec: "receive_files W tokens files w3 = (r4, w4)" by fastforce
      then obtain es4 where es4: "adds es4 w3 w4" "opened es4 \<subseteq> Collect (authorised tokens files)"
        "stream_end None es4 \<noteq> None" "r4 = Ok () \<longrightarrow> stream_end None es4 = Some None"
        using receive_loop_safe [of W tokens files None "rx w3" w3] by (auto simp: receive_files_def open_id_def)
      have w': "w' = w4" "r = Ok (Go ()) \<Longrightarrow> r4 = Ok ()"
        using run h ok opn sel go rec
        by (auto simp: accept_task_def and_then_def tbind_def publish_files_def emit_def ret_def split: tres.splits)
      show thesis
      proof (rule final [of "?es @ es4"])
        show "adds (?es @ es4) w w'" using pre es4 w' by (metis adds_trans)
        show "stream_end None (?es @ es4) \<noteq> None" using pre(2) es4 by (simp add: quiet_stream del: append_assoc)
        show "stream_end None (?es @ es4) = Some None" if "r = Ok (Go ())"
          using pre(2) es4 w' that by (simp add: quiet_stream del: append_assoc)
        show "(\<exists>rn. validate_nonce rn \<and> token_checked (request_token W) W C P (rn @ local_nonce_of P) (rx w)) \<and>
            pin_verified W P (rx w)" if "EvFiles fs \<in> set (?es @ es4)" for fs
          by (rule checked)
        show "\<exists>ids files. choice w files = SelectionFiles ids \<and> i \<in> set ids \<and> EvFiles files \<in> set (?es @ es4) \<and> i \<in> fd_id ` set files"
          if "i \<in> opened (?es @ es4)" for i
        proof -
          have "i \<in> opened es4" using that pre(2) by (simp add: quiet_stream del: append_assoc)
          then have "authorised tokens files i" using es4 by blast
          then have "i \<in> set ids" "i \<in> fd_id ` set files"
            using file_tokens_chosen find_size_listed ids unfolding authorised_def by blast+
          then show ?thesis using ids es1 by (intro exI [of _ ids] exI [of _ files]) simp
        qed
      qed
    qed
  qed
qed

end
