(* ===== verification/Rtc_Session.thy ===== *)
theory Rtc_Session
  imports Rtc_Safety
begin

section \<open>Two peers of one transfer\<close>

text \<open>
  The two tasks against each other on channels that fail nowhere. Each lemma gives the
  run of a stage: the messages it takes and the events it adds. At the end, the messages
  each task takes are the ones the other has sent.
\<close>

definition moved :: "rtc_world \<Rightarrow> dc_msg list \<Rightarrow> event list \<Rightarrow> rtc_world" where
  "moved w ms es = w\<lparr>rx := ms, trace := trace w @ es\<rparr>"

lemma moved_moved [simp]: "moved (moved w ms es) ms' es' = moved w ms' (es @ es')"
  by (simp add: moved_def)

lemma moved_sel [simp]:
  "rx (moved w ms es) = ms" "trace (moved w ms es) = trace w @ es" "healthy (moved w ms es) = healthy w"
  "pin_answers (moved w ms es) = pin_answers w" "choice (moved w ms es) = choice w"
  "outgoing (moved w ms es) = outgoing w" "file_results (moved w ms es) = file_results w"
  "selected_open (moved w ms es) = selected_open w" "files_open (moved w ms es) = files_open w"
  by (simp_all add: moved_def)

lemma moved_self: "rx w = ms \<Longrightarrow> w = moved w ms []"
  by (simp add: moved_def)

lemma emitted: "w\<lparr>trace := trace w @ es\<rparr> = moved w (rx w) es"
  by (simp add: moved_def)

lemma taken: "w\<lparr>rx := ms\<rparr> = moved w ms []"
  by (simp add: moved_def)

lemmas run = emitted taken task

lemma parses:
  assumes "wire_format W"
  shows "parse_json W dec_rtc_nonce_message (to_json_string W enc_rtc_nonce_message a) w = (Ok a, w)"
    and "parse_json W dec_rtc_token_request (to_json_string W enc_rtc_token_request b) w = (Ok b, w)"
    and "parse_json W dec_rtc_token_response (to_json_string W enc_rtc_token_response c) w = (Ok c, w)"
    and "parse_json W dec_rtc_pin_sending_response (to_json_string W enc_rtc_pin_sending_response d) w = (Ok d, w)"
    and "file_list_wf e \<Longrightarrow>
      parse_json W dec_rtc_file_list_response (to_json_string W enc_rtc_file_list_response e) w = (Ok e, w)"
    and "parse_json W dec_rtc_send_file_header_request
      (to_json_string W enc_rtc_send_file_header_request f) w = (Ok f, w)"
  by (rule parse_json_codec [OF assms],
      (rule dec_enc_rtc_nonce_message dec_enc_rtc_token_request dec_enc_rtc_token_response
        dec_enc_rtc_pin_sending_response dec_enc_rtc_send_file_header_request
      | erule dec_enc_rtc_file_list_response))+

subsection \<open>Handshake\<close>

definition nonce_ev :: "wire \<Rightarrow> rtc_params \<Rightarrow> event" where
  "nonce_ev W P = EvText (to_json_string W enc_rtc_nonce_message \<lparr>nm_nonce = b64_encode W (local_nonce_of P)\<rparr>)"

lemma send_nonce_run:
  "healthy w \<Longrightarrow> send_nonce W (local_nonce_of P) w = (Ok (), moved w (rx w) [nonce_ev W P])"
  by (simp add: send_nonce_def nonce_ev_def task moved_def)

lemma offer_nonce_run:
  assumes "wire_format W" "healthy w" "validate_nonce n" "rx w = nonce_msg W n # ms"
  shows "offer_nonce W P w = (Ok (local_nonce_of P @ n), moved w ms [nonce_ev W P])"
  using assms
  by (simp add: offer_nonce_def Let_def tbind_def send_nonce_run receive_nonce_run [where n = n and ms = ms] ret_def taken)

lemma accept_nonce_run:
  assumes "wire_format W" "healthy w" "validate_nonce n" "rx w = nonce_msg W n # ms"
  shows "accept_nonce W P w = (Ok (n @ local_nonce_of P), moved w ms [nonce_ev W P])"
  using assms
  by (simp add: accept_nonce_def Let_def tbind_def send_nonce_run receive_nonce_run [where n = n and ms = ms] ret_def taken)

definition token_ev :: "wire \<Rightarrow> string \<Rightarrow> event" where
  "token_ev W t = EvText (to_json_string W enc_rtc_token_request \<lparr>tr_token = t\<rparr>)"

definition token_reply :: "rtc_params \<Rightarrow> string \<Rightarrow> rtc_token_response" where
  "token_reply P t = (case rp_pin P of Some _ \<Rightarrow> TokenPinRequired t | None \<Rightarrow> TokenOk t)"

definition reply_ev :: "wire \<Rightarrow> rtc_params \<Rightarrow> string \<Rightarrow> event" where
  "reply_ev W P t = EvText (to_json_string W enc_rtc_token_response (token_reply P t))"

lemma check_expected_run:
  "peer_verified W C P nonce t \<Longrightarrow> check_expected W C (rp_expecting_public_key P) t nonce w = (Ok (), w)"
  by (auto simp: peer_verified_def check_expected_def verified_def tbind_def ret_def split: option.splits)

lemma offer_token_run:
  assumes "wire_format W" "healthy w" "peer_verified W C P nonce t'"
    and "generate_token_nonce W C (rp_signing_key P) nonce = Some t"
    and "rx w = json_msg W enc_rtc_token_response (token_reply P' t') # ms"
  shows "offer_token W C P nonce w = (Ok (rp_pin P' \<noteq> None, t'), moved w ms [token_ev W t])"
  using assms
  by (cases "rp_pin P'")
    (simp_all add: offer_token_def make_token_def task tbind_def token_reply_def check_expected_run token_ev_def
      parses moved_def)

lemma accept_token_run:
  assumes "wire_format W" "healthy w" "peer_verified W C P nonce t'"
    and "generate_token_nonce W C (rp_signing_key P) nonce = Some t"
    and "rx w = json_msg W enc_rtc_token_request \<lparr>tr_token = t'\<rparr> # ms"
  shows "accept_token W C P nonce w = (Ok (), moved w ms [reply_ev W P t])"
proof -
  have "tbind (verified (verify_token_nonce W C key t' nonce)) f w1 = f True w1"
    if "rp_expecting_public_key P = Some key" for key w1 and f :: "bool \<Rightarrow> unit rtc"
    using that assms(3) by (simp add: peer_verified_def verified_def tbind_def ret_def)
  then show ?thesis
    using assms
    by (cases "rp_expecting_public_key P"; cases "rp_pin P")
      (simp_all add: accept_token_def make_token_def task tbind_ret tbind_def [of "recv_string c" for c]
        tbind_def [of "parse_json W d b" for d b] token_reply_def reply_ev_def parses moved_def)
qed

subsection \<open>PIN challenges\<close>

text \<open>The PINs the user of one side enters when the other side poses the challenge \<open>cfg\<close>.\<close>

definition guesses :: "pin_config option \<Rightarrow> string list \<Rightarrow> string list" where
  "guesses cfg ps = (case cfg of None \<Rightarrow> [] | Some c \<Rightarrow> ps @ [pc_pin c])"

definition passes :: "pin_config option \<Rightarrow> string list \<Rightarrow> pin_answer list \<Rightarrow> bool" where
  "passes cfg ps answers \<longleftrightarrow>
     (case cfg of
        None \<Rightarrow> True
      | Some c \<Rightarrow> pc_pin c \<noteq> [] \<and> pc_pin c \<notin> set ps \<and> length ps < unat (pc_max_tries c) \<and>
          take (Suc (length ps)) answers = map PinGiven (ps @ [pc_pin c]))"

definition recv_required :: "wire \<Rightarrow> event" where
  "recv_required W = EvText (to_json_string W enc_rtc_pin_receiving_response PinRecvRequired)"

definition recv_ok :: "wire \<Rightarrow> event" where
  "recv_ok W = EvText (to_json_string W enc_rtc_pin_receiving_response PinRecvOk)"

definition accept_pin_evs :: "wire \<Rightarrow> pin_config option \<Rightarrow> string list \<Rightarrow> event list" where
  "accept_pin_evs W cfg ps =
     (case cfg of None \<Rightarrow> [] | Some c \<Rightarrow> EvStatus StatusPinRequired # replicate (length ps) (recv_required W) @ [recv_ok W])"

definition chunk_evs :: "string \<Rightarrow> event list" where
  "chunk_evs s = map EvBin (chunk_list CHUNK_SIZE s) @ [EvText ''0'']"

lemma dc_out_chunk_evs [simp]: "dc_out (chunk_evs s) = chunked s"
  by (simp add: chunk_evs_def chunked_def)

definition send_required :: "wire \<Rightarrow> string" where
  "send_required W = to_json_string W enc_rtc_pin_sending_response PinSendRequired"

definition offer_pin_evs :: "wire \<Rightarrow> pin_config option \<Rightarrow> string list \<Rightarrow> event list" where
  "offer_pin_evs W cfg ps =
     (case cfg of None \<Rightarrow> []
      | Some c \<Rightarrow> EvStatus StatusPinRequired # concat (replicate (Suc (length ps)) (chunk_evs (send_required W))))"

lemma concat_replicate_single: "concat (replicate n [x]) = replicate n x"
  by (induction n) simp_all

lemma accept_verify_pin_run:
  assumes "wire_format W" "healthy w" "passes (rp_pin P) ps answers"
    and "rx w = map (pin_msg W) (guesses (rp_pin P) ps) @ ms"
  shows "accept_verify_pin W P w = (Ok (), moved w ms (accept_pin_evs W (rp_pin P) ps))"
proof (cases "rp_pin P")
  case None
  then show ?thesis using assms
    by (simp add: accept_verify_pin_def ret_def guesses_def accept_pin_evs_def moved_def)
next
  case (Some cfg)
  define evs where "evs r = [EvText (to_json_string W enc_rtc_pin_receiving_response
      (case r of VerPinRequired \<Rightarrow> PinRecvRequired | VerTooManyAttempts \<Rightarrow> PinRecvTooManyAttempts))]" for r
  have "receiver_notice W r v = (Ok (), v\<lparr>trace := trace v @ evs r\<rparr>)" if "healthy v" for r v
    using that by (simp add: receiver_notice_def evs_def task)
  then have "verify_pin W cfg False (receiver_notice W) w =
      (Ok (), w\<lparr>rx := ms, trace := trace w @ [EvStatus StatusPinRequired] @
         concat (replicate (length ps + (if False then 1 else 0)) (evs VerPinRequired))\<rparr>)"
    using assms Some by (intro verify_pin_accepts) (auto simp: passes_def guesses_def)
  then show ?thesis using Some assms(2)
    by (simp add: accept_verify_pin_def task tbind_def accept_pin_evs_def recv_required_def recv_ok_def evs_def
        concat_replicate_single moved_def)
qed

lemma offer_verify_pin_run:
  assumes "wire_format W" "healthy w" "passes (rp_pin P) ps answers"
    and "rx w = map (pin_msg W) (guesses (rp_pin P) ps) @ ms"
  shows "offer_verify_pin W P w = (Ok (), moved w ms (offer_pin_evs W (rp_pin P) ps))"
proof (cases "rp_pin P")
  case None
  then show ?thesis using assms
    by (simp add: offer_verify_pin_def ret_def guesses_def offer_pin_evs_def moved_def)
next
  case (Some cfg)
  define evs where "evs r = chunk_evs (to_json_string W enc_rtc_pin_sending_response
      (case r of VerPinRequired \<Rightarrow> PinSendRequired | VerTooManyAttempts \<Rightarrow> PinSendTooManyAttempts))" for r
  have "sender_notice W r v = (Ok (), v\<lparr>trace := trace v @ evs r\<rparr>)" if "healthy v" for r v
    using that by (simp add: sender_notice_def evs_def chunk_evs_def task tbind_def)
  then have "verify_pin W cfg True (sender_notice W) w =
      (Ok (), w\<lparr>rx := ms, trace := trace w @ [EvStatus StatusPinRequired] @
         concat (replicate (length ps + (if True then 1 else 0)) (evs VerPinRequired))\<rparr>)"
    using assms Some by (intro verify_pin_accepts) (auto simp: passes_def guesses_def)
  then show ?thesis using Some
    by (simp add: offer_verify_pin_def offer_pin_evs_def send_required_def evs_def moved_def)
qed

lemma passes_answers:
  assumes "passes (Some cfg) ps answers"
  obtains others where "answers = map PinGiven (ps @ [pc_pin cfg]) @ others"
proof -
  from assms have "answers = map PinGiven (ps @ [pc_pin cfg]) @ drop (Suc (length ps)) answers"
    unfolding passes_def by (simp only: option.case) (metis append_take_drop_id)
  then show thesis by (rule that)
qed

lemma parse_receiving [simp]:
  "wire_format W \<Longrightarrow> parse_receiving_response W (to_json_string W enc_rtc_pin_receiving_response r) =
    (case r of PinRecvOk \<Rightarrow> ChalOk () | PinRecvRequired \<Rightarrow> ChalPinRequired | PinRecvTooManyAttempts \<Rightarrow> ChalTooManyAttempts)"
  by (simp add: parse_receiving_response_def
      from_json_slice_codec [where d = dec_rtc_pin_receiving_response and e = enc_rtc_pin_receiving_response and x = r,
        OF _ dec_enc_rtc_pin_receiving_response]
      split: rtc_pin_receiving_response.split)

lemma parse_sending [simp]:
  "wire_format W \<Longrightarrow> parse_sending_response W (to_json_string W enc_rtc_pin_sending_response r) =
    (case r of PinSendOk fs \<Rightarrow> ChalOk fs | PinSendRequired \<Rightarrow> ChalPinRequired | PinSendTooManyAttempts \<Rightarrow> ChalTooManyAttempts)"
  by (simp add: parse_sending_response_def
      from_json_slice_codec [where d = dec_rtc_pin_sending_response and e = enc_rtc_pin_sending_response and x = r,
        OF _ dec_enc_rtc_pin_sending_response]
      split: rtc_pin_sending_response.split)

lemma offer_answer_pin_run:
  assumes "wire_format W" "healthy w" "passes cfg ps (pin_answers w)"
    and "rx w = dc_out (accept_pin_evs W cfg ps) @ ms"
  shows "offer_answer_pin W (cfg \<noteq> None) w = (Ok (), moved w ms (concat (map (pin_events W) (guesses cfg ps))))"
proof (cases cfg)
  case None
  then show ?thesis using assms by (simp add: offer_answer_pin_def ret_def guesses_def accept_pin_evs_def moved_def)
next
  case (Some c)
  obtain others where ans: "pin_answers w = map PinGiven (ps @ [pc_pin c]) @ others"
    using assms(3) Some by (auto elim: passes_answers)
  let ?req = "json_msg W enc_rtc_pin_receiving_response PinRecvRequired"
  let ?ok = "json_msg W enc_rtc_pin_receiving_response PinRecvOk"
  have "dc_out (replicate n (recv_required W)) = concat (replicate n [?req])" for n
    by (induction n) (simp_all add: recv_required_def json_msg_def)
  then have rx: "rx w = concat (replicate (length ps) [?req]) @ [?ok] @ ms"
    using assms(4) Some by (simp add: accept_pin_evs_def recv_ok_def json_msg_def)
  have "handle_pin_loop W False (parse_receiving_response W) (map PinGiven (ps @ [pc_pin c]) @ others) w =
      (Ok (), w\<lparr>rx := ms, trace := trace w @ concat (map (pin_events W) (ps @ [pc_pin c]))\<rparr>)"
    using assms(1,2) rx
    by (intro handle_pin_loop_accepted [where retry = "[?req]" and accept = "[?ok]"
        and d = "to_json_string W enc_rtc_pin_receiving_response PinRecvRequired"
        and d' = "to_json_string W enc_rtc_pin_receiving_response PinRecvOk"])
      (simp_all add: receive_pin_response_def task)
  then show ?thesis using Some ans
    by (simp add: offer_answer_pin_def handle_pin_def guesses_def moved_def del: map_append)
qed

lemma accept_file_list_run:
  assumes "wire_format W" "healthy w" "passes cfg ps (pin_answers w)"
    and "rx w = dc_out (offer_pin_evs W cfg ps) @ chunked (to_json_string W enc_rtc_pin_sending_response (PinSendOk files)) @ ms"
  shows "accept_file_list W w = (Ok files, moved w ms (concat (map (pin_events W) (guesses cfg ps))))"
proof (cases cfg)
  case None
  then show ?thesis using assms
    by (simp add: accept_file_list_def offer_pin_evs_def guesses_def tbind_def task parses moved_def
        receive_chunked [where ms = ms])
next
  case (Some c)
  obtain others where ans: "pin_answers w = map PinGiven (ps @ [pc_pin c]) @ others"
    using assms(3) Some by (auto elim: passes_answers)
  let ?req = "chunked (send_required W)"
  let ?ok = "chunked (to_json_string W enc_rtc_pin_sending_response (PinSendOk files))"
  have out: "dc_out (concat (replicate n (chunk_evs s))) = concat (replicate n (chunked s))" for n s
    by (induction n) simp_all
  define w1 where "w1 = w\<lparr>rx := concat (replicate (length ps) ?req) @ ?ok @ ms\<rparr>"
  have first: "receive_string_from_chunks w = (Ok (send_required W), w1)"
    using assms(4) Some out [of "length ps"]
    by (intro receive_chunked [THEN trans]) (simp_all add: offer_pin_evs_def w1_def)
  have "handle_pin_loop W True (parse_sending_response W) (map PinGiven (ps @ [pc_pin c]) @ others) w1 =
      (Ok files, w1\<lparr>rx := ms, trace := trace w1 @ concat (map (pin_events W) (ps @ [pc_pin c]))\<rparr>)"
    using assms(1,2)
    by (intro handle_pin_loop_accepted [where retry = "?req" and accept = "?ok" and d = "send_required W"
        and d' = "to_json_string W enc_rtc_pin_sending_response (PinSendOk files)"])
      (simp_all add: receive_pin_response_def task send_required_def w1_def)
  then show ?thesis using Some ans first assms(1)
    by (simp add: accept_file_list_def tbind_def parses [OF assms(1)] send_required_def task handle_pin_def guesses_def
        moved_def w1_def del: map_append)
qed

subsection \<open>The whole handshake\<close>

text \<open>
  What has to fit: both nonces have a valid length, both tokens can be made for their
  concatenation, and each side expects the key of the other or none.
\<close>

definition compatible :: "wire \<Rightarrow> crypto \<Rightarrow> rtc_params \<Rightarrow> rtc_params \<Rightarrow> bytes \<Rightarrow> string \<Rightarrow> string \<Rightarrow> bool" where
  "compatible W C S R nonce ts tr \<longleftrightarrow>
     nonce = local_nonce_of S @ local_nonce_of R \<and>
     validate_nonce (local_nonce_of S) \<and> validate_nonce (local_nonce_of R) \<and>
     generate_token_nonce W C (rp_signing_key S) nonce = Some ts \<and>
     generate_token_nonce W C (rp_signing_key R) nonce = Some tr \<and>
     peer_verified W C S nonce tr \<and> peer_verified W C R nonce ts"

text \<open>A peer that expects the key the other side signs with accepts its token.\<close>

definition expects :: "crypto \<Rightarrow> rtc_params \<Rightarrow> rtc_params \<Rightarrow> bool" where
  "expects C P Q \<longleftrightarrow> rp_expecting_public_key P \<in> {None, Some (to_verifying_key C (rp_signing_key Q))}"

lemma compatible_exists:
  assumes "wire_format W" "signature_scheme C" "validate_nonce (local_nonce_of S)" "validate_nonce (local_nonce_of R)"
    and "expects C S R" "expects C R S"
  shows "\<exists>ts tr. compatible W C S R (local_nonce_of S @ local_nonce_of R) ts tr"
proof -
  let ?n = "local_nonce_of S @ local_nonce_of R"
  have gen: "\<exists>t. generate_token_nonce W C key ?n = Some t" for key
    using signature_scheme.der_total [OF assms(2), of "ed_verifying_key C key"]
    by (auto simp: generate_token_nonce_def Let_def)
  from gen obtain ts tr where t: "generate_token_nonce W C (rp_signing_key S) ?n = Some ts"
    "generate_token_nonce W C (rp_signing_key R) ?n = Some tr" by blast
  have "peer_verified W C P ?n tok"
    if "expects C P Q" "generate_token_nonce W C (rp_signing_key Q) ?n = Some tok" for P Q tok
    using that(1) verify_own_token [OF assms(1,2) that(2)]
    by (auto simp: expects_def peer_verified_def verify_token_nonce_def is_ok_def)
  then show ?thesis using assms t unfolding compatible_def by blast
qed

definition offer_hello :: "wire \<Rightarrow> rtc_params \<Rightarrow> rtc_params \<Rightarrow> string \<Rightarrow> string list \<Rightarrow> string list \<Rightarrow> event list" where
  "offer_hello W S R ts psR psS =
     [nonce_ev W S, token_ev W ts] @ concat (map (pin_events W) (guesses (rp_pin R) psR)) @
     offer_pin_evs W (rp_pin S) psS @ [EvStatus Connected]"

definition accept_hello :: "wire \<Rightarrow> rtc_params \<Rightarrow> rtc_params \<Rightarrow> string \<Rightarrow> string list \<Rightarrow> string list \<Rightarrow> event list" where
  "accept_hello W S R tr psR psS =
     [nonce_ev W R, reply_ev W R tr] @ accept_pin_evs W (rp_pin R) psR @
     concat (map (pin_events W) (guesses (rp_pin S) psS)) @ [EvStatus Connected]"

lemma nonce_ev_out: "dc_out (nonce_ev W P # es) = nonce_msg W (local_nonce_of P) # dc_out es"
  by (simp add: nonce_ev_def nonce_msg_def json_msg_def)

lemma reply_ev_out: "dc_out (reply_ev W P t # es) = json_msg W enc_rtc_token_response (token_reply P t) # dc_out es"
  by (simp add: reply_ev_def json_msg_def)

lemma token_ev_out: "dc_out (token_ev W t # es) = json_msg W enc_rtc_token_request \<lparr>tr_token = t\<rparr> # dc_out es"
  by (simp add: token_ev_def json_msg_def)

lemmas hello_out = nonce_ev_out reply_ev_out token_ev_out

lemma connected_run: "healthy w \<Longrightarrow> send_status Connected w = (Ok (), moved w (rx w) [EvStatus Connected])"
  by (simp add: task moved_def)

lemma offer_handshake_run:
  assumes W: "wire_format W" and w: "healthy w" and c: "compatible W C S R nonce ts tr"
    and pR: "passes (rp_pin R) psR (pin_answers w)" and pS: "passes (rp_pin S) psS answers"
    and rx: "rx w = dc_out (accept_hello W S R tr psR psS) @ ms"
  shows "offer_handshake W C S w = (Ok (nonce, tr), moved w ms (offer_hello W S R ts psR psS))"
proof -
  have vS: "validate_nonce (local_nonce_of S)" and vR: "validate_nonce (local_nonce_of R)"
    and gS: "generate_token_nonce W C (rp_signing_key S) nonce = Some ts"
    and gR: "generate_token_nonce W C (rp_signing_key R) nonce = Some tr"
    and pvS: "peer_verified W C S nonce tr" and pvR: "peer_verified W C R nonce ts"
    and n: "nonce = local_nonce_of S @ local_nonce_of R"
    using c unfolding compatible_def by blast+
  let ?out = "\<lambda>es. dc_out es @ ms"
  define m1 where "m1 = ?out (reply_ev W R tr # accept_pin_evs W (rp_pin R) psR @ concat (map (pin_events W) (guesses (rp_pin S) psS)))"
  define m2 where "m2 = ?out (accept_pin_evs W (rp_pin R) psR @ concat (map (pin_events W) (guesses (rp_pin S) psS)))"
  define m3 where "m3 = ?out (concat (map (pin_events W) (guesses (rp_pin S) psS)))"
  have s1: "offer_nonce W S w = (Ok nonce, moved w m1 [nonce_ev W S])"
    using offer_nonce_run [OF W w, of "local_nonce_of R" m1] vR n rx by (simp add: accept_hello_def hello_out m1_def)
  have s2: "offer_token W C S nonce v = (Ok (rp_pin R \<noteq> None, tr), moved v m2 [token_ev W ts])"
    if "healthy v" "rx v = m1" for v
    using offer_token_run [OF W that(1), of C S nonce tr ts R m2] pvS gS that by (simp add: m1_def m2_def hello_out)
  have s3: "offer_answer_pin W (rp_pin R \<noteq> None) v = (Ok (), moved v m3 (concat (map (pin_events W) (guesses (rp_pin R) psR))))"
    if "healthy v" "rx v = m2" "pin_answers v = pin_answers w" for v
    using offer_answer_pin_run [OF W that(1), of "rp_pin R" psR m3] pR that by (simp add: m2_def m3_def)
  have s4: "offer_verify_pin W S v = (Ok (), moved v ms (offer_pin_evs W (rp_pin S) psS))"
    if "healthy v" "rx v = m3" for v
    using offer_verify_pin_run [OF W that(1) pS, of ms] that by (simp add: m3_def)
  show ?thesis
    using w by (simp add: offer_handshake_def tbind_def s1 s2 s3 s4 connected_run ret_def offer_hello_def del: not_None_eq)
qed

lemma accept_handshake_run:
  assumes W: "wire_format W" and w: "healthy w" and c: "compatible W C S R nonce ts tr"
    and pS: "passes (rp_pin S) psS (pin_answers w)" and pR: "passes (rp_pin R) psR answers"
    and rx: "rx w = dc_out (offer_hello W S R ts psR psS) @
      chunked (to_json_string W enc_rtc_pin_sending_response (PinSendOk files)) @ ms"
  shows "accept_handshake W C R w = (Ok (nonce, files), moved w ms (accept_hello W S R tr psR psS))"
proof -
  have vS: "validate_nonce (local_nonce_of S)" and vR: "validate_nonce (local_nonce_of R)"
    and gS: "generate_token_nonce W C (rp_signing_key S) nonce = Some ts"
    and gR: "generate_token_nonce W C (rp_signing_key R) nonce = Some tr"
    and pvS: "peer_verified W C S nonce tr" and pvR: "peer_verified W C R nonce ts"
    and n: "nonce = local_nonce_of S @ local_nonce_of R"
    using c unfolding compatible_def by blast+
  let ?out = "\<lambda>es. dc_out es @ chunked (to_json_string W enc_rtc_pin_sending_response (PinSendOk files)) @ ms"
  define m1 where "m1 = ?out (token_ev W ts # concat (map (pin_events W) (guesses (rp_pin R) psR)) @ offer_pin_evs W (rp_pin S) psS)"
  define m2 where "m2 = ?out (concat (map (pin_events W) (guesses (rp_pin R) psR)) @ offer_pin_evs W (rp_pin S) psS)"
  define m3 where "m3 = ?out (offer_pin_evs W (rp_pin S) psS)"
  have s1: "accept_nonce W R w = (Ok nonce, moved w m1 [nonce_ev W R])"
    using accept_nonce_run [OF W w, of "local_nonce_of S" m1] vS n rx by (simp add: offer_hello_def hello_out m1_def)
  have s2: "accept_token W C R nonce v = (Ok (), moved v m2 [reply_ev W R tr])"
    if "healthy v" "rx v = m1" for v
    using accept_token_run [OF W that(1), of C R nonce ts tr m2] pvR gR that by (simp add: m1_def m2_def hello_out)
  have s3: "accept_verify_pin W R v = (Ok (), moved v m3 (accept_pin_evs W (rp_pin R) psR))"
    if "healthy v" "rx v = m2" for v
    using accept_verify_pin_run [OF W that(1) pR, of m3] that by (simp add: m2_def m3_def)
  have s4: "accept_file_list W v = (Ok files, moved v ms (concat (map (pin_events W) (guesses (rp_pin S) psS))))"
    if "healthy v" "rx v = m3" "pin_answers v = pin_answers w" for v
    using accept_file_list_run [OF W that(1), of "rp_pin S" psS files ms] pS that by (simp add: m3_def)
  show ?thesis
    using w by (simp add: accept_handshake_def tbind_def s1 s2 s3 s4 connected_run ret_def accept_hello_def)
qed

subsection \<open>The files\<close>

text \<open>The frames of one file, and the files of a list that have a token.\<close>

definition header_of :: "wire \<Rightarrow> string \<Rightarrow> string \<Rightarrow> string" where
  "header_of W i tok = to_json_string W enc_rtc_send_file_header_request \<lparr>fh_id = i, fh_token = tok\<rparr>"

definition file_chunks :: "bytes list \<Rightarrow> bytes list" where
  "file_chunks blocks = chunk_list CHUNK_SIZE (concat blocks)"

definition file_evs :: "wire \<Rightarrow> (string, string) hashmap \<Rightarrow> string \<times> bytes list \<Rightarrow> event list" where
  "file_evs W tokens f =
     (case hm_get tokens (fst f) of
        None \<Rightarrow> [EvFileError \<lparr>fe_file_id = fst f, fe_error = Msg ''Failed to get file token''\<rparr>]
      | Some tok \<Rightarrow> EvText (header_of W (fst f) tok) # map EvBin (file_chunks (snd f)))"

lemma send_files_run:
  "healthy w \<Longrightarrow> send_files W tokens fs w = (Ok (), moved w (rx w) (concat (map (file_evs W tokens) fs)))"
proof (induction fs arbitrary: w)
  case Nil
  then show ?case by (simp add: ret_def moved_def)
next
  case (Cons f fs)
  have "send_file W tokens f w = (Ok (), moved w (rx w) (file_evs W tokens f))"
    using Cons.prems
    by (cases "hm_get tokens (fst f)")
      (simp_all add: send_file_def Let_def file_evs_def header_of_def file_chunks_def task moved_def catch_err_def)
  then show ?case using Cons by (simp add: tbind_def)
qed

definition sent_files :: "(string, string) hashmap \<Rightarrow> (string \<times> bytes list) list \<Rightarrow> (string \<times> bytes list) list" where
  "sent_files tokens fs = filter (\<lambda>f. hm_get tokens (fst f) \<noteq> None) fs"

definition file_frames :: "wire \<Rightarrow> (string, string) hashmap \<Rightarrow> string \<times> bytes list \<Rightarrow> dc_msg list" where
  "file_frames W tokens f =
     text_msg (header_of W (fst f) (the (hm_get tokens (fst f)))) # map bin_msg (file_chunks (snd f))"

lemma file_evs_out:
  "dc_out (concat (map (file_evs W tokens) fs)) = concat (map (file_frames W tokens) (sent_files tokens fs))"
  by (induction fs) (auto simp: file_evs_def file_frames_def sent_files_def split: option.splits)

text \<open>The completed files in a trace, with their content.\<close>

fun received :: "(string \<times> bytes) option \<Rightarrow> event list \<Rightarrow> (string \<times> bytes) list" where
  "received cur [] = []"
| "received cur (e # es) =
     (case e of
        EvReceiving i \<Rightarrow> received (Some (i, [])) es
      | EvChunk i b \<Rightarrow> received (map_option (\<lambda>(j, d). (j, d @ b)) cur) es
      | EvFileClosed i \<Rightarrow> (case cur of None \<Rightarrow> received None es | Some f \<Rightarrow> f # received None es)
      | _ \<Rightarrow> received cur es)"

lemma received_chunks:
  "received (Some (i, d)) (map (EvChunk j) cs @ es) = received (Some (i, d @ concat cs)) es"
  by (induction cs arbitrary: d) simp_all

lemma received_quiet: "\<forall>e \<in> set xs. no_stream e \<Longrightarrow> received cur (xs @ es) = received cur es"
proof (induction xs)
  case (Cons e xs)
  then show ?case by (cases e) (auto simp: no_stream_def)
qed simp

text \<open>The report on a file, by the application's next result.\<close>

definition report_of :: "wire \<Rightarrow> string \<Rightarrow> (string \<Rightarrow> rtc_send_file_response) option \<Rightarrow> string" where
  "report_of W i r = (let error = result_error (map_option (\<lambda>f. f i) r) in
     to_json_string W enc_rtc_send_file_response \<lparr>fr_id = i, fr_success = (error = None), fr_error = error\<rparr>)"

definition pop :: "'a list \<Rightarrow> 'a option \<times> 'a list" where
  "pop xs = (case xs of [] \<Rightarrow> (None, []) | y # ys \<Rightarrow> (Some y, ys))"

lemma report_last_run:
  "healthy w \<Longrightarrow> pop (file_results w) = (r, rs) \<Longrightarrow>
   report_last W i w = (Ok (), moved (w\<lparr>file_results := rs\<rparr>) (rx w) [EvText (report_of W i r)])"
  by (cases "file_results w")
    (auto simp: report_last_def file_result_def tbind_def Let_def report_of_def pop_def task moved_def)

text \<open>What the loop adds for a list of files after the file \<open>cur\<close>.\<close>

fun transfer_evs ::
    "wire \<Rightarrow> string option \<Rightarrow> (string \<Rightarrow> rtc_send_file_response) list \<Rightarrow> (string \<times> bytes list) list \<Rightarrow> event list" where
  "transfer_evs W None rs [] = []"
| "transfer_evs W (Some i) rs [] =
     [EvFileClosed i, EvText (report_of W i (fst (pop rs))), EvDrained]"
| "transfer_evs W None rs (f # fs) =
     EvReceiving (fst f) # map (EvChunk (fst f)) (file_chunks (snd f)) @ transfer_evs W (Some (fst f)) rs fs"
| "transfer_evs W (Some i) rs (f # fs) =
     EvFileClosed i # EvText (report_of W i (fst (pop rs))) #
     EvReceiving (fst f) # map (EvChunk (fst f)) (file_chunks (snd f)) @
     transfer_evs W (Some (fst f)) (snd (pop rs)) fs"

fun reports :: "wire \<Rightarrow> (string \<Rightarrow> rtc_send_file_response) list \<Rightarrow> (string \<times> bytes list) list \<Rightarrow> dc_msg list" where
  "reports W rs [] = []"
| "reports W rs (f # fs) = text_msg (report_of W (fst f) (fst (pop rs))) # reports W (snd (pop rs)) fs"

lemma reports_Nil [simp]: "reports W rs fs = [] \<longleftrightarrow> fs = []"
  by (cases fs) simp_all

lemma dc_out_chunk_events [simp]: "dc_out (map (EvChunk i) cs) = []"
  by (induction cs) simp_all

lemma transfer_out_some: "dc_out (transfer_evs W (Some i) rs fs) = reports W rs ((i, bs) # fs)"
  by (induction fs arbitrary: i bs rs) auto

lemma transfer_out: "fs \<noteq> [] \<Longrightarrow> dc_out (transfer_evs W None rs fs) = reports W rs fs"
  by (cases fs) (use transfer_out_some in auto)

lemma transfer_received_some:
  "received (Some (i, d)) (transfer_evs W (Some i) rs fs) = (i, d) # map (\<lambda>f. (fst f, concat (snd f))) fs"
  by (induction fs arbitrary: i d rs) (auto simp: received_chunks file_chunks_def)

lemma transfer_received:
  "received None (transfer_evs W None rs fs) = map (\<lambda>f. (fst f, concat (snd f))) fs"
  by (cases fs) (auto simp: received_chunks file_chunks_def transfer_received_some)

lemma header_parses:
  "wire_format W \<Longrightarrow> parse_json W dec_rtc_send_file_header_request (header_of W i tok) w =
    (Ok \<lparr>fh_id = i, fh_token = tok\<rparr>, w)"
  unfolding header_of_def by (rule parses)

lemma header_not_delimiter: "wire_format W \<Longrightarrow> \<not> is_delimiter (text_msg (header_of W i tok))"
  using wire_format.json_obj_long
  by (intro text_not_delimiter) (simp add: header_of_def to_json_string_def enc_rtc_send_file_header_request_def)

lemma receive_loop_bins:
  "healthy w \<Longrightarrow> receive_loop W tokens files (Some s) (map bin_msg cs @ msgs) w =
    receive_loop W tokens files (Some s) msgs (if cs = [] then w else moved w msgs (map (EvChunk (fs_file_id s)) cs))"
proof (induction cs arbitrary: w)
  case Nil
  then show ?case by simp
next
  case (Cons c cs)
  let ?w = "moved w (map bin_msg cs @ msgs) [EvChunk (fs_file_id s) c]"
  have step: "receive_message W tokens files (Some s) (bin_msg c) (w\<lparr>rx := map bin_msg cs @ msgs\<rparr>) = (Ok (Some (Some s)), ?w)"
    using Cons.prems by (simp add: receive_message_def binary_send_def healthy_def tbind_def emit_def ret_def moved_def)
  have h: "healthy ?w" using Cons.prems by simp
  show ?case using Cons.IH [OF h] by (simp add: tbind_def step)
qed

lemma open_file_run:
  assumes "wire_format W" "hm_get tokens i = Some tok" "find_size files i = Some sz"
  shows "open_file W tokens files (header_of W i tok) w =
    (Ok (Some \<lparr>fs_file_id = i, fs_size = sz\<rparr>), moved w (rx w) [EvReceiving i])"
  using assms by (simp add: open_file_def tbind_def header_parses ret_def emit_def moved_def)

lemma healthy_results [simp]: "healthy (w\<lparr>file_results := rs\<rparr>) = healthy w"
  by (simp add: healthy_def)

text \<open>What a string message does to the file before it.\<close>

definition close_evs :: "wire \<Rightarrow> string option \<Rightarrow> (string \<Rightarrow> rtc_send_file_response) list \<Rightarrow> event list" where
  "close_evs W cur rs = (case cur of None \<Rightarrow> [] | Some i \<Rightarrow> [EvFileClosed i, EvText (report_of W i (fst (pop rs)))])"

definition close_results :: "string option \<Rightarrow> 'a list \<Rightarrow> 'a list" where
  "close_results cur rs = (if cur = None then rs else snd (pop rs))"

lemma receive_header_run:
  assumes W: "wire_format W" and w: "healthy w" and t: "hm_get tokens i = Some tok" and z: "find_size files i = Some sz"
  shows "receive_message W tokens files st (text_msg (header_of W i tok)) w =
    (Ok (Some (Some \<lparr>fs_file_id = i, fs_size = sz\<rparr>)),
     moved (w\<lparr>file_results := close_results (open_id st) (file_results w)\<rparr>) (rx w)
       (close_evs W (open_id st) (file_results w) @ [EvReceiving i]))"
proof (cases st)
  case None
  then show ?thesis
    by (simp add: receive_message_def drop_state_def ret_def tbind_def open_file_run [OF W t z] close_evs_def
        close_results_def open_id_def moved_def)
next
  case (Some s)
  let ?w1 = "w\<lparr>trace := trace w @ [EvFileClosed (fs_file_id s)]\<rparr>"
  obtain r rs where p: "pop (file_results w) = (r, rs)" by fastforce
  have rep: "report_last W (fs_file_id s) ?w1 =
      (Ok (), moved (?w1\<lparr>file_results := rs\<rparr>) (rx w) [EvText (report_of W (fs_file_id s) r)])"
    using report_last_run [of ?w1 r rs] w p by simp
  show ?thesis using Some p header_not_delimiter [OF W]
    by (simp add: receive_message_def drop_state_run tbind_def rep open_file_run [OF W t z] ret_def close_evs_def
        close_results_def open_id_def moved_def)
qed

lemma receive_delimiter_run:
  assumes w: "healthy w"
  shows "receive_message W tokens files (Some s) (text_msg ''0'') w =
    (Ok None, moved (w\<lparr>file_results := snd (pop (file_results w))\<rparr>) (rx w)
       (close_evs W (Some (fs_file_id s)) (file_results w) @ [EvDrained]))"
proof -
  let ?w1 = "w\<lparr>trace := trace w @ [EvFileClosed (fs_file_id s)]\<rparr>"
  obtain r rs where p: "pop (file_results w) = (r, rs)" by fastforce
  have rep: "report_last W (fs_file_id s) ?w1 =
      (Ok (), moved (?w1\<lparr>file_results := rs\<rparr>) (rx w) [EvText (report_of W (fs_file_id s) r)])"
    using report_last_run [of ?w1 r rs] w p by simp
  show ?thesis using p w
    by (simp add: receive_message_def drop_state_run tbind_def rep is_delimiter_def within_limit_healthy ignore_def
        wait_buffer_empty_def emit_def ret_def close_evs_def moved_def)
qed

lemma transfer_evs_unfold:
  "transfer_evs W cur rs (f # fs) = close_evs W cur rs @ EvReceiving (fst f) #
     map (EvChunk (fst f)) (file_chunks (snd f)) @ transfer_evs W (Some (fst f)) (close_results cur rs) fs"
  by (cases cur) (simp_all add: close_evs_def close_results_def)

lemma receive_loop_run:
  assumes W: "wire_format W"
  shows "\<lbrakk>healthy w; \<forall>f \<in> set fs. authorised tokens files (fst f); st = None \<longrightarrow> fs \<noteq> []\<rbrakk> \<Longrightarrow>
    \<exists>w'. receive_loop W tokens files st (concat (map (file_frames W tokens) fs) @ text_msg ''0'' # ms) w = (Ok (), w') \<and>
      rx w' = ms \<and> trace w' = trace w @ transfer_evs W (open_id st) (file_results w) fs"
proof (induction fs arbitrary: st w)
  case Nil
  then obtain s where st: "st = Some s" by (cases st) auto
  have h: "healthy (w\<lparr>rx := ms\<rparr>)" using Nil by simp
  show ?case
    by (simp add: st tbind_def receive_delimiter_run [OF h] ret_def open_id_def close_evs_def)
next
  case (Cons f fs)
  obtain tok sz where t: "hm_get tokens (fst f) = Some tok" "find_size files (fst f) = Some sz"
    using Cons.prems(2) by (auto simp: authorised_def)
  let ?s = "\<lparr>fs_file_id = fst f, fs_size = sz\<rparr>"
  let ?rest = "concat (map (file_frames W tokens) fs) @ text_msg ''0'' # ms"
  let ?bins = "map bin_msg (file_chunks (snd f))"
  let ?w1 = "moved (w\<lparr>file_results := close_results (open_id st) (file_results w)\<rparr>) (?bins @ ?rest)
      (close_evs W (open_id st) (file_results w) @ [EvReceiving (fst f)])"
  define w2 where "w2 = (if file_chunks (snd f) = [] then ?w1
      else moved ?w1 ?rest (map (EvChunk (fst f)) (file_chunks (snd f))))"
  have h: "healthy (w\<lparr>rx := ?bins @ ?rest\<rparr>)" "healthy ?w1" "healthy w2" using Cons.prems by (simp_all add: w2_def)
  have "receive_loop W tokens files st (concat (map (file_frames W tokens) (f # fs)) @ text_msg ''0'' # ms) w =
      receive_loop W tokens files (Some ?s) (?bins @ ?rest) ?w1"
    using t receive_header_run [OF W h(1) t, of st]
    by (simp add: file_frames_def tbind_def moved_def)
  also have "\<dots> = receive_loop W tokens files (Some ?s) ?rest w2"
    using receive_loop_bins [OF h(2), of W tokens files ?s "file_chunks (snd f)" ?rest] by (simp add: w2_def)
  finally have eq: "receive_loop W tokens files st (concat (map (file_frames W tokens) (f # fs)) @ text_msg ''0'' # ms) w =
      receive_loop W tokens files (Some ?s) ?rest w2" .
  from Cons.IH [OF h(3), of "Some ?s"] Cons.prems(2) obtain w' where
    w': "receive_loop W tokens files (Some ?s) ?rest w2 = (Ok (), w')" "rx w' = ms"
      "trace w' = trace w2 @ transfer_evs W (Some (fst f)) (file_results w2) fs"
    by (auto simp: open_id_def)
  have "trace w2 = trace w @ close_evs W (open_id st) (file_results w) @ EvReceiving (fst f) #
      map (EvChunk (fst f)) (file_chunks (snd f))"
    "file_results w2 = close_results (open_id st) (file_results w)"
    by (simp_all add: w2_def moved_def)
  with w'(3) have "trace w' = trace w @ transfer_evs W (open_id st) (file_results w) (f # fs)"
    by (simp add: transfer_evs_unfold)
  with trans [OF eq w'(1)] w'(2) show ?case by blast
qed

subsection \<open>The whole session\<close>

lemma chunk_evs_run:
  "healthy w \<Longrightarrow> tbind (send_string_in_chunks send_bin s) (\<lambda>_. send_delimiter) w = (Ok (), moved w (rx w) (chunk_evs s))"
  by (simp add: task tbind_def chunk_evs_def moved_def)

lemma send_string_moved:
  "healthy w \<Longrightarrow> send_string_in_chunks send_bin s w = (Ok (), moved w (rx w) (map EvBin (chunk_list CHUNK_SIZE s)))"
  by (simp add: task moved_def)

lemma delimiter_moved: "healthy w \<Longrightarrow> send_delimiter w = (Ok (), moved w (rx w) [EvText ''0''])"
  by (simp add: task moved_def)

lemma drained_moved: "wait_buffer_empty w = (Ok (), moved w (rx w) [EvDrained])"
  by (simp add: task moved_def)

lemma offer_files_run:
  "healthy w \<Longrightarrow> offer_files W files w =
    (Ok (), moved w (rx w) (chunk_evs (to_json_string W enc_rtc_pin_sending_response (PinSendOk files))))"
  by (simp add: offer_files_def report_list_failure_def catch_err_def tbind_def send_string_moved delimiter_moved
      ret_def chunk_evs_def)

lemma offer_selection_run:
  assumes "wire_format W" "hm_wf tokens"
    and "rx w = chunked (to_json_string W enc_rtc_file_list_response (ListOk tokens)) @ ms"
  shows "offer_selection W C t n w = (Ok (Go tokens), moved w ms [])"
  using assms
  by (simp add: offer_selection_def receive_file_list_def tbind_def receive_chunked [OF assms(3)] context_err_def
      parses file_list_wf_def ret_def moved_def)

definition offer_evs ::
    "wire \<Rightarrow> rtc_params \<Rightarrow> rtc_params \<Rightarrow> string \<Rightarrow> string list \<Rightarrow> string list \<Rightarrow> file_dto list \<Rightarrow>
       (string, string) hashmap \<Rightarrow> (string \<times> bytes list) list \<Rightarrow> event list" where
  "offer_evs W S R ts psR psS files tokens out =
     EvDrained # offer_hello W S R ts psR psS @
     chunk_evs (to_json_string W enc_rtc_pin_sending_response (PinSendOk files)) @
     EvSelected (hm_keys tokens) # concat (map (file_evs W tokens) out) @ [EvDrained, EvText ''0'']"

text \<open>What the last receive of the sending task adds when nothing more comes.\<close>

definition closed_evs :: "dc_msg list \<Rightarrow> event list" where
  "closed_evs ms = (if ms = [] then [EvClosed] else [])"

lemma reports_closed: "fs \<noteq> [] \<Longrightarrow> closed_evs (reports W rs fs) = []"
  by (simp add: closed_evs_def)

lemma offer_task_run:
  assumes W: "wire_format W" and w: "healthy w" and c: "compatible W C S R nonce ts tr"
    and p: "passes (rp_pin R) psR (pin_answers w)" "passes (rp_pin S) psS answers" and wf: "hm_wf tokens"
    and rx: "rx w = dc_out (accept_hello W S R tr psR psS) @
      chunked (to_json_string W enc_rtc_file_list_response (ListOk tokens)) @ ms"
  shows "offer_task W C S files w =
    (Ok (Go ()), moved w (tl ms) (offer_evs W S R ts psR psS files tokens (outgoing w) @ closed_evs ms))"
proof -
  let ?list = "chunked (to_json_string W enc_rtc_file_list_response (ListOk tokens)) @ ms"
  have s1: "offer_handshake W C S (moved w (rx w) [EvDrained]) =
      (Ok (nonce, tr), moved w ?list (EvDrained # offer_hello W S R ts psR psS))"
    using offer_handshake_run [OF W _ c _ p(2), of "moved w (rx w) [EvDrained]" psR ?list] w p(1) rx by simp
  have s2: "offer_selection W C tr nonce v = (Ok (Go tokens), moved v ms [])" if "rx v = ?list" for v
    using offer_selection_run [OF W wf that] .
  have s3: "publish_selection tokens v = (Ok (), moved v (rx v) [EvSelected (hm_keys tokens)])" if "healthy v" for v
    using that by (simp add: publish_selection_def healthy_def emit_def moved_def)
  have s4: "send_outgoing W tokens v = (Ok (), moved v (rx v) (concat (map (file_evs W tokens) (outgoing v))))"
    if "healthy v" for v
    using send_files_run [OF that] by (simp add: send_outgoing_def)
  have s5: "finish_sending v = (Ok (Go ()), moved v (tl (rx v)) ([EvDrained, EvText ''0''] @ closed_evs (rx v)))" if "healthy v" for v
    using that by (cases "rx v")
      (simp_all add: finish_sending_def tbind_def drained_moved delimiter_moved recv_def ret_def moved_def closed_evs_def)
  show ?thesis
    using w by (simp add: offer_task_def tbind_def drained_moved s1 offer_files_run and_then_def s2 s3 s4 s5 offer_evs_def)
qed

definition accept_evs ::
    "wire \<Rightarrow> rtc_params \<Rightarrow> rtc_params \<Rightarrow> string \<Rightarrow> string list \<Rightarrow> string list \<Rightarrow> file_dto list \<Rightarrow>
       (string, string) hashmap \<Rightarrow> (string \<Rightarrow> rtc_send_file_response) list \<Rightarrow> (string \<times> bytes list) list \<Rightarrow> event list" where
  "accept_evs W S R tr psR psS files tokens rs out =
     accept_hello W S R tr psR psS @ EvFiles files #
     chunk_evs (to_json_string W enc_rtc_file_list_response (ListOk tokens)) @ transfer_evs W None rs out"

lemma accept_task_run:
  assumes W: "wire_format W" and w: "healthy w" and c: "compatible W C S R nonce ts tr"
    and p: "passes (rp_pin S) psS (pin_answers w)" "passes (rp_pin R) psR answers"
    and sel: "choice w files = SelectionFiles ids" "tokens = file_tokens_of nt ids"
    and out: "out \<noteq> []" "\<forall>f \<in> set out. authorised tokens files (fst f)"
    and rx: "rx w = dc_out (offer_hello W S R ts psR psS) @
      chunked (to_json_string W enc_rtc_pin_sending_response (PinSendOk files)) @
      concat (map (file_frames W tokens) out) @ [text_msg ''0'']"
  shows "\<exists>w'. accept_task W C R nt w = (Ok (Go ()), w') \<and>
    trace w' = trace w @ accept_evs W S R tr psR psS files tokens (file_results w) out"
proof -
  let ?rest = "concat (map (file_frames W tokens) out) @ [text_msg ''0'']"
  let ?w1 = "moved w ?rest (accept_hello W S R tr psR psS)"
  let ?w2 = "moved ?w1 ?rest [EvFiles files]"
  let ?w3 = "moved ?w2 ?rest (chunk_evs (to_json_string W enc_rtc_file_list_response (ListOk tokens)))"
  have s1: "accept_handshake W C R w = (Ok (nonce, files), ?w1)"
    by (rule accept_handshake_run [OF W w c p rx])
  have s2: "publish_files files ?w1 = (Ok (), ?w2)"
    using w by (simp add: publish_files_def healthy_def emit_def moved_def)
  have s3: "accept_selection W nt files ?w2 = (Ok (Go tokens), ?w3)"
  proof -
    have e: "send_file_list W (ListOk tokens) ?w2 = (Ok (), ?w3)"
      using chunk_evs_run [of ?w2] w by (simp add: send_file_list_def)
    have "accept_selection W nt files ?w2 = tbind (send_file_list W (ListOk tokens)) (\<lambda>_. ret (Go tokens)) ?w2"
      using sel by (simp add: accept_selection_def Let_def)
    also have "\<dots> = ret (Go tokens) ?w3" using e by (rule tbind_Ok)
    finally show ?thesis by (simp only: ret_def)
  qed
  have "healthy ?w3" using w by simp
  from receive_loop_run [OF W this, of out tokens files None "[]"] out obtain w' where
    "receive_loop W tokens files None ?rest ?w3 = (Ok (), w')"
    "trace w' = trace ?w3 @ transfer_evs W None (file_results ?w3) out"
    by (auto simp: open_id_def)
  then have "receive_files W tokens files ?w3 = (Ok (), w')"
    "trace w' = trace w @ accept_evs W S R tr psR psS files tokens (file_results w) out"
    by (simp_all add: receive_files_def accept_evs_def)
  then show ?thesis
    by (intro exI [of _ w']) (simp add: accept_task_def tbind_def s1 s2 and_then_def s3 ret_def del: moved_moved)
qed

lemma file_tokens_all: "i \<in> set ids \<Longrightarrow> hm_get (file_tokens_of nt ids) i \<noteq> None"
proof -
  assume i: "i \<in> set ids"
  have "i \<in> fst ` set kvs \<or> hm_get m i \<noteq> None \<Longrightarrow> hm_get (fold (\<lambda>(k, v). hm_insert k v) kvs m) i \<noteq> None"
    for kvs and m :: "(string, string) hashmap"
  proof (induction kvs arbitrary: m)
    case (Cons kv kvs)
    obtain k v where kv: "kv = (k, v)" by fastforce
    have "i \<in> fst ` set kvs \<or> hm_get (hm_insert k v m) i \<noteq> None"
      using Cons.prems kv by (auto simp: hm.get_ins)
    from Cons.IH [OF this] show ?case by (simp add: kv)
  qed simp
  moreover have "fst ` set (zip ids (map nt [0..<length ids])) = set ids"
    by (metis length_map length_upt diff_zero map_fst_zip set_map)
  ultimately show ?thesis using i by (simp add: file_tokens_of_def hm_collect_def)
qed

lemma listed_find_size: "i \<in> fd_id ` set files \<Longrightarrow> find_size files i \<noteq> None"
  by (auto simp: find_size_def find_None_iff)

subsection \<open>What the two applications see\<close>

text \<open>What a task has put into one of the channels to its application.\<close>

definition observe :: "(event \<Rightarrow> 'a option) \<Rightarrow> event list \<Rightarrow> 'a list" where
  "observe f es = List.map_filter f es"

fun status_of :: "event \<Rightarrow> rtc_status option" where
  "status_of (EvStatus s) = Some s"
| "status_of _ = None"

fun selected_of :: "event \<Rightarrow> string list option" where
  "selected_of (EvSelected ids) = Some ids"
| "selected_of _ = None"

fun shown_of :: "event \<Rightarrow> file_dto list option" where
  "shown_of (EvFiles fs) = Some fs"
| "shown_of _ = None"

fun error_of :: "event \<Rightarrow> rtc_file_error option" where
  "error_of (EvFileError x) = Some x"
| "error_of _ = None"

lemma observe_simps [simp]:
  "observe f [] = []" "observe f (e # es) = (case f e of None \<Rightarrow> observe f es | Some x \<Rightarrow> x # observe f es)"
  "observe f (es @ es') = observe f es @ observe f es'"
  by (simp_all add: observe_def List.map_filter_def split: option.splits)

lemma observe_none: "\<forall>e \<in> set es. f e = None \<Longrightarrow> observe f es = []"
  by (induction es) simp_all

text \<open>The handshakes and the chunks of a string show in no channel but that of the statuses.\<close>

definition hello_ev :: "event \<Rightarrow> bool" where
  "hello_ev e = (case e of EvText _ \<Rightarrow> True | EvBin _ \<Rightarrow> True | EvDrained \<Rightarrow> True | EvPinRequest \<Rightarrow> True
     | EvStatus s \<Rightarrow> s = StatusPinRequired \<or> s = Connected | _ \<Rightarrow> False)"

lemma hello_evs: "\<forall>e \<in> set (offer_hello W S R t psR psS). hello_ev e"
  "\<forall>e \<in> set (accept_hello W S R t psR psS). hello_ev e" "\<forall>e \<in> set (chunk_evs s). hello_ev e"
  by (auto simp: offer_hello_def accept_hello_def nonce_ev_def token_ev_def reply_ev_def accept_pin_evs_def
      offer_pin_evs_def recv_required_def recv_ok_def pin_events_def chunk_evs_def hello_ev_def split: option.splits)

lemma hello_silent:
  assumes "\<forall>e \<in> set es. hello_ev e"
  shows "observe selected_of es = []" "observe shown_of es = []" "observe error_of es = []"
    "set (observe status_of es) \<subseteq> {StatusPinRequired, Connected}"
proof -
  have "selected_of e = None \<and> shown_of e = None \<and> error_of e = None" if "hello_ev e" for e
    using that by (cases e) (simp_all add: hello_ev_def)
  then show "observe selected_of es = []" "observe shown_of es = []" "observe error_of es = []"
    using assms by (auto intro: observe_none)
  show "set (observe status_of es) \<subseteq> {StatusPinRequired, Connected}"
    using assms
  proof (induction es)
    case (Cons e es)
    then show ?case by (cases e) (auto simp: hello_ev_def)
  qed simp
qed

lemmas hellos_silent = hello_silent [OF hello_evs(1)] hello_silent [OF hello_evs(2)] hello_silent [OF hello_evs(3)]

lemma files_observed: "observe selected_of (concat (map (file_evs W tokens) fs)) = []"
  "observe status_of (concat (map (file_evs W tokens) fs)) = []"
  "map fe_file_id (observe error_of (concat (map (file_evs W tokens) fs))) =
     map fst (filter (\<lambda>f. hm_get tokens (fst f) = None) fs)"
proof -
  have bins: "observe error_of (map EvBin cs) = []" for cs
    by (intro observe_none) auto
  show "observe selected_of (concat (map (file_evs W tokens) fs)) = []"
    "observe status_of (concat (map (file_evs W tokens) fs)) = []"
    by (intro observe_none; auto simp: file_evs_def split: option.splits)+
  show "map fe_file_id (observe error_of (concat (map (file_evs W tokens) fs))) =
      map fst (filter (\<lambda>f. hm_get tokens (fst f) = None) fs)"
    by (induction fs) (auto simp: file_evs_def bins split: option.splits)
qed

lemma transfer_observed: "observe shown_of (transfer_evs W cur rs fs) = []"
  "observe status_of (transfer_evs W cur rs fs) = []" "observe error_of (transfer_evs W cur rs fs) = []"
proof -
  have "\<forall>e \<in> set (transfer_evs W cur rs fs). shown_of e = None \<and> status_of e = None \<and> error_of e = None"
    by (induction W cur rs fs rule: transfer_evs.induct) auto
  then show "observe shown_of (transfer_evs W cur rs fs) = []"
    "observe status_of (transfer_evs W cur rs fs) = []" "observe error_of (transfer_evs W cur rs fs) = []"
    by (auto intro: observe_none)
qed

lemma offer_observed:
  "observe selected_of (offer_evs W S R ts psR psS files tokens out) = [hm_keys tokens]"
  "set (observe status_of (offer_evs W S R ts psR psS files tokens out)) \<subseteq> {StatusPinRequired, Connected}"
  "map fe_file_id (observe error_of (offer_evs W S R ts psR psS files tokens out)) =
     map fst (filter (\<lambda>f. hm_get tokens (fst f) = None) out)"
  using hellos_silent(4) hellos_silent(12)
  by (simp_all add: offer_evs_def hellos_silent files_observed)

lemma accept_observed:
  "observe shown_of (accept_evs W S R tr psR psS files tokens rs out) = [files]"
  "set (observe status_of (accept_evs W S R tr psR psS files tokens rs out)) \<subseteq> {StatusPinRequired, Connected}"
  "observe error_of (accept_evs W S R tr psR psS files tokens rs out) = []"
  using hellos_silent(8) hellos_silent(12)
  by (simp_all add: accept_evs_def hellos_silent transfer_observed)

lemma hm_keys_iff: "i \<in> set (hm_keys m) \<longleftrightarrow> hm_get m i \<noteq> None"
  by (simp add: hm_keys_def hm_entries_def hm_get_def map_of_eq_None_iff)

text \<open>Which files are sent for a selection.\<close>

lemma chosen_files:
  assumes sel: "set ids \<subseteq> fd_id ` set files" and some: "\<exists>f \<in> set out. fst f \<in> set ids"
    and tokens: "tokens = file_tokens_of nt ids"
  shows "hm_wf tokens" "set (hm_keys tokens) = set ids"
    "sent_files tokens out = filter (\<lambda>f. fst f \<in> set ids) out"
    "sent_files tokens out \<noteq> []" "\<forall>f \<in> set (sent_files tokens out). authorised tokens files (fst f)"
proof -
  show "hm_wf tokens" by (simp add: tokens file_tokens_of_def hm)
  have get: "hm_get tokens i \<noteq> None \<longleftrightarrow> i \<in> set ids" for i
    unfolding tokens using file_tokens_chosen file_tokens_all by blast
  show "set (hm_keys tokens) = set ids" using get by (auto simp: hm_keys_iff)
  show out: "sent_files tokens out = filter (\<lambda>f. fst f \<in> set ids) out"
    by (simp add: sent_files_def get del: not_None_eq)
  show "sent_files tokens out \<noteq> []" using some unfolding out by (auto simp: filter_empty_conv)
  show "\<forall>f \<in> set (sent_files tokens out). authorised tokens files (fst f)"
    using sel get listed_find_size unfolding out authorised_def by auto
qed

text \<open>The runs of the two tasks, each on what the other one sends.\<close>

lemma session_runs:
  assumes W: "wire_format W" and c: "compatible W C S R nonce ts tr"
    and pins: "passes (rp_pin R) psR (pin_answers ws)" "passes (rp_pin S) psS (pin_answers wr)"
    and worlds: "healthy ws" "healthy wr" "trace ws = []" "trace wr = []"
    and sel: "choice wr files = SelectionFiles ids" "set ids \<subseteq> fd_id ` set files"
    and some: "\<exists>f \<in> set (outgoing ws). fst f \<in> set ids"
    and tokens: "tokens = file_tokens_of nt ids" and out: "out = sent_files tokens (outgoing ws)"
    and evs: "evs_s = offer_evs W S R ts psR psS files tokens (outgoing ws)"
      "evs_r = accept_evs W S R tr psR psS files tokens (file_results wr) out"
  shows "\<exists>ws'. offer_task W C S files (ws\<lparr>rx := dc_out evs_r\<rparr>) = (Ok (Go ()), ws') \<and> trace ws' = evs_s"
    and "\<exists>wr'. accept_task W C R nt (wr\<lparr>rx := dc_out evs_s\<rparr>) = (Ok (Go ()), wr') \<and> trace wr' = evs_r"
proof -
  note files = chosen_files [OF sel(2) some tokens]
  have to_r: "dc_out evs_s = dc_out (offer_hello W S R ts psR psS) @
      chunked (to_json_string W enc_rtc_pin_sending_response (PinSendOk files)) @
      concat (map (file_frames W tokens) out) @ [text_msg ''0'']"
    by (simp add: evs offer_evs_def file_evs_out out)
  have to_s: "dc_out evs_r = dc_out (accept_hello W S R tr psR psS) @
      chunked (to_json_string W enc_rtc_file_list_response (ListOk tokens)) @ reports W (file_results wr) out"
    using files(4) by (simp add: evs accept_evs_def transfer_out out)
  show "\<exists>ws'. offer_task W C S files (ws\<lparr>rx := dc_out evs_r\<rparr>) = (Ok (Go ()), ws') \<and> trace ws' = evs_s"
    using offer_task_run [OF W _ c _ pins(2) files(1), of "ws\<lparr>rx := dc_out evs_r\<rparr>" psR "reports W (file_results wr) out" files]
      worlds pins(1) to_s reports_closed files(4)
    by (simp add: evs out)
  show "\<exists>wr'. accept_task W C R nt (wr\<lparr>rx := dc_out evs_s\<rparr>) = (Ok (Go ()), wr') \<and> trace wr' = evs_r"
    using accept_task_run [OF W _ c _ pins(1) _ tokens, of "wr\<lparr>rx := dc_out evs_s\<rparr>" psS files out] worlds pins(2) sel(1)
      to_r files(4,5)
    by (auto simp: evs out)
qed

lemma accept_received:
  "received None (accept_evs W S R tr psR psS files tokens rs out) = map (\<lambda>f. (fst f, concat (snd f))) out"
proof -
  have "\<forall>e \<in> set (accept_hello W S R tr psR psS @ EvFiles files # chunk_evs x). no_stream e" for x
    by (auto simp: accept_hello_def nonce_ev_def reply_ev_def accept_pin_evs_def recv_required_def recv_ok_def
        pin_events_def chunk_evs_def no_stream_def split: option.splits)
  from received_quiet [OF this, of None _ "transfer_evs W None rs out"] show ?thesis
    by (simp add: accept_evs_def transfer_received)
qed

lemma session_run:
  assumes W: "wire_format W" and sig: "signature_scheme C"
    and nonces: "validate_nonce (local_nonce_of S)" "validate_nonce (local_nonce_of R)"
    and expect: "expects C S R" "expects C R S"
    and pins: "passes (rp_pin R) psR (pin_answers ws)" "passes (rp_pin S) psS (pin_answers wr)"
    and worlds: "healthy ws" "healthy wr" "trace ws = []" "trace wr = []"
    and sel: "choice wr files = SelectionFiles ids" "set ids \<subseteq> fd_id ` set files"
    and some: "\<exists>f \<in> set (outgoing ws). fst f \<in> set ids"
  shows "\<exists>to_sender to_receiver ws' wr'.
    offer_task W C S files (ws\<lparr>rx := to_sender\<rparr>) = (Ok (Go ()), ws') \<and>
    accept_task W C R nt (wr\<lparr>rx := to_receiver\<rparr>) = (Ok (Go ()), wr') \<and>
    dc_out (trace ws') = to_receiver \<and> dc_out (trace wr') = to_sender \<and>
    received None (trace wr') =
      map (\<lambda>f. (fst f, concat (snd f))) (filter (\<lambda>f. fst f \<in> set ids) (outgoing ws)) \<and>
    observe shown_of (trace wr') = [files] \<and>
    (\<exists>sel. observe selected_of (trace ws') = [sel] \<and> set sel = set ids) \<and>
    set (observe status_of (trace ws') @ observe status_of (trace wr')) \<subseteq> {StatusPinRequired, Connected}"
proof -
  obtain ts tr where c: "compatible W C S R (local_nonce_of S @ local_nonce_of R) ts tr"
    using compatible_exists [OF W sig nonces expect] by blast
  define tokens where "tokens = file_tokens_of nt ids"
  define out where "out = sent_files tokens (outgoing ws)"
  define evs_s where "evs_s = offer_evs W S R ts psR psS files tokens (outgoing ws)"
  define evs_r where "evs_r = accept_evs W S R tr psR psS files tokens (file_results wr) out"
  note files = chosen_files [OF sel(2) some tokens_def]
  obtain ws' wr' where runs: "offer_task W C S files (ws\<lparr>rx := dc_out evs_r\<rparr>) = (Ok (Go ()), ws')" "trace ws' = evs_s"
    "accept_task W C R nt (wr\<lparr>rx := dc_out evs_s\<rparr>) = (Ok (Go ()), wr')" "trace wr' = evs_r"
    using session_runs [OF W c pins worlds sel some tokens_def out_def evs_s_def evs_r_def] by blast
  have "received None evs_r = map (\<lambda>f. (fst f, concat (snd f))) (filter (\<lambda>f. fst f \<in> set ids) (outgoing ws))"
    using files(3) by (simp add: evs_r_def accept_received out_def)
  moreover have "observe selected_of evs_s = [hm_keys tokens]" "observe shown_of evs_r = [files]"
    "set (observe status_of evs_s @ observe status_of evs_r) \<subseteq> {StatusPinRequired, Connected}"
    using offer_observed(1,2) accept_observed(1,2) by (simp_all add: evs_s_def evs_r_def)
  ultimately show ?thesis
    using runs files(2)
    by (intro exI [of _ "dc_out evs_r"] exI [of _ "dc_out evs_s"] exI [of _ ws'] exI [of _ wr']) simp
qed

text \<open>
  A peer whose right PIN comes after fewer wrong ones than there are tries passes the
  challenge of either side, which answers each wrong PIN by a notice.
\<close>

lemma pin_accepted:
  assumes "wire_format W" "healthy w" "rp_pin P = Some cfg"
    and "pc_pin cfg \<noteq> []" "pc_pin cfg \<notin> set wrong" "length wrong < unat (pc_max_tries cfg)"
    and "rx w = map (pin_msg W) (wrong @ [pc_pin cfg]) @ rest"
  shows "accept_verify_pin W P w = (Ok (), w\<lparr>rx := rest, trace := trace w @ EvStatus StatusPinRequired #
      map (\<lambda>m. EvText (to_json_string W enc_rtc_pin_receiving_response m))
        (replicate (length wrong) PinRecvRequired @ [PinRecvOk])\<rparr>) \<and>
    offer_verify_pin W P w = (Ok (), w\<lparr>rx := rest, trace := trace w @ EvStatus StatusPinRequired #
      concat (replicate (Suc (length wrong))
        (chunk_evs (to_json_string W enc_rtc_pin_sending_response PinSendRequired)))\<rparr>)"
proof -
  have "passes (rp_pin P) wrong (map PinGiven (wrong @ [pc_pin cfg]))"
    and "rx w = map (pin_msg W) (guesses (rp_pin P) wrong) @ rest"
    using assms by (simp_all add: passes_def guesses_def)
  note run = assms(1,2) this
  show ?thesis
    using accept_verify_pin_run [OF run] offer_verify_pin_run [OF run] assms(3)
    by (simp add: accept_pin_evs_def recv_required_def recv_ok_def offer_pin_evs_def send_required_def moved_def)
qed

end
