(* ===== verification/Rtc_Negotiation.thy ===== *)
theory Rtc_Negotiation
  imports Rtc_Session
begin

section \<open>Negotiating the connection (send_offer, accept_offer in core/src/webrtc/webrtc.rs)\<close>

text \<open>
  What \<open>send_offer\<close> and \<open>accept_offer\<close> do around the spawned task: create the peer
  connection, exchange session descriptions over the signaling server, wait for the task
  or for a disconnect, and close. The WebRTC library and the compression are third-party
  code: what the library's calls return is part of the world, in the trace appears what
  was called with what.
\<close>

subsection \<open>Session descriptions\<close>

record zlib =
  z_compress :: "bytes \<Rightarrow> bytes"
  z_decompress :: "bytes \<Rightarrow> bytes option"

locale zlib_library =
  fixes Z :: zlib
  assumes zlib_rt: "z_decompress Z (z_compress Z b) = Some b"

definition encode_sdp :: "wire \<Rightarrow> zlib \<Rightarrow> string \<Rightarrow> string" where
  "encode_sdp W Z s = b64_encode W (z_compress Z s)"

definition decode_sdp :: "wire \<Rightarrow> zlib \<Rightarrow> string \<Rightarrow> task_err + string" where
  "decode_sdp W Z s =
     rbind (ok_or (Ctx ''Base64 decode of SDP failed'' Base64Err) (b64_decode W s)) (\<lambda>decoded.
     ok_or (Ctx ''Failed to decompress SDP'' ZlibErr)
       (Option.bind (z_decompress Z decoded) from_utf8))"

lemma decode_encode_sdp:
  assumes "wire_format W" "zlib_library Z" "valid_utf8 s"
  shows "decode_sdp W Z (encode_sdp W Z s) = Inr s"
  using assms by (simp add: decode_sdp_def encode_sdp_def wire_format.b64_rt zlib_library.zlib_rt from_utf8_def)

definition ref_zlib :: zlib where
  "ref_zlib = \<lparr>z_compress = id, z_decompress = Some\<rparr>"

interpretation ref_zlib: zlib_library ref_zlib
  by unfold_locales (simp add: ref_zlib_def)

lemma ref_zlib_library: "zlib_library ref_zlib"
  by (rule ref_zlib.zlib_library_axioms)

subsection \<open>The world of the negotiation\<close>

datatype lib_call =
    NewPeerConnection | CreateDataChannel | CreateOffer | CreateAnswer | SetLocalDescription
  | ParseDescription | SetRemoteDescription | SignalOffer | SignalAnswer | ClosePeerConnection

datatype nego_event =
    NPeer "string list"
  | NDataChannel string bool
  | NCall lib_call
  | NOffer string uuid string
  | NOnAnswer string
  | NAnswer string uuid string
  | NStatus rtc_status
  | NRemote string
  | NCloseChannel
  | NClose

datatype session_end = TaskEnded "unit stage tres" | PeerDisconnected

text \<open>
  \<open>lib_ok\<close>: which library calls succeed. \<open>local_sdp\<close>: the local description after
  gathering, if there is one. \<open>answer\<close>: the answer that arrives, \<open>None\<close> when the callback
  is dropped. \<open>session_end\<close>: what the \<open>select!\<close> sees first.
\<close>

record nego_world =
  lib_ok :: "lib_call \<Rightarrow> bool"
  local_sdp :: "string option"
  new_session_id :: string
  answer :: "string option"
  sdp_status_open :: bool
  finished_status_open :: bool
  session_end :: session_end
  nego_calls :: "nego_event list"

type_synonym nego = "(nego_world, unit) task"

definition log_call :: "nego_event \<Rightarrow> nego" where
  "log_call e w = (Ok (), w\<lparr>nego_calls := nego_calls w @ [e]\<rparr>)"

definition lib :: "lib_call \<Rightarrow> nego_event \<Rightarrow> nego" where
  "lib c e w = (if lib_ok w c then log_call e w else (Err WebrtcErr, w))"

definition read_world :: "(nego_world \<Rightarrow> 'a) \<Rightarrow> (nego_world, 'a) task" where
  "read_world f w = (Ok (f w), w)"

definition of_sum :: "task_err + 'a \<Rightarrow> (nego_world, 'a) task" where
  "of_sum r = (case r of Inl e \<Rightarrow> fail e | Inr x \<Rightarrow> ret x)"

text \<open>
  \<open>create_peer_connection\<close>, and its callback: the \<open>done\<close> channel of capacity one holds a
  message as soon as the connection has been disconnected.
\<close>

definition create_peer_connection :: "string list \<Rightarrow> nego" where
  "create_peer_connection stun = lib NewPeerConnection (NPeer stun)"

datatype peer_state = PsNew | PsConnecting | PsConnected | PsDisconnected | PsFailed | PsClosed

fun on_peer_state :: "peer_state list \<Rightarrow> nat \<Rightarrow> nat" where
  "on_peer_state [] pending = pending"
| "on_peer_state (s # ss) pending =
     on_peer_state ss (if s = PsDisconnected \<and> pending = 0 then 1 else pending)"

definition CHANNEL_LABEL :: string where
  "CHANNEL_LABEL = ''data''"

text \<open>Only the channel with this label is taken over by the receiver.\<close>

definition accepts_channel :: "string \<Rightarrow> bool" where
  "accepts_channel label \<longleftrightarrow> label = CHANNEL_LABEL"

definition close_peer :: nego where
  "close_peer = lib ClosePeerConnection NClose"

text \<open>The status after the descriptions: without a listener the connection is closed.\<close>

definition report_exchanged :: nego where
  "report_exchanged =
     tbind (read_world sdp_status_open) (\<lambda>opn.
     if opn then log_call (NStatus SdpExchanged)
     else tbind close_peer (\<lambda>_. fail SendErr))"

definition report_finished :: nego where
  "report_finished =
     tbind (read_world finished_status_open) (\<lambda>opn. if opn then log_call (NStatus Finished) else ret ())"

text \<open>The \<open>select!\<close>: an error of the task is returned, a panic becomes an error.\<close>

definition await_session :: "string \<Rightarrow> nego" where
  "await_session what =
     tbind (read_world session_end) (\<lambda>s.
     case s of
       PeerDisconnected \<Rightarrow> ret ()
     | TaskEnded (Ok _) \<Rightarrow> ret ()
     | TaskEnded (Err e) \<Rightarrow> fail e
     | TaskEnded Panic \<Rightarrow> fail (Msg what))"

definition local_description :: "string \<Rightarrow> (nego_world, string) task" where
  "local_description missing =
     tbind (read_world local_sdp) (\<lambda>s. case s of None \<Rightarrow> fail (Msg missing) | Some sdp \<Rightarrow> ret sdp)"

subsection \<open>The channel\<close>

text \<open>
  The offering side creates the channel (ordered, no retransmission limit: reliable) with
  the connection. Its task starts when the channel opens; the callback is dropped
  unopened when the connection goes first.
\<close>

definition offer_channel :: "string list \<Rightarrow> nego" where
  "offer_channel stun_servers =
     tbind (create_peer_connection stun_servers) (\<lambda>_.
     lib CreateDataChannel (NDataChannel CHANNEL_LABEL True))"

definition send_task :: "wire \<Rightarrow> crypto \<Rightarrow> rtc_params \<Rightarrow> file_dto list \<Rightarrow> bool \<Rightarrow> unit stage rtc" where
  "send_task W C P files opens =
     (if opens then offer_task W C P files else fail (Msg ''Data channel not opened''))"

text \<open>
  The accepting side takes the first channel that opens under the agreed label; the others,
  by label in the order they open, are ignored.
\<close>

definition receive_task ::
    "wire \<Rightarrow> crypto \<Rightarrow> rtc_params \<Rightarrow> (nat \<Rightarrow> string) \<Rightarrow> string list \<Rightarrow> unit stage rtc" where
  "receive_task W C P new_token labels =
     (case filter accepts_channel labels of
        [] \<Rightarrow> fail (Msg ''Data channel not found'')
      | _ # _ \<Rightarrow> accept_task W C P new_token)"

subsection \<open>The offering side\<close>

definition send_offer :: "wire \<Rightarrow> zlib \<Rightarrow> string list \<Rightarrow> uuid \<Rightarrow> nego" where
  "send_offer W Z stun_servers target_id =
     tbind (offer_channel stun_servers) (\<lambda>_.
     tbind (lib CreateOffer (NCall CreateOffer)) (\<lambda>_.
     tbind (lib SetLocalDescription (NCall SetLocalDescription)) (\<lambda>_.
     tbind (read_world new_session_id) (\<lambda>session_id.
     tbind (local_description ''Could not generate local_description'') (\<lambda>sdp.
     tbind (lib SignalOffer (NOffer session_id target_id (encode_sdp W Z sdp))) (\<lambda>_.
     tbind (log_call (NOnAnswer session_id)) (\<lambda>_.
     tbind (tbind (read_world answer) (of_option RecvErr)) (\<lambda>remote_desc.
     tbind report_exchanged (\<lambda>_.
     tbind (of_sum (decode_sdp W Z remote_desc)) (\<lambda>remote_sdp.
     tbind (lib ParseDescription (NCall ParseDescription)) (\<lambda>_.
     tbind (lib SetRemoteDescription (NRemote remote_sdp)) (\<lambda>_.
     tbind (await_session ''Sending error'') (\<lambda>_.
     tbind report_finished (\<lambda>_.
     tbind (log_call NCloseChannel) (\<lambda>_.
     close_peer)))))))))))))))"

subsection \<open>The accepting side\<close>

definition accept_offer :: "wire \<Rightarrow> zlib \<Rightarrow> string list \<Rightarrow> string \<Rightarrow> uuid \<Rightarrow> string \<Rightarrow> nego" where
  "accept_offer W Z stun_servers session_id peer_id offer_sdp =
     tbind (create_peer_connection stun_servers) (\<lambda>_.
     tbind (of_sum (decode_sdp W Z offer_sdp)) (\<lambda>remote_sdp.
     tbind (lib ParseDescription (NCall ParseDescription)) (\<lambda>_.
     tbind (lib SetRemoteDescription (NRemote remote_sdp)) (\<lambda>_.
     tbind (lib CreateAnswer (NCall CreateAnswer)) (\<lambda>_.
     tbind (lib SetLocalDescription (NCall SetLocalDescription)) (\<lambda>_.
     tbind (local_description ''generate local_description failed!'') (\<lambda>sdp.
     tbind (lib SignalAnswer (NAnswer session_id peer_id (encode_sdp W Z sdp))) (\<lambda>_.
     tbind report_exchanged (\<lambda>_.
     tbind (await_session ''Receiving error'') (\<lambda>_.
     tbind report_finished (\<lambda>_.
     close_peer)))))))))))"

subsection \<open>Lemmas\<close>

lemma nego_simps:
  "log_call e w = (Ok (), w\<lparr>nego_calls := nego_calls w @ [e]\<rparr>)" "read_world f w = (Ok (f w), w)"
  "lib c e w = (if lib_ok w c then (Ok (), w\<lparr>nego_calls := nego_calls w @ [e]\<rparr>) else (Err WebrtcErr, w))"
  by (simp_all add: log_call_def read_world_def lib_def)

lemma on_peer_state_bound: "pending \<le> 1 \<Longrightarrow> on_peer_state ss pending \<le> 1"
  by (induction ss pending rule: on_peer_state.induct) auto

lemma on_peer_state_done: "on_peer_state ss 0 = 1 \<longleftrightarrow> PsDisconnected \<in> set ss"
proof -
  have one: "on_peer_state ss 1 = 1" for ss by (induction ss) auto
  show ?thesis by (induction ss) (auto simp: one [simplified])
qed

lemma send_offer_Ok:
  assumes "send_offer W Z stun target w = (Ok (), w')" "nego_calls w = []"
  obtains sdp remote remote_sdp where
    "local_sdp w = Some sdp" "answer w = Some remote" "decode_sdp W Z remote = Inr remote_sdp"
    "session_end w = PeerDisconnected \<or> (\<exists>x. session_end w = TaskEnded (Ok x))"
    "nego_calls w' = [NPeer stun, NDataChannel CHANNEL_LABEL True, NCall CreateOffer, NCall SetLocalDescription,
       NOffer (new_session_id w) target (encode_sdp W Z sdp), NOnAnswer (new_session_id w), NStatus SdpExchanged,
       NCall ParseDescription, NRemote remote_sdp] @ (if finished_status_open w then [NStatus Finished] else []) @
       [NCloseChannel, NClose]"
  using assms
  by (auto simp: send_offer_def offer_channel_def create_peer_connection_def tbind_def nego_simps local_description_def of_option_def
      report_exchanged_def close_peer_def of_sum_def await_session_def report_finished_def fail_def ret_def
      split: if_splits option.splits sum.splits session_end.splits tres.splits)

lemma accept_offer_Ok:
  assumes "accept_offer W Z stun sid peer offer w = (Ok (), w')" "nego_calls w = []"
  obtains sdp remote_sdp where
    "local_sdp w = Some sdp" "decode_sdp W Z offer = Inr remote_sdp"
    "session_end w = PeerDisconnected \<or> (\<exists>x. session_end w = TaskEnded (Ok x))"
    "nego_calls w' = [NPeer stun, NCall ParseDescription, NRemote remote_sdp, NCall CreateAnswer, NCall SetLocalDescription,
       NAnswer sid peer (encode_sdp W Z sdp), NStatus SdpExchanged] @
       (if finished_status_open w then [NStatus Finished] else []) @ [NClose]"
  using assms
  by (auto simp: accept_offer_def create_peer_connection_def tbind_def nego_simps local_description_def
      report_exchanged_def close_peer_def of_sum_def await_session_def report_finished_def fail_def ret_def
      split: if_splits option.splits sum.splits session_end.splits tres.splits)

text \<open>A negotiation in which no call of the library fails and the transfer ends well.\<close>

definition smooth :: "nego_world \<Rightarrow> bool" where
  "smooth w \<longleftrightarrow> (\<forall>c. lib_ok w c) \<and> sdp_status_open w \<and>
     (session_end w = PeerDisconnected \<or> (\<exists>x. session_end w = TaskEnded (Ok x)))"

lemma send_offer_smooth:
  assumes "smooth w" "local_sdp w = Some sdp" "answer w = Some remote" "decode_sdp W Z remote = Inr remote_sdp"
  shows "\<exists>w'. send_offer W Z stun target w = (Ok (), w')"
  using assms
  by (auto simp: smooth_def send_offer_def offer_channel_def create_peer_connection_def tbind_def nego_simps local_description_def
      of_option_def report_exchanged_def of_sum_def await_session_def report_finished_def close_peer_def ret_def)

lemma accept_offer_smooth:
  assumes "smooth w" "local_sdp w = Some sdp" "decode_sdp W Z off = Inr remote_sdp"
  shows "\<exists>w'. accept_offer W Z stun sid peer off w = (Ok (), w')"
  using assms
  by (auto simp: smooth_def accept_offer_def create_peer_connection_def tbind_def nego_simps local_description_def
      report_exchanged_def of_sum_def await_session_def report_finished_def close_peer_def ret_def)

end
