(* ===== verification/Signaling_Messages.thy ===== *)
theory Signaling_Messages
  imports Core_Model
begin

section \<open>Messages of the signaling protocol (core/src/webrtc/signaling.rs)\<close>

text \<open>
  The peers' descriptions and the messages between a client and the signaling server,
  with the JSON form their serde attributes define (an internally tagged \<open>type\<close> field,
  \<open>camelCase\<close> members). A UUID is printed and parsed by the wire format.
\<close>

record client_info =
  ci_id :: uuid
  ci_alias :: string
  ci_version :: string
  ci_device_model :: "string option"
  ci_device_type :: "device_type option"
  ci_token :: string

definition fields_client_info :: "wire \<Rightarrow> client_info \<Rightarrow> (string \<times> json) list" where
  "fields_client_info W x =
     [(''id'', enc_uuid W (ci_id x)),
      (''alias'', JStr (ci_alias x)),
      (''version'', JStr (ci_version x))] @
     opt_field ''deviceModel'' JStr (ci_device_model x) @
     opt_field ''deviceType'' enc_device_type (ci_device_type x) @
     [(''token'', JStr (ci_token x))]"

definition enc_client_info :: "wire \<Rightarrow> client_info \<Rightarrow> json" where
  "enc_client_info W x = JObj (fields_client_info W x)"

definition dec_client_info :: "wire \<Rightarrow> json \<Rightarrow> client_info option" where
  "dec_client_info W j = do {
     kvs \<leftarrow> dec_obj j;
     id \<leftarrow> fld kvs ''id'' (dec_uuid W);
     alias \<leftarrow> fld kvs ''alias'' dec_str;
     version \<leftarrow> fld kvs ''version'' dec_str;
     device_model \<leftarrow> fld_opt kvs ''deviceModel'' dec_str;
     device_type \<leftarrow> fld_opt kvs ''deviceType'' dec_device_type;
     token \<leftarrow> fld kvs ''token'' dec_str;
     Some \<lparr>ci_id = id, ci_alias = alias, ci_version = version, ci_device_model = device_model, ci_device_type = device_type, ci_token = token\<rparr>
   }"

lemma dec_enc_client_info [codec]:
  "wire_format W \<Longrightarrow> dec_client_info W (enc_client_info W x) = Some x"
  by (cases x) (simp add: dec_client_info_def enc_client_info_def fields_client_info_def codec dec_enc_uuid split: option.splits)

record client_info_without_id =
  cw_alias :: string
  cw_version :: string
  cw_device_model :: "string option"
  cw_device_type :: "device_type option"
  cw_token :: string

definition fields_client_info_without_id :: "client_info_without_id \<Rightarrow> (string \<times> json) list" where
  "fields_client_info_without_id x =
     [(''alias'', JStr (cw_alias x)),
      (''version'', JStr (cw_version x))] @
     opt_field ''deviceModel'' JStr (cw_device_model x) @
     opt_field ''deviceType'' enc_device_type (cw_device_type x) @
     [(''token'', JStr (cw_token x))]"

definition enc_client_info_without_id :: "client_info_without_id \<Rightarrow> json" where
  "enc_client_info_without_id x = JObj (fields_client_info_without_id x)"

definition dec_client_info_without_id :: "json \<Rightarrow> client_info_without_id option" where
  "dec_client_info_without_id j = do {
     kvs \<leftarrow> dec_obj j;
     alias \<leftarrow> fld kvs ''alias'' dec_str;
     version \<leftarrow> fld kvs ''version'' dec_str;
     device_model \<leftarrow> fld_opt kvs ''deviceModel'' dec_str;
     device_type \<leftarrow> fld_opt kvs ''deviceType'' dec_device_type;
     token \<leftarrow> fld kvs ''token'' dec_str;
     Some \<lparr>cw_alias = alias, cw_version = version, cw_device_model = device_model, cw_device_type = device_type, cw_token = token\<rparr>
   }"

lemma dec_enc_client_info_without_id [codec]:
  "dec_client_info_without_id (enc_client_info_without_id x) = Some x"
  by (cases x) (simp add: dec_client_info_without_id_def enc_client_info_without_id_def fields_client_info_without_id_def codec split: option.splits)

text \<open>\<open>ClientInfo::from\<close> and \<open>From<ClientInfo> for ClientInfoWithoutId\<close>.\<close>

definition client_info_from :: "client_info_without_id \<Rightarrow> uuid \<Rightarrow> client_info" where
  "client_info_from info i =
     \<lparr>ci_id = i, ci_alias = cw_alias info, ci_version = cw_version info,
      ci_device_model = cw_device_model info, ci_device_type = cw_device_type info,
      ci_token = cw_token info\<rparr>"

definition without_id :: "client_info \<Rightarrow> client_info_without_id" where
  "without_id info =
     \<lparr>cw_alias = ci_alias info, cw_version = ci_version info,
      cw_device_model = ci_device_model info, cw_device_type = ci_device_type info,
      cw_token = ci_token info\<rparr>"

lemma without_id_from [simp]: "without_id (client_info_from info i) = info"
  by (simp add: without_id_def client_info_from_def)

lemma from_without_id [simp]: "client_info_from (without_id c) (ci_id c) = c"
  by (simp add: without_id_def client_info_from_def)

lemma ci_id_from [simp]: "ci_id (client_info_from info i) = i"
  by (simp add: client_info_from_def)

record ws_server_sdp_message =
  sm_peer :: client_info
  sm_session_id :: string
  sm_sdp :: string

definition fields_ws_server_sdp_message :: "wire \<Rightarrow> ws_server_sdp_message \<Rightarrow> (string \<times> json) list" where
  "fields_ws_server_sdp_message W x =
     [(''peer'', enc_client_info W (sm_peer x)),
      (''sessionId'', JStr (sm_session_id x)),
      (''sdp'', JStr (sm_sdp x))]"

definition enc_ws_server_sdp_message :: "wire \<Rightarrow> ws_server_sdp_message \<Rightarrow> json" where
  "enc_ws_server_sdp_message W x = JObj (fields_ws_server_sdp_message W x)"

definition dec_ws_server_sdp_message :: "wire \<Rightarrow> json \<Rightarrow> ws_server_sdp_message option" where
  "dec_ws_server_sdp_message W j = do {
     kvs \<leftarrow> dec_obj j;
     peer \<leftarrow> fld kvs ''peer'' (dec_client_info W);
     session_id \<leftarrow> fld kvs ''sessionId'' dec_str;
     sdp \<leftarrow> fld kvs ''sdp'' dec_str;
     Some \<lparr>sm_peer = peer, sm_session_id = session_id, sm_sdp = sdp\<rparr>
   }"

lemma dec_enc_ws_server_sdp_message [codec]:
  "wire_format W \<Longrightarrow> dec_ws_server_sdp_message W (enc_ws_server_sdp_message W x) = Some x"
  by (cases x) (simp add: dec_ws_server_sdp_message_def enc_ws_server_sdp_message_def fields_ws_server_sdp_message_def codec dec_enc_uuid dec_enc_client_info split: option.splits)

record ws_client_sdp_message =
  cm_session_id :: string
  cm_target :: uuid
  cm_sdp :: string

definition fields_ws_client_sdp_message :: "wire \<Rightarrow> ws_client_sdp_message \<Rightarrow> (string \<times> json) list" where
  "fields_ws_client_sdp_message W x =
     [(''sessionId'', JStr (cm_session_id x)),
      (''target'', enc_uuid W (cm_target x)),
      (''sdp'', JStr (cm_sdp x))]"

definition enc_ws_client_sdp_message :: "wire \<Rightarrow> ws_client_sdp_message \<Rightarrow> json" where
  "enc_ws_client_sdp_message W x = JObj (fields_ws_client_sdp_message W x)"

definition dec_ws_client_sdp_message :: "wire \<Rightarrow> json \<Rightarrow> ws_client_sdp_message option" where
  "dec_ws_client_sdp_message W j = do {
     kvs \<leftarrow> dec_obj j;
     session_id \<leftarrow> fld kvs ''sessionId'' dec_str;
     target \<leftarrow> fld kvs ''target'' (dec_uuid W);
     sdp \<leftarrow> fld kvs ''sdp'' dec_str;
     Some \<lparr>cm_session_id = session_id, cm_target = target, cm_sdp = sdp\<rparr>
   }"

lemma dec_enc_ws_client_sdp_message [codec]:
  "wire_format W \<Longrightarrow> dec_ws_client_sdp_message W (enc_ws_client_sdp_message W x) = Some x"
  by (cases x) (simp add: dec_ws_client_sdp_message_def enc_ws_client_sdp_message_def fields_ws_client_sdp_message_def codec dec_enc_uuid split: option.splits)

subsection \<open>Server to client\<close>

datatype ws_server_message =
    SHello client_info "client_info list"
  | SJoin client_info
  | SUpdate client_info
  | SLeft uuid
  | SOffer ws_server_sdp_message
  | SAnswer ws_server_sdp_message
  | SError u16

fun enc_ws_server_message :: "wire \<Rightarrow> ws_server_message \<Rightarrow> json" where
  "enc_ws_server_message W (SHello c ps) =
     JObj [(''type'', JStr ''HELLO''), (''client'', enc_client_info W c),
           (''peers'', enc_list (enc_client_info W) ps)]"
| "enc_ws_server_message W (SJoin p) =
     JObj [(''type'', JStr ''JOIN''), (''peer'', enc_client_info W p)]"
| "enc_ws_server_message W (SUpdate p) =
     JObj [(''type'', JStr ''UPDATE''), (''peer'', enc_client_info W p)]"
| "enc_ws_server_message W (SLeft i) =
     JObj [(''type'', JStr ''LEFT''), (''peerId'', enc_uuid W i)]"
| "enc_ws_server_message W (SOffer m) =
     JObj ((''type'', JStr ''OFFER'') # fields_ws_server_sdp_message W m)"
| "enc_ws_server_message W (SAnswer m) =
     JObj ((''type'', JStr ''ANSWER'') # fields_ws_server_sdp_message W m)"
| "enc_ws_server_message W (SError code) =
     JObj [(''type'', JStr ''ERROR''), (''code'', enc_word code)]"

definition dec_ws_server_message :: "wire \<Rightarrow> json \<Rightarrow> ws_server_message option" where
  "dec_ws_server_message W j = do {
     kvs \<leftarrow> dec_obj j;
     t \<leftarrow> fld kvs ''type'' dec_str;
     (if t = ''HELLO'' then do {
        c \<leftarrow> fld kvs ''client'' (dec_client_info W);
        ps \<leftarrow> fld kvs ''peers'' (dec_list (dec_client_info W));
        Some (SHello c ps)
      }
      else if t = ''JOIN'' then map_option SJoin (fld kvs ''peer'' (dec_client_info W))
      else if t = ''UPDATE'' then map_option SUpdate (fld kvs ''peer'' (dec_client_info W))
      else if t = ''LEFT'' then map_option SLeft (fld kvs ''peerId'' (dec_uuid W))
      else if t = ''OFFER'' then map_option SOffer (dec_ws_server_sdp_message W j)
      else if t = ''ANSWER'' then map_option SAnswer (dec_ws_server_sdp_message W j)
      else if t = ''ERROR'' then map_option SError (fld kvs ''code'' dec_word)
      else None)
   }"

lemma dec_enc_ws_server_message [codec]:
  assumes "wire_format W"
  shows "dec_ws_server_message W (enc_ws_server_message W m) = Some m"
proof (cases m)
  case (SHello c ps)
  have "dec_list (dec_client_info W) (enc_list (enc_client_info W) ps) = Some ps"
    by (rule dec_enc_list) (rule dec_enc_client_info [OF assms])
  with SHello assms show ?thesis
    by (simp add: dec_ws_server_message_def codec)
next
  case (SOffer x)
  with assms show ?thesis
    by (cases x) (simp add: dec_ws_server_message_def dec_ws_server_sdp_message_def
        fields_ws_server_sdp_message_def codec)
next
  case (SAnswer x)
  with assms show ?thesis
    by (cases x) (simp add: dec_ws_server_message_def dec_ws_server_sdp_message_def
        fields_ws_server_sdp_message_def codec)
qed (use assms in \<open>simp_all add: dec_ws_server_message_def codec dec_enc_uuid\<close>)

subsection \<open>Client to server\<close>

datatype ws_client_message =
    CUpdate client_info_without_id
  | COffer ws_client_sdp_message
  | CAnswer ws_client_sdp_message

fun enc_ws_client_message :: "wire \<Rightarrow> ws_client_message \<Rightarrow> json" where
  "enc_ws_client_message W (CUpdate info) =
     JObj [(''type'', JStr ''UPDATE''), (''info'', enc_client_info_without_id info)]"
| "enc_ws_client_message W (COffer m) =
     JObj ((''type'', JStr ''OFFER'') # fields_ws_client_sdp_message W m)"
| "enc_ws_client_message W (CAnswer m) =
     JObj ((''type'', JStr ''ANSWER'') # fields_ws_client_sdp_message W m)"

definition dec_ws_client_message :: "wire \<Rightarrow> json \<Rightarrow> ws_client_message option" where
  "dec_ws_client_message W j = do {
     kvs \<leftarrow> dec_obj j;
     t \<leftarrow> fld kvs ''type'' dec_str;
     (if t = ''UPDATE'' then map_option CUpdate (fld kvs ''info'' dec_client_info_without_id)
      else if t = ''OFFER'' then map_option COffer (dec_ws_client_sdp_message W j)
      else if t = ''ANSWER'' then map_option CAnswer (dec_ws_client_sdp_message W j)
      else None)
   }"

lemma dec_enc_ws_client_message [codec]:
  assumes "wire_format W"
  shows "dec_ws_client_message W (enc_ws_client_message W m) = Some m"
proof (cases m)
  case (CUpdate x)
  then show ?thesis by (simp add: dec_ws_client_message_def codec)
next
  case (COffer x)
  with assms show ?thesis
    by (cases x) (simp add: dec_ws_client_message_def dec_ws_client_sdp_message_def
        fields_ws_client_sdp_message_def codec dec_enc_uuid)
next
  case (CAnswer x)
  with assms show ?thesis
    by (cases x) (simp add: dec_ws_client_message_def dec_ws_client_sdp_message_def
        fields_ws_client_sdp_message_def codec dec_enc_uuid)
qed

end
