(* ===== verification/Signaling_Connection.thy ===== *)
theory Signaling_Connection
  imports Signaling_Messages
begin

section \<open>The client's signaling connection (core/src/webrtc/signaling.rs)\<close>

text \<open>
  \<open>SignalingConnection::connect\<close> builds the request URI, starts a task that writes the
  queued messages to the websocket and one that reads the server's messages, and waits
  for the first \<open>HELLO\<close>. \<open>start_listener\<close> adds a table of callbacks, keyed by session
  id, that the answers are routed to. A task is a function of the sequence of things
  that happen to it; an \<open>mpsc\<close> channel is the list of the messages sent on it.
\<close>

subsection \<open>Connecting\<close>

definition connect_uri :: "wire \<Rightarrow> string \<Rightarrow> client_info_without_id \<Rightarrow> string" where
  "connect_uri W uri info =
     uri @ ''?d='' @ b64_encode W (to_json_string W enc_client_info_without_id info)"

text \<open>
  The writer: each turn waits for a queued message and writes it, both under one
  timeout of 120 seconds. \<open>NextMsg\<close>: a message came (and the write ended in time);
  \<open>StuckWrite\<close>: a message came, the write did not end in time and is abandoned;
  \<open>SenderGone\<close>: all senders are dropped; \<open>Elapsed\<close>: nothing came. The \<open>bool\<close> is
  whether the write to the socket in that turn succeeds.
\<close>

datatype send_wait = NextMsg ws_client_message | StuckWrite ws_client_message | SenderGone | Elapsed

datatype ws_frame = FText string | FPing bytes

fun send_loop :: "wire \<Rightarrow> (send_wait \<times> bool) list \<Rightarrow> ws_frame list" where
  "send_loop W [] = []"
| "send_loop W ((NextMsg m, ok) # es) =
     (if ok then FText (to_json_string W (enc_ws_client_message W) m) # send_loop W es else [])"
| "send_loop W ((SenderGone, ok) # es) = []"
| "send_loop W ((StuckWrite m, ok) # es) = (if ok then FPing [] # send_loop W es else [])"
| "send_loop W ((Elapsed, ok) # es) = (if ok then FPing [] # send_loop W es else [])"

text \<open>
  The reader: a frame that is text and parses is forwarded; a \<open>HELLO\<close> first hands its
  client to \<open>connect\<close>, and is not forwarded when nobody waits for it any more. The
  \<open>bool\<close> of a frame says whether \<open>client_tx\<close> still has its receiver.
\<close>

datatype ws_incoming = InText string | InOther | InErr

fun reader :: "wire \<Rightarrow> (ws_incoming \<times> bool) list \<Rightarrow> client_info list \<times> ws_server_message list" where
  "reader W [] = ([], [])"
| "reader W ((InText s, client_ok) # fs) =
     (let (cs, ms) = reader W fs in
      case from_json_slice W (dec_ws_server_message W) s of
        None \<Rightarrow> (cs, ms)
      | Some (SHello c ps) \<Rightarrow> if client_ok then (c # cs, SHello c ps # ms) else (cs, ms)
      | Some m \<Rightarrow> (cs, m # ms))"
| "reader W ((f, client_ok) # fs) = reader W fs"

text \<open>
  What \<open>connect\<close> returns once the reader has run: the first client it was handed;
  without one, the \<open>unwrap\<close> of the closed channel panics (\<open>None\<close>).
\<close>

definition connect_client :: "wire \<Rightarrow> (ws_incoming \<times> bool) list \<Rightarrow> client_info option" where
  "connect_client W fs = (case fst (reader W fs) of [] \<Rightarrow> None | c # _ \<Rightarrow> Some c)"

subsection \<open>Sending through the connection\<close>

text \<open>
  \<open>send_update\<close>, \<open>send_offer\<close>, \<open>send_answer\<close>: queue one message for the writer; an error
  when the writer is gone.
\<close>

definition sig_send ::
  "bool \<Rightarrow> ws_client_message list \<Rightarrow> ws_client_message \<Rightarrow> unit + ws_client_message list" where
  "sig_send alive q m = (if alive then Inr (q @ [m]) else Inl ())"

definition sig_send_update ::
  "bool \<Rightarrow> ws_client_message list \<Rightarrow> client_info_without_id \<Rightarrow> unit + ws_client_message list" where
  "sig_send_update alive q info = sig_send alive q (CUpdate info)"

definition sig_send_offer ::
  "bool \<Rightarrow> ws_client_message list \<Rightarrow> string \<Rightarrow> uuid \<Rightarrow> string \<Rightarrow> unit + ws_client_message list" where
  "sig_send_offer alive q session_id target sdp =
     sig_send alive q (COffer \<lparr>cm_session_id = session_id, cm_target = target, cm_sdp = sdp\<rparr>)"

definition sig_send_answer ::
  "bool \<Rightarrow> ws_client_message list \<Rightarrow> string \<Rightarrow> uuid \<Rightarrow> string \<Rightarrow> unit + ws_client_message list" where
  "sig_send_answer alive q session_id target sdp =
     sig_send alive q (CAnswer \<lparr>cm_session_id = session_id, cm_target = target, cm_sdp = sdp\<rparr>)"

subsection \<open>The listener and its callbacks\<close>

text \<open>
  The table is shared by the listener task and \<open>on_answer\<close> under a mutex, so a run is
  an interleaving of two kinds of steps. \<open>'cb\<close> names a callback.
\<close>

datatype 'cb sig_event = Incoming ws_server_message | OnAnswer string 'cb

record 'cb listener =
  on_answer :: "(string, 'cb) hashmap"
  calls :: "('cb \<times> ws_server_sdp_message) list"
  forwarded :: "ws_server_message list"

definition route_answer ::
  "(string, 'cb) hashmap \<Rightarrow> ws_server_message \<Rightarrow>
     (string, 'cb) hashmap \<times> ('cb \<times> ws_server_sdp_message) list" where
  "route_answer m msg =
     (case msg of
        SAnswer sdp \<Rightarrow>
          (case hm_get m (sm_session_id sdp) of
             Some cb \<Rightarrow> (hm_remove (sm_session_id sdp) m, [(cb, sdp)])
           | None \<Rightarrow> (m, []))
      | _ \<Rightarrow> (m, []))"

fun listener_step :: "'cb listener \<Rightarrow> 'cb sig_event \<Rightarrow> 'cb listener" where
  "listener_step s (Incoming msg) =
     (let (m, cs) = route_answer (on_answer s) msg in
      s\<lparr>on_answer := m, calls := calls s @ cs, forwarded := forwarded s @ [msg]\<rparr>)"
| "listener_step s (OnAnswer session_id cb) =
     s\<lparr>on_answer := hm_insert session_id cb (on_answer s)\<rparr>"

definition start_listener :: "'cb listener" where
  "start_listener = \<lparr>on_answer = hm_empty, calls = [], forwarded = []\<rparr>"

definition listen :: "'cb listener \<Rightarrow> 'cb sig_event list \<Rightarrow> 'cb listener" where
  "listen s es = foldl listener_step s es"

subsection \<open>Lemmas\<close>

fun incoming :: "'cb sig_event list \<Rightarrow> ws_server_message list" where
  "incoming [] = []"
| "incoming (Incoming m # es) = m # incoming es"
| "incoming (OnAnswer s cb # es) = incoming es"

fun first_answer :: "string \<Rightarrow> ws_server_message list \<Rightarrow> ws_server_sdp_message option" where
  "first_answer s [] = None"
| "first_answer s (SAnswer sdp # ms) =
     (if sm_session_id sdp = s then Some sdp else first_answer s ms)"
| "first_answer s (_ # ms) = first_answer s ms"

text \<open>Reading one message: the table changes only by losing the answered session.\<close>

lemma route_answer_get:
  assumes "hm_wf m" "route_answer m msg = (m', cs)"
  shows "hm_wf m'"
    and "hm_get m' k = (if \<exists>sdp. msg = SAnswer sdp \<and> sm_session_id sdp = k then None else hm_get m k)"
    and "cs = (case msg of SAnswer sdp \<Rightarrow>
                  (case hm_get m (sm_session_id sdp) of Some cb \<Rightarrow> [(cb, sdp)] | None \<Rightarrow> [])
               | _ \<Rightarrow> [])"
  using assms by (auto simp: route_answer_def hm split: ws_server_message.splits option.splits)

lemma route_answer_sub:
  assumes "hm_wf m" "route_answer m msg = (m', cs)" "hm_get m' k = Some cb"
  shows "hm_get m k = Some cb"
  using assms(3) route_answer_get(2) [OF assms(1,2), of k] by (simp split: if_splits)

lemma route_answer_calls:
  assumes "route_answer m msg = (m', cs)" "(cb, sdp) \<in> set cs"
  shows "msg = SAnswer sdp" "hm_get m (sm_session_id sdp) = Some cb"
  using assms by (auto simp: route_answer_def split: ws_server_message.splits option.splits)

lemma route_answer_no_call:
  assumes "route_answer m msg = (m', cs)" "\<forall>k. hm_get m k \<noteq> Some cb"
  shows "filter (\<lambda>c. fst c = cb) cs = []"
  using assms route_answer_calls(2) [OF assms(1)] by (fastforce simp: filter_empty_conv)

lemma listen_simps [simp]:
  "listen s [] = s" "listen s (e # es) = listen (listener_step s e) es"
  by (simp_all add: listen_def)

lemma listen_forwarded: "forwarded (listen s es) = forwarded s @ incoming es"
proof (induction es arbitrary: s)
  case Nil
  then show ?case by simp
next
  case (Cons e es)
  then show ?case by (cases e) (simp_all add: split_beta)
qed

lemma listener_step_wf: "hm_wf (on_answer s) \<Longrightarrow> hm_wf (on_answer (listener_step s e))"
  by (cases e) (auto simp: route_answer_def hm split: ws_server_message.splits option.splits)

text \<open>No callback of the table, none registered later: never called.\<close>

definition unused :: "'cb \<Rightarrow> 'cb listener \<Rightarrow> 'cb sig_event list \<Rightarrow> bool" where
  "unused cb s es \<longleftrightarrow> (\<forall>k. hm_get (on_answer s) k \<noteq> Some cb) \<and> (\<forall>k. OnAnswer k cb \<notin> set es)"

abbreviation calls_of :: "'cb \<Rightarrow> 'cb listener \<Rightarrow> ('cb \<times> ws_server_sdp_message) list" where
  "calls_of cb s \<equiv> filter (\<lambda>c. fst c = cb) (calls s)"

lemma listener_step_unused:
  assumes "hm_wf (on_answer s)" "unused cb s (e # es)"
  shows "unused cb (listener_step s e) es" "calls_of cb (listener_step s e) = calls_of cb s"
proof -
  have "unused cb (listener_step s e) es \<and> calls_of cb (listener_step s e) = calls_of cb s"
  proof (cases e)
    case (Incoming msg)
    obtain m' cs where r: "route_answer (on_answer s) msg = (m', cs)" by (cases "route_answer (on_answer s) msg")
    from assms(2) have free: "\<forall>k. hm_get (on_answer s) k \<noteq> Some cb"
      and es: "\<forall>k. OnAnswer k cb \<notin> set es" by (auto simp: unused_def)
    have "\<forall>k. hm_get m' k \<noteq> Some cb"
      using route_answer_sub [OF assms(1) r] free by blast
    with es route_answer_no_call [OF r free] Incoming show ?thesis
      by (simp add: r unused_def)
  next
    case (OnAnswer k c)
    with assms(2) have "c \<noteq> cb" by (auto simp: unused_def)
    with OnAnswer assms(2) show ?thesis by (simp add: unused_def hm.get_ins)
  qed
  then show "unused cb (listener_step s e) es" "calls_of cb (listener_step s e) = calls_of cb s" by simp_all
qed

lemma listen_unused:
  "hm_wf (on_answer s) \<Longrightarrow> unused cb s es \<Longrightarrow> calls_of cb (listen s es) = calls_of cb s"
proof (induction es arbitrary: s)
  case (Cons e es)
  then show ?case using Cons.IH [OF listener_step_wf] listener_step_unused [OF Cons.prems] by simp
qed simp

lemma listen_unused_table:
  "hm_wf (on_answer s) \<Longrightarrow> unused cb s es \<Longrightarrow> hm_get (on_answer (listen s es)) k \<noteq> Some cb"
proof (induction es arbitrary: s)
  case Nil
  then show ?case by (simp add: unused_def)
next
  case (Cons e es)
  then show ?case using Cons.IH [OF listener_step_wf] listener_step_unused(1) [OF Cons.prems] by simp
qed

lemma listen_wf: "hm_wf (on_answer s) \<Longrightarrow> hm_wf (on_answer (listen s es))"
  by (induction es arbitrary: s) (simp_all add: listener_step_wf)

text \<open>
  The callback registered for a session: as long as the session id is not registered
  again, it is called with the first answer of the session, once.
\<close>

definition only_key :: "'cb \<Rightarrow> string \<Rightarrow> (string, 'cb) hashmap \<Rightarrow> bool" where
  "only_key cb k m \<longleftrightarrow> (\<forall>j. hm_get m j = Some cb \<longrightarrow> j = k)"

lemma only_keyD: "only_key cb k m \<Longrightarrow> hm_get m j = Some cb \<Longrightarrow> j = k"
  by (auto simp: only_key_def)

lemma only_key_insert: "only_key cb k m \<Longrightarrow> c \<noteq> cb \<Longrightarrow> only_key cb k (hm_insert j c m)"
  unfolding only_key_def by (metis hm.get_ins option.inject)

lemma only_key_route:
  "only_key cb k m \<Longrightarrow> hm_wf m \<Longrightarrow> route_answer m msg = (m', cs) \<Longrightarrow> only_key cb k m'"
  unfolding only_key_def by (metis route_answer_sub)

lemma listen_registered:
  assumes "hm_wf (on_answer s)" "hm_get (on_answer s) k = Some cb" "only_key cb k (on_answer s)"
    and "\<forall>j c. OnAnswer j c \<in> set es \<longrightarrow> j \<noteq> k \<and> c \<noteq> cb"
  shows "calls_of cb (listen s es) =
    calls_of cb s @ (case first_answer k (incoming es) of None \<Rightarrow> [] | Some sdp \<Rightarrow> [(cb, sdp)])"
  using assms
proof (induction es arbitrary: s)
  case Nil
  show ?case by simp
next
  case (Cons e es)
  let ?s = "listener_step s e"
  have wf: "hm_wf (on_answer ?s)" using Cons.prems(1) by (rule listener_step_wf)
  have rest: "\<forall>j c. OnAnswer j c \<in> set es \<longrightarrow> j \<noteq> k \<and> c \<noteq> cb" using Cons.prems(4) by auto
  show ?case
  proof (cases e)
    case (OnAnswer j c)
    with Cons.prems(4) have "j \<noteq> k" "c \<noteq> cb" by auto
    with OnAnswer Cons.prems(2,3) have "hm_get (on_answer ?s) k = Some cb" "only_key cb k (on_answer ?s)"
      by (simp_all add: hm.get_ins only_key_insert)
    from Cons.IH [OF wf this rest] OnAnswer show ?thesis by simp
  next
    case (Incoming msg)
    obtain m' cs where r: "route_answer (on_answer s) msg = (m', cs)"
      by (cases "route_answer (on_answer s) msg")
    have s': "on_answer ?s = m'" "calls ?s = calls s @ cs" using Incoming by (simp_all add: r)
    have only: "only_key cb k m'" by (rule only_key_route [OF Cons.prems(3,1) r])
    show ?thesis
    proof (cases "\<exists>sdp. msg = SAnswer sdp \<and> sm_session_id sdp = k")
      case True
      then obtain sdp where msg: "msg = SAnswer sdp" "sm_session_id sdp = k" by blast
      have cs: "cs = [(cb, sdp)]" using r msg Cons.prems(2) by (simp add: route_answer_def)
      have "hm_get m' k = None" using route_answer_get(2) [OF Cons.prems(1) r, of k] msg by simp
      then have "\<forall>j. hm_get m' j \<noteq> Some cb" using only_keyD [OF only] by force
      then have "unused cb ?s es" using rest s' by (auto simp: unused_def)
      from listen_unused [OF wf this] have "calls_of cb (listen ?s es) = calls_of cb s @ [(cb, sdp)]"
        by (simp only: s' cs) simp
      with Incoming msg show ?thesis by simp
    next
      case False
      then have get: "hm_get (on_answer ?s) k = Some cb"
        using route_answer_get(2) [OF Cons.prems(1) r, of k] Cons.prems(2) s' by auto
      have "filter (\<lambda>c. fst c = cb) cs = []"
        using False route_answer_calls [OF r] only_keyD [OF Cons.prems(3)]
        by (fastforce simp: filter_empty_conv)
      moreover have "first_answer k (incoming (e # es)) = first_answer k (incoming es)"
        using False Incoming by (cases msg) auto
      moreover have "only_key cb k (on_answer ?s)" using only s' by simp
      ultimately show ?thesis using Cons.IH [OF wf get _ rest] by (simp add: s'(2))
    qed
  qed
qed

text \<open>
  A callback registered for a session is called with the first answer of this session that
  arrives after the registration, exactly once, and with nothing else, whatever other messages
  arrive and whatever other callbacks are registered meanwhile. Every message is also passed
  on to the application, in order.
\<close>

lemma answer_callback:
  assumes "\<forall>j. OnAnswer j cb \<notin> set before"
    and "\<forall>j c. OnAnswer j c \<in> set after \<longrightarrow> j \<noteq> k \<and> c \<noteq> cb"
  shows "calls_of cb (listen start_listener (before @ OnAnswer k cb # after)) =
      (case first_answer k (incoming after) of None \<Rightarrow> [] | Some sdp \<Rightarrow> [(cb, sdp)]) \<and>
    forwarded (listen start_listener (before @ OnAnswer k cb # after)) = incoming before @ incoming after"
proof -
  let ?s = "listen start_listener before" and ?t = "listener_step (listen start_listener before) (OnAnswer k cb)"
  have wf: "hm_wf (on_answer ?s)" by (rule listen_wf) (simp add: start_listener_def hm)
  have "unused cb start_listener before" using assms(1) by (simp add: unused_def start_listener_def hm)
  then have free: "\<forall>j. hm_get (on_answer ?s) j \<noteq> Some cb" and none: "calls_of cb ?s = []"
    using listen_unused_table [of start_listener cb before] listen_unused [of start_listener cb before]
    by (simp_all add: start_listener_def hm)
  have "hm_wf (on_answer ?t)" "hm_get (on_answer ?t) k = Some cb" "only_key cb k (on_answer ?t)"
    using wf free by (auto simp: hm only_key_def split: if_splits)
  from listen_registered [OF this assms(2)] none show ?thesis
    by (simp add: listen_def listen_forwarded [unfolded listen_def] start_listener_def)
qed

text \<open>The writer, when every write succeeds and the senders stay alive.\<close>

fun frame_of :: "wire \<Rightarrow> send_wait \<Rightarrow> ws_frame list" where
  "frame_of W (NextMsg m) = [FText (to_json_string W (enc_ws_client_message W) m)]"
| "frame_of W (StuckWrite m) = [FPing []]"
| "frame_of W SenderGone = []"
| "frame_of W Elapsed = [FPing []]"

lemma send_loop_alive:
  "SenderGone \<notin> set ws \<Longrightarrow>
     send_loop W (map (\<lambda>w. (w, True)) ws @ es) = concat (map (frame_of W) ws) @ send_loop W es"
proof (induction ws)
  case Nil
  then show ?case by simp
next
  case (Cons w ws)
  then show ?case by (cases w) auto
qed

lemma reader_messages:
  assumes "wire_format W" "\<forall>m\<in>set ms. \<forall>c ps. m \<noteq> SHello c ps"
  shows "reader W (map (\<lambda>m. (InText (to_json_string W (enc_ws_server_message W) m), b)) ms @ fs) =
    (fst (reader W fs), ms @ snd (reader W fs))"
  using assms(2)
proof (induction ms)
  case Nil
  then show ?case by simp
next
  case (Cons m ms)
  from assms(1) have "from_json_slice W (dec_ws_server_message W)
      (to_json_string W (enc_ws_server_message W) m) = Some m"
    by (intro from_json_slice_codec dec_enc_ws_server_message)
  with Cons show ?case by (cases m) (auto simp: split_beta)
qed

end
