(* ===== verification/App_Webrtc.thy ===== *)
theory App_Webrtc
  imports Rtc_Negotiation Signaling_Connection
begin

section \<open>Signaling and transfers in the application's interface (app/rust/src/api/webrtc.rs)\<close>

text \<open>
  The functions the user interface calls: signing in at the signaling server, starting a
  transfer, and the controllers of a transfer. A channel of which the application holds
  the receiving end is the list of what will arrive in it; an end in a cell can be taken once.
\<close>

subsection \<open>Signing in (webrtc.rs)\<close>

record proposing_client_info =
  pi_alias :: string
  pi_version :: string
  pi_device_model :: "string option"
  pi_device_type :: "device_type option"

definition sign_info ::
    "wire \<Rightarrow> crypto \<Rightarrow> u64 option \<Rightarrow> proposing_client_info \<Rightarrow> bytes \<Rightarrow> client_info_without_id option" where
  "sign_info W C now info signing_key =
     map_option (\<lambda>tok.
       \<lparr>cw_alias = pi_alias info, cw_version = pi_version info, cw_device_model = pi_device_model info,
        cw_device_type = pi_device_type info, cw_token = tok\<rparr>)
       (generate_token_timestamp W C now signing_key)"

text \<open>What the sink of \<open>connect\<close> gets: one error, or the messages of the connection.\<close>

datatype sink_item = SinkError string | SinkMessage ws_server_message

definition app_connect ::
    "wire \<Rightarrow> crypto \<Rightarrow> u64 option \<Rightarrow> (string \<Rightarrow> client_info_without_id \<Rightarrow> string + ws_server_message list) \<Rightarrow>
       string \<Rightarrow> proposing_client_info \<Rightarrow> string \<Rightarrow> sink_item list" where
  "app_connect W C now signaling uri info private_key =
     (case parse_private_key C private_key of
        None \<Rightarrow> [SinkError ''Invalid private key'']
      | Some signing_key \<Rightarrow>
          (case sign_info W C now info signing_key of
             None \<Rightarrow> [SinkError ''Invalid client info'']
           | Some client_info \<Rightarrow>
               (case signaling uri client_info of
                  Inl e \<Rightarrow> [SinkError e]
                | Inr messages \<Rightarrow> map SinkMessage messages)))"

text \<open>\<open>update_info\<close> passes the description on to the connection.\<close>

definition app_update_info ::
    "bool \<Rightarrow> ws_client_message list \<Rightarrow> client_info_without_id \<Rightarrow> unit + ws_client_message list" where
  "app_update_info alive q info = sig_send_update alive q info"

subsection \<open>The parameters of a transfer\<close>

record expecting_public_key =
  ek_public_key :: string
  ek_kind :: string

text \<open>
  The keys are parsed before anything is spawned; \<open>Inl ()\<close> stands for the error of the key
  library, which is returned.
\<close>

definition parse_expecting :: "crypto \<Rightarrow> expecting_public_key option \<Rightarrow> unit + verifying_key option" where
  "parse_expecting C key =
     (case key of
        None \<Rightarrow> Inr None
      | Some k \<Rightarrow> rbind (ok_or () (parse_public_key C (ek_public_key k) (ek_kind k))) (\<lambda>v. Inr (Some v)))"

definition transfer_params ::
    "crypto \<Rightarrow> (bytes \<Rightarrow> bytes) \<Rightarrow> string \<Rightarrow> expecting_public_key option \<Rightarrow> pin_config option \<Rightarrow> unit + rtc_params" where
  "transfer_params C fill private_key expecting pin =
     rbind (ok_or () (parse_private_key C private_key)) (\<lambda>signing_key.
     rbind (parse_expecting C expecting) (\<lambda>expecting_key.
     Inr \<lparr>rp_signing_key = signing_key, rp_expecting_public_key = expecting_key, rp_pin = pin, rp_fill = fill\<rparr>))"

text \<open>An error of the whole transfer is reported as its last status.\<close>

definition last_status :: "unit tres \<Rightarrow> rtc_status list" where
  "last_status r = (case r of Err e \<Rightarrow> [StatusError e] | _ \<Rightarrow> [])"

text \<open>Pairing is not supported yet: the task answers every request with no.\<close>

definition pair_responder :: "bool \<Rightarrow> pair_answer" where
  "pair_responder alive = (if alive then PairAnswer False else PairDropped)"

subsection \<open>Runs of a transfer\<close>

text \<open>
  \<open>send_offer\<close> with the task it spawns: the negotiation waits for the result of the task.
  \<open>opens\<close>: whether the data channel opens, as it does only after both descriptions are set.
\<close>

definition offer_run ::
    "wire \<Rightarrow> zlib \<Rightarrow> crypto \<Rightarrow> string list \<Rightarrow> uuid \<Rightarrow> rtc_params \<Rightarrow> file_dto list \<Rightarrow> bool \<Rightarrow> nego_world \<Rightarrow> rtc_world \<Rightarrow>
       unit tres \<times> nego_world \<times> rtc_world" where
  "offer_run W Z C stun_servers target P files opens n w =
     (let (t, w') = send_task W C P files opens w;
          (r, n') = send_offer W Z stun_servers target (n\<lparr>session_end := TaskEnded t\<rparr>)
      in (r, n', w'))"

text \<open>\<open>accept_offer\<close> likewise; \<open>labels\<close>: the channels that open.\<close>

definition accept_run ::
    "wire \<Rightarrow> zlib \<Rightarrow> crypto \<Rightarrow> string list \<Rightarrow> ws_server_sdp_message \<Rightarrow> rtc_params \<Rightarrow> (nat \<Rightarrow> string) \<Rightarrow> string list \<Rightarrow>
       nego_world \<Rightarrow> rtc_world \<Rightarrow> unit tres \<times> nego_world \<times> rtc_world" where
  "accept_run W Z C stun_servers off P new_token labels n w =
     (let (t, w') = receive_task W C P new_token labels w;
          (r, n') = accept_offer W Z stun_servers (sm_session_id off) (ci_id (sm_peer off)) (sm_sdp off)
            (n\<lparr>session_end := TaskEnded t\<rparr>)
      in (r, n', w'))"

text \<open>
  The status channel: the negotiation reports before the channel can open and after the task
  has ended, the task in between, and the spawned function last.
\<close>

fun nego_status :: "nego_event \<Rightarrow> rtc_status option" where
  "nego_status (NStatus s) = Some s"
| "nego_status _ = None"

definition all_statuses :: "nego_world \<Rightarrow> rtc_world \<Rightarrow> unit tres \<Rightarrow> rtc_status list" where
  "all_statuses n w r =
     (let ns = List.map_filter nego_status (nego_calls n) in
      filter (\<lambda>s. s = SdpExchanged) ns @ observe status_of (trace w) @ filter (\<lambda>s. s \<noteq> SdpExchanged) ns @ last_status r)"

text \<open>The receiving channel: each file with the blocks of its stream.\<close>

fun streams :: "(string \<times> bytes list) option \<Rightarrow> event list \<Rightarrow> (string \<times> bytes list) list" where
  "streams cur [] = (case cur of None \<Rightarrow> [] | Some f \<Rightarrow> [f])"
| "streams cur (e # es) =
     (case e of
        EvReceiving i \<Rightarrow> (case cur of None \<Rightarrow> [] | Some f \<Rightarrow> [f]) @ streams (Some (i, [])) es
      | EvChunk i b \<Rightarrow> streams (map_option (\<lambda>(j, bs). (j, bs @ [b])) cur) es
      | EvFileClosed i \<Rightarrow> (case cur of None \<Rightarrow> streams None es | Some f \<Rightarrow> f # streams None es)
      | _ \<Rightarrow> streams cur es)"

subsection \<open>Cells\<close>

text \<open>\<open>lock().await.take()\<close>.\<close>

definition take_cell :: "'a option \<Rightarrow> 'a option \<times> 'a option" where
  "take_cell c = (c, None)"

subsection \<open>The controller of a sending transfer\<close>

text \<open>
  A one-shot sender in a cell is the flag whether the other end still exists. What the
  application sends is kept in the record: it is what the transfer task gets to see.
\<close>

record send_controller =
  sc_status_rx :: "rtc_status list"
  sc_selected_rx :: "string list option option"
  sc_error_rx :: "rtc_file_error list"
  sc_pin_tx :: "bool option"
  sc_send_open :: bool
  sc_pins :: "string list"
  sc_sent :: "string list"

definition app_send_offer ::
    "wire \<Rightarrow> zlib \<Rightarrow> crypto \<Rightarrow> (bytes \<Rightarrow> bytes) \<Rightarrow> string list \<Rightarrow> uuid \<Rightarrow> string \<Rightarrow> expecting_public_key option \<Rightarrow>
       pin_config option \<Rightarrow> file_dto list \<Rightarrow> bool \<Rightarrow> nego_world \<Rightarrow> rtc_world \<Rightarrow> unit + send_controller" where
  "app_send_offer W Z C fill stun_servers target private_key expecting pin files opens n w =
     rbind (transfer_params C fill private_key expecting pin) (\<lambda>P.
     let (r, n', w') = offer_run W Z C stun_servers target P files opens n (w\<lparr>pair_with := pair_responder True\<rparr>) in
     Inr \<lparr>sc_status_rx = all_statuses n' w' r,
          sc_selected_rx = Some (case observe selected_of (trace w') of [] \<Rightarrow> None | sel # _ \<Rightarrow> Some sel),
          sc_error_rx = observe error_of (trace w'), sc_pin_tx = None, sc_send_open = True, sc_pins = [], sc_sent = []\<rparr>)"

definition sc_listen_status :: "send_controller \<Rightarrow> rtc_status list \<times> send_controller" where
  "sc_listen_status c = (sc_status_rx c, c\<lparr>sc_status_rx := []\<rparr>)"

definition sc_listen_error :: "send_controller \<Rightarrow> rtc_file_error list \<times> send_controller" where
  "sc_listen_error c = (sc_error_rx c, c\<lparr>sc_error_rx := []\<rparr>)"

definition sc_listen_selected :: "send_controller \<Rightarrow> (string + string list) \<times> send_controller" where
  "sc_listen_selected c =
     (let (rx, rest) = take_cell (sc_selected_rx c); c' = c\<lparr>sc_selected_rx := rest\<rparr> in
      case rx of
        None \<Rightarrow> (Inl ''Selected files already received'', c')
      | Some None \<Rightarrow> (Inl ''Selected files channel closed'', c')
      | Some (Some sel) \<Rightarrow> (Inr sel, c'))"

definition sc_send_pin :: "string \<Rightarrow> send_controller \<Rightarrow> (string + unit) \<times> send_controller" where
  "sc_send_pin pin c =
     (let (tx, rest) = take_cell (sc_pin_tx c); c' = c\<lparr>sc_pin_tx := rest\<rparr> in
      case tx of
        None \<Rightarrow> (Inl ''Pin already sent'', c')
      | Some False \<Rightarrow> (Inl ''Pin channel closed'', c')
      | Some True \<Rightarrow> (Inr (), c'\<lparr>sc_pins := sc_pins c' @ [pin]\<rparr>))"

text \<open>The background task: a new request for a PIN replaces the sender in the cell.\<close>

definition sc_pin_request :: "send_controller \<Rightarrow> send_controller" where
  "sc_pin_request c = c\<lparr>sc_pin_tx := Some True\<rparr>"

text \<open>\<open>send_file\<close> hands a new file to the task and returns the sender of its stream.\<close>

record file_sender =
  fs_open :: bool
  fs_blocks :: "bytes list"

definition sc_send_file :: "string \<Rightarrow> send_controller \<Rightarrow> (unit + file_sender) \<times> send_controller" where
  "sc_send_file file_id c =
     (if sc_send_open c
      then (Inr \<lparr>fs_open = True, fs_blocks = []\<rparr>, c\<lparr>sc_sent := sc_sent c @ [file_id]\<rparr>)
      else (Inl (), c))"

definition file_sender_send :: "bytes \<Rightarrow> file_sender \<Rightarrow> (unit + unit) \<times> file_sender" where
  "file_sender_send data f =
     (if fs_open f then (Inr (), f\<lparr>fs_blocks := fs_blocks f @ [data]\<rparr>) else (Inl (), f))"

subsection \<open>The controller of a receiving transfer\<close>

record receive_controller =
  rc_status_rx :: "rtc_status list option"
  rc_files_rx :: "file_dto list option option"
  rc_selected_tx :: "bool option"
  rc_error_rx :: "rtc_file_error list option"
  rc_pin_tx :: "bool option"
  rc_receiving_rx :: "(string \<times> bytes list) list option"
  rc_file_status_open :: bool
  rc_selections :: "selection list"
  rc_pins :: "string list"
  rc_file_statuses :: "rtc_send_file_response list"

definition app_accept_offer ::
    "wire \<Rightarrow> zlib \<Rightarrow> crypto \<Rightarrow> (bytes \<Rightarrow> bytes) \<Rightarrow> (nat \<Rightarrow> string) \<Rightarrow> string list \<Rightarrow> ws_server_sdp_message \<Rightarrow> string \<Rightarrow>
       expecting_public_key option \<Rightarrow> pin_config option \<Rightarrow> string list \<Rightarrow> nego_world \<Rightarrow> rtc_world \<Rightarrow>
       unit + receive_controller" where
  "app_accept_offer W Z C fill new_token stun_servers off private_key expecting pin labels n w =
     rbind (transfer_params C fill private_key expecting pin) (\<lambda>P.
     let (r, n', w') = accept_run W Z C stun_servers off P new_token labels n w in
     Inr \<lparr>rc_status_rx = Some (all_statuses n' w' r),
          rc_files_rx = Some (case observe shown_of (trace w') of [] \<Rightarrow> None | fs # _ \<Rightarrow> Some fs),
          rc_selected_tx = Some True, rc_error_rx = Some (observe error_of (trace w')), rc_pin_tx = None,
          rc_receiving_rx = Some (streams None (trace w')), rc_file_status_open = True,
          rc_selections = [], rc_pins = [], rc_file_statuses = []\<rparr>)"

definition rc_listen_status :: "receive_controller \<Rightarrow> (string + rtc_status list) \<times> receive_controller" where
  "rc_listen_status c =
     (let (rx, rest) = take_cell (rc_status_rx c); c' = c\<lparr>rc_status_rx := rest\<rparr> in
      (ok_or ''Status stream already listened to'' rx, c'))"

definition rc_listen_files :: "receive_controller \<Rightarrow> (string + file_dto list) \<times> receive_controller" where
  "rc_listen_files c =
     (let (rx, rest) = take_cell (rc_files_rx c); c' = c\<lparr>rc_files_rx := rest\<rparr> in
      case rx of
        None \<Rightarrow> (Inl ''Files already received'', c')
      | Some None \<Rightarrow> (Inl ''Files channel closed'', c')
      | Some (Some files) \<Rightarrow> (Inr files, c'))"

definition rc_send_pin :: "string \<Rightarrow> receive_controller \<Rightarrow> (string + unit) \<times> receive_controller" where
  "rc_send_pin pin c =
     (let (tx, rest) = take_cell (rc_pin_tx c); c' = c\<lparr>rc_pin_tx := rest\<rparr> in
      case tx of
        None \<Rightarrow> (Inl ''Pin already sent'', c')
      | Some False \<Rightarrow> (Inl ''Pin channel closed'', c')
      | Some True \<Rightarrow> (Inr (), c'\<lparr>rc_pins := rc_pins c' @ [pin]\<rparr>))"

definition rc_pin_request :: "receive_controller \<Rightarrow> receive_controller" where
  "rc_pin_request c = c\<lparr>rc_pin_tx := Some True\<rparr>"

definition rc_choose :: "selection \<Rightarrow> receive_controller \<Rightarrow> (string + unit) \<times> receive_controller" where
  "rc_choose sel c =
     (let (tx, rest) = take_cell (rc_selected_tx c); c' = c\<lparr>rc_selected_tx := rest\<rparr> in
      case tx of
        None \<Rightarrow> (Inl ''Selected files already sent'', c')
      | Some False \<Rightarrow> (Inl ''Selected files channel closed'', c')
      | Some True \<Rightarrow> (Inr (), c'\<lparr>rc_selections := rc_selections c' @ [sel]\<rparr>))"

definition rc_send_selection :: "string list \<Rightarrow> receive_controller \<Rightarrow> (string + unit) \<times> receive_controller" where
  "rc_send_selection ids = rc_choose (SelectionFiles ids)"

definition rc_decline :: "receive_controller \<Rightarrow> (string + unit) \<times> receive_controller" where
  "rc_decline = rc_choose SelectionDeclined"

definition rc_listen_error :: "receive_controller \<Rightarrow> (string + rtc_file_error list) \<times> receive_controller" where
  "rc_listen_error c =
     (let (rx, rest) = take_cell (rc_error_rx c); c' = c\<lparr>rc_error_rx := rest\<rparr> in
      (ok_or ''Error stream already listened to'' rx, c'))"

definition rc_listen_receiving ::
    "receive_controller \<Rightarrow> (string + (string \<times> bytes list) list) \<times> receive_controller" where
  "rc_listen_receiving c =
     (let (rx, rest) = take_cell (rc_receiving_rx c); c' = c\<lparr>rc_receiving_rx := rest\<rparr> in
      (ok_or ''Receiving stream already listened to'' rx, c'))"

definition rc_send_file_status :: "rtc_send_file_response \<Rightarrow> receive_controller \<Rightarrow> (unit + unit) \<times> receive_controller" where
  "rc_send_file_status status c =
     (if rc_file_status_open c then (Inr (), c\<lparr>rc_file_statuses := rc_file_statuses c @ [status]\<rparr>) else (Inl (), c))"

text \<open>\<open>RTCFileReceiver::receive\<close>: the stream of a file, regrouped for the user interface.\<close>

record file_receiver =
  fv_file_id :: string
  fv_binary_rx :: "bytes list option"

definition get_file_id :: "file_receiver \<Rightarrow> string" where
  "get_file_id f = fv_file_id f"

definition fv_receive :: "(bytes \<Rightarrow> unit rtc) \<Rightarrow> file_receiver \<Rightarrow> (string + unit rtc) \<times> file_receiver" where
  "fv_receive sink f =
     (let (blocks, rest) = take_cell (fv_binary_rx f); f' = f\<lparr>fv_binary_rx := rest\<rparr> in
      case blocks of
        None \<Rightarrow> (Inl ''File receiver listened to'', f')
      | Some blocks \<Rightarrow> (Inr (buffer_receiver sink blocks), f'))"

subsection \<open>Lemmas\<close>

lemma streams_received:
  "stream_end (map_option fst cur) es = Some None \<Longrightarrow>
   map (\<lambda>(i, bs). (i, concat bs)) (streams cur es) = received (map_option (\<lambda>(i, bs). (i, concat bs)) cur) es"
proof (induction es arbitrary: cur)
  case (Cons e es)
  have "map_option (\<lambda>(i, bs). (i, concat bs)) (map_option (\<lambda>(j, bs). (j, bs @ [b])) cur) =
      map_option (\<lambda>(j, d). (j, d @ b)) (map_option (\<lambda>(i, bs). (i, concat bs)) cur)"
    "map_option fst (map_option (\<lambda>(j, bs). (j, bs @ [b])) cur) = map_option fst cur" for b
    by (cases cur; auto)+
  then show ?case using Cons.prems Cons.IH [of cur] Cons.IH [of None] Cons.IH [of "Some (i, [])" for i]
      Cons.IH [of "map_option (\<lambda>(j, bs). (j, bs @ [b])) cur" for b]
    by (cases e; cases cur) (auto split: if_splits)
qed (auto split: option.splits)

text \<open>A negotiation that has not begun and in which nothing fails.\<close>

definition ready :: "nego_world \<Rightarrow> bool" where
  "ready n \<longleftrightarrow> (\<forall>c. lib_ok n c) \<and> sdp_status_open n \<and> finished_status_open n \<and> nego_calls n = []"

lemma ready_smooth: "ready n \<Longrightarrow> smooth (n\<lparr>session_end := TaskEnded (Ok x)\<rparr>)"
  by (simp add: ready_def smooth_def)

lemma offer_run_Ok:
  assumes n: "ready n" "local_sdp n = Some sdp" "answer n = Some remote" "decode_sdp W Z remote = Inr remote_sdp"
    and task: "offer_task W C P files w = (Ok x, w')"
  obtains n' where "offer_run W Z C stun target P files True n w = (Ok (), n', w')"
    "all_statuses n' w' (Ok ()) = SdpExchanged # observe status_of (trace w') @ [Finished]"
proof -
  let ?n = "n\<lparr>session_end := TaskEnded (Ok x)\<rparr>"
  have "local_sdp ?n = Some sdp" "answer ?n = Some remote" using n by simp_all
  from send_offer_smooth [OF ready_smooth [OF n(1)] this n(4)]
  obtain n' where run: "send_offer W Z stun target ?n = (Ok (), n')" by blast
  have fresh: "nego_calls ?n = []" and fin: "finished_status_open ?n" using n(1) by (simp_all add: ready_def)
  have "all_statuses n' w' (Ok ()) = SdpExchanged # observe status_of (trace w') @ [Finished]"
    by (rule send_offer_Ok [OF run fresh]) (simp add: fin all_statuses_def last_status_def List.map_filter_def)
  moreover have "offer_run W Z C stun target P files True n w = (Ok (), n', w')"
    by (simp add: offer_run_def send_task_def task run)
  ultimately show thesis using that by blast
qed

lemma accept_run_Ok:
  assumes n: "ready n" "local_sdp n = Some sdp" "decode_sdp W Z (sm_sdp off) = Inr remote_sdp"
    and labels: "CHANNEL_LABEL \<in> set labels" and task: "accept_task W C P nt w = (Ok x, w')"
  obtains n' where "accept_run W Z C stun off P nt labels n w = (Ok (), n', w')"
    "all_statuses n' w' (Ok ()) = SdpExchanged # observe status_of (trace w') @ [Finished]"
proof -
  let ?n = "n\<lparr>session_end := TaskEnded (Ok x)\<rparr>"
  have "local_sdp ?n = Some sdp" using n by simp
  from accept_offer_smooth [OF ready_smooth [OF n(1)] this n(3)]
  obtain n' where run: "accept_offer W Z stun (sm_session_id off) (ci_id (sm_peer off)) (sm_sdp off) ?n = (Ok (), n')"
    by blast
  have fresh: "nego_calls ?n = []" and fin: "finished_status_open ?n" using n(1) by (simp_all add: ready_def)
  have "all_statuses n' w' (Ok ()) = SdpExchanged # observe status_of (trace w') @ [Finished]"
    by (rule accept_offer_Ok [OF run fresh]) (simp add: fin all_statuses_def last_status_def List.map_filter_def)
  moreover have "filter accepts_channel labels \<noteq> []"
    using labels by (auto simp: filter_empty_conv accepts_channel_def)
  then have "accept_run W Z C stun off P nt labels n w = (Ok (), n', w')"
    using task run by (simp add: accept_run_def receive_task_def split: list.splits)
  ultimately show thesis using that by blast
qed

end
