(* ===== verification/Http_Dto.thy ===== *)
theory Http_Dto
  imports Core_Model
begin

section \<open>HTTP bodies (core/src/http/dto.rs, dto_v2.rs, state.rs)\<close>

text \<open>
  The request and response bodies of the LAN protocol, versions 3 and 2.1, with the JSON
  form of their serde attributes, and the conversions between the two versions. The two
  versions spell the protocol differently: \<open>HTTPS\<close> in version 3, \<open>https\<close> in version 2.1.
\<close>

record nonce_request =
  nq_nonce :: string

definition fields_nonce_request :: "nonce_request \<Rightarrow> (string \<times> json) list" where
  "fields_nonce_request x =
     [(''nonce'', JStr (nq_nonce x))]"

definition enc_nonce_request :: "nonce_request \<Rightarrow> json" where
  "enc_nonce_request x = JObj (fields_nonce_request x)"

definition dec_nonce_request :: "json \<Rightarrow> nonce_request option" where
  "dec_nonce_request j = do {
     kvs \<leftarrow> dec_obj j;
     nonce \<leftarrow> fld kvs ''nonce'' dec_str;
     Some \<lparr>nq_nonce = nonce\<rparr>
   }"

lemma dec_enc_nonce_request [codec]:
  "dec_nonce_request (enc_nonce_request x) = Some x"
  by (cases x) (simp add: dec_nonce_request_def enc_nonce_request_def fields_nonce_request_def codec split: option.splits)

record nonce_response =
  np_nonce :: string

definition fields_nonce_response :: "nonce_response \<Rightarrow> (string \<times> json) list" where
  "fields_nonce_response x =
     [(''nonce'', JStr (np_nonce x))]"

definition enc_nonce_response :: "nonce_response \<Rightarrow> json" where
  "enc_nonce_response x = JObj (fields_nonce_response x)"

definition dec_nonce_response :: "json \<Rightarrow> nonce_response option" where
  "dec_nonce_response j = do {
     kvs \<leftarrow> dec_obj j;
     nonce \<leftarrow> fld kvs ''nonce'' dec_str;
     Some \<lparr>np_nonce = nonce\<rparr>
   }"

lemma dec_enc_nonce_response [codec]:
  "dec_nonce_response (enc_nonce_response x) = Some x"
  by (cases x) (simp add: dec_nonce_response_def enc_nonce_response_def fields_nonce_response_def codec split: option.splits)

record error_response =
  er_message :: string

definition fields_error_response :: "error_response \<Rightarrow> (string \<times> json) list" where
  "fields_error_response x =
     [(''message'', JStr (er_message x))]"

definition enc_error_response :: "error_response \<Rightarrow> json" where
  "enc_error_response x = JObj (fields_error_response x)"

definition dec_error_response :: "json \<Rightarrow> error_response option" where
  "dec_error_response j = do {
     kvs \<leftarrow> dec_obj j;
     message \<leftarrow> fld kvs ''message'' dec_str;
     Some \<lparr>er_message = message\<rparr>
   }"

lemma dec_enc_error_response [codec]:
  "dec_error_response (enc_error_response x) = Some x"
  by (cases x) (simp add: dec_error_response_def enc_error_response_def fields_error_response_def codec split: option.splits)

subsection \<open>Version 3\<close>

datatype protocol_type =
    Http
  | Https

fun enc_protocol_type :: "protocol_type \<Rightarrow> json" where
  "enc_protocol_type Http = JStr ''HTTP''"
| "enc_protocol_type Https = JStr ''HTTPS''"

definition dec_protocol_type :: "json \<Rightarrow> protocol_type option" where
  "dec_protocol_type j = do {
     s \<leftarrow> dec_str j;
     (if s = ''HTTP'' then Some Http
      else if s = ''HTTPS'' then Some Https
      else None)
   }"

lemma dec_enc_protocol_type [codec]: "dec_protocol_type (enc_protocol_type x) = Some x"
  by (cases x) (simp_all add: dec_protocol_type_def)

lemma enc_protocol_type_not_null [codec]: "enc_protocol_type x \<noteq> JNull"
  by (cases x) simp_all

definition protocol_as_str :: "protocol_type \<Rightarrow> string" where
  "protocol_as_str p = (case p of Http \<Rightarrow> ''http'' | Https \<Rightarrow> ''https'')"

record register_dto =
  rg_alias :: string
  rg_version :: string
  rg_device_model :: "string option"
  rg_device_type :: "device_type option"
  rg_token :: string
  rg_port :: u16
  rg_protocol :: protocol_type
  rg_has_web_interface :: bool

definition fields_register_dto :: "register_dto \<Rightarrow> (string \<times> json) list" where
  "fields_register_dto x =
     [(''alias'', JStr (rg_alias x)),
      (''version'', JStr (rg_version x))] @
     opt_field ''deviceModel'' JStr (rg_device_model x) @
     opt_field ''deviceType'' enc_device_type (rg_device_type x) @
     [(''token'', JStr (rg_token x)),
      (''port'', enc_word (rg_port x)),
      (''protocol'', enc_protocol_type (rg_protocol x))] @
     flag_field ''hasWebInterface'' (rg_has_web_interface x)"

definition enc_register_dto :: "register_dto \<Rightarrow> json" where
  "enc_register_dto x = JObj (fields_register_dto x)"

definition dec_register_dto :: "json \<Rightarrow> register_dto option" where
  "dec_register_dto j = do {
     kvs \<leftarrow> dec_obj j;
     alias \<leftarrow> fld kvs ''alias'' dec_str;
     version \<leftarrow> fld kvs ''version'' dec_str;
     device_model \<leftarrow> fld_opt kvs ''deviceModel'' dec_str;
     device_type \<leftarrow> fld_opt kvs ''deviceType'' dec_device_type;
     token \<leftarrow> fld kvs ''token'' dec_str;
     port \<leftarrow> fld kvs ''port'' dec_word;
     protocol \<leftarrow> fld kvs ''protocol'' dec_protocol_type;
     has_web_interface \<leftarrow> fld_default kvs ''hasWebInterface'' False dec_bool;
     Some \<lparr>rg_alias = alias, rg_version = version, rg_device_model = device_model, rg_device_type = device_type, rg_token = token, rg_port = port, rg_protocol = protocol, rg_has_web_interface = has_web_interface\<rparr>
   }"

lemma dec_enc_register_dto [codec]:
  "dec_register_dto (enc_register_dto x) = Some x"
  by (cases x) (simp add: dec_register_dto_def enc_register_dto_def fields_register_dto_def codec split: option.splits)

record register_response_dto =
  rr_alias :: string
  rr_version :: string
  rr_device_model :: "string option"
  rr_device_type :: "device_type option"
  rr_token :: string
  rr_has_web_interface :: bool

definition fields_register_response_dto :: "register_response_dto \<Rightarrow> (string \<times> json) list" where
  "fields_register_response_dto x =
     [(''alias'', JStr (rr_alias x)),
      (''version'', JStr (rr_version x))] @
     opt_field ''deviceModel'' JStr (rr_device_model x) @
     opt_field ''deviceType'' enc_device_type (rr_device_type x) @
     [(''token'', JStr (rr_token x))] @
     flag_field ''hasWebInterface'' (rr_has_web_interface x)"

definition enc_register_response_dto :: "register_response_dto \<Rightarrow> json" where
  "enc_register_response_dto x = JObj (fields_register_response_dto x)"

definition dec_register_response_dto :: "json \<Rightarrow> register_response_dto option" where
  "dec_register_response_dto j = do {
     kvs \<leftarrow> dec_obj j;
     alias \<leftarrow> fld kvs ''alias'' dec_str;
     version \<leftarrow> fld kvs ''version'' dec_str;
     device_model \<leftarrow> fld_opt kvs ''deviceModel'' dec_str;
     device_type \<leftarrow> fld_opt kvs ''deviceType'' dec_device_type;
     token \<leftarrow> fld kvs ''token'' dec_str;
     has_web_interface \<leftarrow> fld_default kvs ''hasWebInterface'' False dec_bool;
     Some \<lparr>rr_alias = alias, rr_version = version, rr_device_model = device_model, rr_device_type = device_type, rr_token = token, rr_has_web_interface = has_web_interface\<rparr>
   }"

lemma dec_enc_register_response_dto [codec]:
  "dec_register_response_dto (enc_register_response_dto x) = Some x"
  by (cases x) (simp add: dec_register_response_dto_def enc_register_response_dto_def fields_register_response_dto_def codec split: option.splits)

record prepare_upload_request_dto =
  pq_info :: register_dto
  pq_files :: "(string, file_dto) hashmap"

definition fields_prepare_upload_request_dto :: "prepare_upload_request_dto \<Rightarrow> (string \<times> json) list" where
  "fields_prepare_upload_request_dto x =
     [(''info'', enc_register_dto (pq_info x)),
      (''files'', (enc_map enc_file_dto) (pq_files x))]"

definition enc_prepare_upload_request_dto :: "prepare_upload_request_dto \<Rightarrow> json" where
  "enc_prepare_upload_request_dto x = JObj (fields_prepare_upload_request_dto x)"

definition dec_prepare_upload_request_dto :: "json \<Rightarrow> prepare_upload_request_dto option" where
  "dec_prepare_upload_request_dto j = do {
     kvs \<leftarrow> dec_obj j;
     info \<leftarrow> fld kvs ''info'' dec_register_dto;
     files \<leftarrow> fld kvs ''files'' (dec_map dec_file_dto);
     Some \<lparr>pq_info = info, pq_files = files\<rparr>
   }"

lemma dec_enc_prepare_upload_request_dto:
  "hm_wf (pq_files x) \<Longrightarrow> dec_prepare_upload_request_dto (enc_prepare_upload_request_dto x) = Some x"
  by (cases x) (simp add: dec_prepare_upload_request_dto_def enc_prepare_upload_request_dto_def fields_prepare_upload_request_dto_def codec dec_enc_map split: option.splits)

record prepare_upload_response_dto =
  pr_session_id :: string
  pr_files :: "(string, string) hashmap"

definition fields_prepare_upload_response_dto :: "prepare_upload_response_dto \<Rightarrow> (string \<times> json) list" where
  "fields_prepare_upload_response_dto x =
     [(''sessionId'', JStr (pr_session_id x)),
      (''files'', (enc_map JStr) (pr_files x))]"

definition enc_prepare_upload_response_dto :: "prepare_upload_response_dto \<Rightarrow> json" where
  "enc_prepare_upload_response_dto x = JObj (fields_prepare_upload_response_dto x)"

definition dec_prepare_upload_response_dto :: "json \<Rightarrow> prepare_upload_response_dto option" where
  "dec_prepare_upload_response_dto j = do {
     kvs \<leftarrow> dec_obj j;
     session_id \<leftarrow> fld kvs ''sessionId'' dec_str;
     files \<leftarrow> fld kvs ''files'' (dec_map dec_str);
     Some \<lparr>pr_session_id = session_id, pr_files = files\<rparr>
   }"

lemma dec_enc_prepare_upload_response_dto:
  "hm_wf (pr_files x) \<Longrightarrow> dec_prepare_upload_response_dto (enc_prepare_upload_response_dto x) = Some x"
  by (cases x) (simp add: dec_prepare_upload_response_dto_def enc_prepare_upload_response_dto_def fields_prepare_upload_response_dto_def codec dec_enc_map split: option.splits)

record prepare_upload_result =
  pu_status_code :: u16
  pu_response :: "prepare_upload_response_dto option"

subsection \<open>Version 2.1\<close>

datatype protocol_type_v2 =
    HttpV2
  | HttpsV2

fun enc_protocol_type_v2 :: "protocol_type_v2 \<Rightarrow> json" where
  "enc_protocol_type_v2 HttpV2 = JStr ''http''"
| "enc_protocol_type_v2 HttpsV2 = JStr ''https''"

definition dec_protocol_type_v2 :: "json \<Rightarrow> protocol_type_v2 option" where
  "dec_protocol_type_v2 j = do {
     s \<leftarrow> dec_str j;
     (if s = ''http'' then Some HttpV2
      else if s = ''https'' then Some HttpsV2
      else None)
   }"

lemma dec_enc_protocol_type_v2 [codec]: "dec_protocol_type_v2 (enc_protocol_type_v2 x) = Some x"
  by (cases x) (simp_all add: dec_protocol_type_v2_def)

lemma enc_protocol_type_v2_not_null [codec]: "enc_protocol_type_v2 x \<noteq> JNull"
  by (cases x) simp_all

definition protocol_v2_as_str :: "protocol_type_v2 \<Rightarrow> string" where
  "protocol_v2_as_str p = (case p of HttpV2 \<Rightarrow> ''http'' | HttpsV2 \<Rightarrow> ''https'')"

record multicast_message_v2 =
  mm_alias :: string
  mm_version :: string
  mm_device_model :: "string option"
  mm_device_type :: "device_type option"
  mm_fingerprint :: string
  mm_port :: u16
  mm_protocol :: protocol_type_v2
  mm_download :: bool
  mm_announce :: bool

definition fields_multicast_message_v2 :: "multicast_message_v2 \<Rightarrow> (string \<times> json) list" where
  "fields_multicast_message_v2 x =
     [(''alias'', JStr (mm_alias x)),
      (''version'', JStr (mm_version x))] @
     opt_field ''deviceModel'' JStr (mm_device_model x) @
     opt_field ''deviceType'' enc_device_type (mm_device_type x) @
     [(''fingerprint'', JStr (mm_fingerprint x)),
      (''port'', enc_word (mm_port x)),
      (''protocol'', enc_protocol_type_v2 (mm_protocol x)),
      (''download'', JBool (mm_download x)),
      (''announce'', JBool (mm_announce x))]"

definition enc_multicast_message_v2 :: "multicast_message_v2 \<Rightarrow> json" where
  "enc_multicast_message_v2 x = JObj (fields_multicast_message_v2 x)"

definition dec_multicast_message_v2 :: "json \<Rightarrow> multicast_message_v2 option" where
  "dec_multicast_message_v2 j = do {
     kvs \<leftarrow> dec_obj j;
     alias \<leftarrow> fld kvs ''alias'' dec_str;
     version \<leftarrow> fld kvs ''version'' dec_str;
     device_model \<leftarrow> fld_opt kvs ''deviceModel'' dec_str;
     device_type \<leftarrow> fld_opt kvs ''deviceType'' dec_device_type;
     fingerprint \<leftarrow> fld kvs ''fingerprint'' dec_str;
     port \<leftarrow> fld kvs ''port'' dec_word;
     protocol \<leftarrow> fld kvs ''protocol'' dec_protocol_type_v2;
     download \<leftarrow> fld_default kvs ''download'' False dec_bool;
     announce \<leftarrow> fld kvs ''announce'' dec_bool;
     Some \<lparr>mm_alias = alias, mm_version = version, mm_device_model = device_model, mm_device_type = device_type, mm_fingerprint = fingerprint, mm_port = port, mm_protocol = protocol, mm_download = download, mm_announce = announce\<rparr>
   }"

lemma dec_enc_multicast_message_v2 [codec]:
  "dec_multicast_message_v2 (enc_multicast_message_v2 x) = Some x"
  by (cases x) (simp add: dec_multicast_message_v2_def enc_multicast_message_v2_def fields_multicast_message_v2_def codec split: option.splits)

record register_dto_v2 =
  r2_alias :: string
  r2_version :: string
  r2_device_model :: "string option"
  r2_device_type :: "device_type option"
  r2_fingerprint :: string
  r2_port :: u16
  r2_protocol :: protocol_type_v2
  r2_download :: bool

definition fields_register_dto_v2 :: "register_dto_v2 \<Rightarrow> (string \<times> json) list" where
  "fields_register_dto_v2 x =
     [(''alias'', JStr (r2_alias x)),
      (''version'', JStr (r2_version x))] @
     opt_field ''deviceModel'' JStr (r2_device_model x) @
     opt_field ''deviceType'' enc_device_type (r2_device_type x) @
     [(''fingerprint'', JStr (r2_fingerprint x)),
      (''port'', enc_word (r2_port x)),
      (''protocol'', enc_protocol_type_v2 (r2_protocol x)),
      (''download'', JBool (r2_download x))]"

definition enc_register_dto_v2 :: "register_dto_v2 \<Rightarrow> json" where
  "enc_register_dto_v2 x = JObj (fields_register_dto_v2 x)"

definition dec_register_dto_v2 :: "json \<Rightarrow> register_dto_v2 option" where
  "dec_register_dto_v2 j = do {
     kvs \<leftarrow> dec_obj j;
     alias \<leftarrow> fld kvs ''alias'' dec_str;
     version \<leftarrow> fld kvs ''version'' dec_str;
     device_model \<leftarrow> fld_opt kvs ''deviceModel'' dec_str;
     device_type \<leftarrow> fld_opt kvs ''deviceType'' dec_device_type;
     fingerprint \<leftarrow> fld kvs ''fingerprint'' dec_str;
     port \<leftarrow> fld kvs ''port'' dec_word;
     protocol \<leftarrow> fld kvs ''protocol'' dec_protocol_type_v2;
     download \<leftarrow> fld_default kvs ''download'' False dec_bool;
     Some \<lparr>r2_alias = alias, r2_version = version, r2_device_model = device_model, r2_device_type = device_type, r2_fingerprint = fingerprint, r2_port = port, r2_protocol = protocol, r2_download = download\<rparr>
   }"

lemma dec_enc_register_dto_v2 [codec]:
  "dec_register_dto_v2 (enc_register_dto_v2 x) = Some x"
  by (cases x) (simp add: dec_register_dto_v2_def enc_register_dto_v2_def fields_register_dto_v2_def codec split: option.splits)

record register_response_dto_v2 =
  s2_alias :: string
  s2_version :: string
  s2_device_model :: "string option"
  s2_device_type :: "device_type option"
  s2_fingerprint :: string
  s2_download :: bool

definition fields_register_response_dto_v2 :: "register_response_dto_v2 \<Rightarrow> (string \<times> json) list" where
  "fields_register_response_dto_v2 x =
     [(''alias'', JStr (s2_alias x)),
      (''version'', JStr (s2_version x))] @
     opt_field ''deviceModel'' JStr (s2_device_model x) @
     opt_field ''deviceType'' enc_device_type (s2_device_type x) @
     [(''fingerprint'', JStr (s2_fingerprint x)),
      (''download'', JBool (s2_download x))]"

definition enc_register_response_dto_v2 :: "register_response_dto_v2 \<Rightarrow> json" where
  "enc_register_response_dto_v2 x = JObj (fields_register_response_dto_v2 x)"

definition dec_register_response_dto_v2 :: "json \<Rightarrow> register_response_dto_v2 option" where
  "dec_register_response_dto_v2 j = do {
     kvs \<leftarrow> dec_obj j;
     alias \<leftarrow> fld kvs ''alias'' dec_str;
     version \<leftarrow> fld kvs ''version'' dec_str;
     device_model \<leftarrow> fld_opt kvs ''deviceModel'' dec_str;
     device_type \<leftarrow> fld_opt kvs ''deviceType'' dec_device_type;
     fingerprint \<leftarrow> fld_default kvs ''fingerprint'' [] dec_str;
     download \<leftarrow> fld_default kvs ''download'' False dec_bool;
     Some \<lparr>s2_alias = alias, s2_version = version, s2_device_model = device_model, s2_device_type = device_type, s2_fingerprint = fingerprint, s2_download = download\<rparr>
   }"

lemma dec_enc_register_response_dto_v2 [codec]:
  "dec_register_response_dto_v2 (enc_register_response_dto_v2 x) = Some x"
  by (cases x) (simp add: dec_register_response_dto_v2_def enc_register_response_dto_v2_def fields_register_response_dto_v2_def codec split: option.splits)

record prepare_upload_request_dto_v2 =
  q2_info :: register_dto_v2
  q2_files :: "(string, file_dto) hashmap"

definition fields_prepare_upload_request_dto_v2 :: "prepare_upload_request_dto_v2 \<Rightarrow> (string \<times> json) list" where
  "fields_prepare_upload_request_dto_v2 x =
     [(''info'', enc_register_dto_v2 (q2_info x)),
      (''files'', (enc_map enc_file_dto) (q2_files x))]"

definition enc_prepare_upload_request_dto_v2 :: "prepare_upload_request_dto_v2 \<Rightarrow> json" where
  "enc_prepare_upload_request_dto_v2 x = JObj (fields_prepare_upload_request_dto_v2 x)"

definition dec_prepare_upload_request_dto_v2 :: "json \<Rightarrow> prepare_upload_request_dto_v2 option" where
  "dec_prepare_upload_request_dto_v2 j = do {
     kvs \<leftarrow> dec_obj j;
     info \<leftarrow> fld kvs ''info'' dec_register_dto_v2;
     files \<leftarrow> fld kvs ''files'' (dec_map dec_file_dto);
     Some \<lparr>q2_info = info, q2_files = files\<rparr>
   }"

lemma dec_enc_prepare_upload_request_dto_v2:
  "hm_wf (q2_files x) \<Longrightarrow> dec_prepare_upload_request_dto_v2 (enc_prepare_upload_request_dto_v2 x) = Some x"
  by (cases x) (simp add: dec_prepare_upload_request_dto_v2_def enc_prepare_upload_request_dto_v2_def fields_prepare_upload_request_dto_v2_def codec dec_enc_map split: option.splits)

record prepare_upload_response_dto_v2 =
  p2_session_id :: string
  p2_files :: "(string, string) hashmap"

definition fields_prepare_upload_response_dto_v2 :: "prepare_upload_response_dto_v2 \<Rightarrow> (string \<times> json) list" where
  "fields_prepare_upload_response_dto_v2 x =
     [(''sessionId'', JStr (p2_session_id x)),
      (''files'', (enc_map JStr) (p2_files x))]"

definition enc_prepare_upload_response_dto_v2 :: "prepare_upload_response_dto_v2 \<Rightarrow> json" where
  "enc_prepare_upload_response_dto_v2 x = JObj (fields_prepare_upload_response_dto_v2 x)"

definition dec_prepare_upload_response_dto_v2 :: "json \<Rightarrow> prepare_upload_response_dto_v2 option" where
  "dec_prepare_upload_response_dto_v2 j = do {
     kvs \<leftarrow> dec_obj j;
     session_id \<leftarrow> fld kvs ''sessionId'' dec_str;
     files \<leftarrow> fld kvs ''files'' (dec_map dec_str);
     Some \<lparr>p2_session_id = session_id, p2_files = files\<rparr>
   }"

lemma dec_enc_prepare_upload_response_dto_v2:
  "hm_wf (p2_files x) \<Longrightarrow> dec_prepare_upload_response_dto_v2 (enc_prepare_upload_response_dto_v2 x) = Some x"
  by (cases x) (simp add: dec_prepare_upload_response_dto_v2_def enc_prepare_upload_response_dto_v2_def fields_prepare_upload_response_dto_v2_def codec dec_enc_map split: option.splits)

record prepare_upload_result_v2 =
  u2_status_code :: u16
  u2_response :: "prepare_upload_response_dto_v2 option"

record info_response_dto_v2 =
  i2_alias :: string
  i2_version :: string
  i2_device_model :: "string option"
  i2_device_type :: "device_type option"
  i2_fingerprint :: string
  i2_download :: bool

definition fields_info_response_dto_v2 :: "info_response_dto_v2 \<Rightarrow> (string \<times> json) list" where
  "fields_info_response_dto_v2 x =
     [(''alias'', JStr (i2_alias x)),
      (''version'', JStr (i2_version x))] @
     opt_field ''deviceModel'' JStr (i2_device_model x) @
     opt_field ''deviceType'' enc_device_type (i2_device_type x) @
     [(''fingerprint'', JStr (i2_fingerprint x)),
      (''download'', JBool (i2_download x))]"

definition enc_info_response_dto_v2 :: "info_response_dto_v2 \<Rightarrow> json" where
  "enc_info_response_dto_v2 x = JObj (fields_info_response_dto_v2 x)"

definition dec_info_response_dto_v2 :: "json \<Rightarrow> info_response_dto_v2 option" where
  "dec_info_response_dto_v2 j = do {
     kvs \<leftarrow> dec_obj j;
     alias \<leftarrow> fld kvs ''alias'' dec_str;
     version \<leftarrow> fld kvs ''version'' dec_str;
     device_model \<leftarrow> fld_opt kvs ''deviceModel'' dec_str;
     device_type \<leftarrow> fld_opt kvs ''deviceType'' dec_device_type;
     fingerprint \<leftarrow> fld kvs ''fingerprint'' dec_str;
     download \<leftarrow> fld_default kvs ''download'' False dec_bool;
     Some \<lparr>i2_alias = alias, i2_version = version, i2_device_model = device_model, i2_device_type = device_type, i2_fingerprint = fingerprint, i2_download = download\<rparr>
   }"

lemma dec_enc_info_response_dto_v2 [codec]:
  "dec_info_response_dto_v2 (enc_info_response_dto_v2 x) = Some x"
  by (cases x) (simp add: dec_info_response_dto_v2_def enc_info_response_dto_v2_def fields_info_response_dto_v2_def codec split: option.splits)

record prepare_download_response_dto_v2 =
  d2_info :: info_response_dto_v2
  d2_session_id :: string
  d2_files :: "(string, file_dto) hashmap"

definition fields_prepare_download_response_dto_v2 :: "prepare_download_response_dto_v2 \<Rightarrow> (string \<times> json) list" where
  "fields_prepare_download_response_dto_v2 x =
     [(''info'', enc_info_response_dto_v2 (d2_info x)),
      (''sessionId'', JStr (d2_session_id x)),
      (''files'', (enc_map enc_file_dto) (d2_files x))]"

definition enc_prepare_download_response_dto_v2 :: "prepare_download_response_dto_v2 \<Rightarrow> json" where
  "enc_prepare_download_response_dto_v2 x = JObj (fields_prepare_download_response_dto_v2 x)"

definition dec_prepare_download_response_dto_v2 :: "json \<Rightarrow> prepare_download_response_dto_v2 option" where
  "dec_prepare_download_response_dto_v2 j = do {
     kvs \<leftarrow> dec_obj j;
     info \<leftarrow> fld kvs ''info'' dec_info_response_dto_v2;
     session_id \<leftarrow> fld kvs ''sessionId'' dec_str;
     files \<leftarrow> fld kvs ''files'' (dec_map dec_file_dto);
     Some \<lparr>d2_info = info, d2_session_id = session_id, d2_files = files\<rparr>
   }"

lemma dec_enc_prepare_download_response_dto_v2:
  "hm_wf (d2_files x) \<Longrightarrow> dec_prepare_download_response_dto_v2 (enc_prepare_download_response_dto_v2 x) = Some x"
  by (cases x) (simp add: dec_prepare_download_response_dto_v2_def enc_prepare_download_response_dto_v2_def fields_prepare_download_response_dto_v2_def codec dec_enc_map split: option.splits)

subsection \<open>Conversions\<close>

definition protocol_to_v2 :: "protocol_type \<Rightarrow> protocol_type_v2" where
  "protocol_to_v2 p = (case p of Http \<Rightarrow> HttpV2 | Https \<Rightarrow> HttpsV2)"

definition register_to_v2 :: "register_dto \<Rightarrow> register_dto_v2" where
  "register_to_v2 v3 =
     \<lparr>r2_alias = rg_alias v3, r2_version = rg_version v3, r2_device_model = rg_device_model v3,
      r2_device_type = rg_device_type v3, r2_fingerprint = rg_token v3, r2_port = rg_port v3,
      r2_protocol = protocol_to_v2 (rg_protocol v3), r2_download = rg_has_web_interface v3\<rparr>"

definition prepare_request_to_v2 :: "prepare_upload_request_dto \<Rightarrow> prepare_upload_request_dto_v2" where
  "prepare_request_to_v2 v3 = \<lparr>q2_info = register_to_v2 (pq_info v3), q2_files = pq_files v3\<rparr>"

definition prepare_response_from_v2 :: "prepare_upload_response_dto_v2 \<Rightarrow> prepare_upload_response_dto" where
  "prepare_response_from_v2 v2 = \<lparr>pr_session_id = p2_session_id v2, pr_files = p2_files v2\<rparr>"

definition prepare_result_from_v2 :: "prepare_upload_result_v2 \<Rightarrow> prepare_upload_result" where
  "prepare_result_from_v2 v2 =
     \<lparr>pu_status_code = u2_status_code v2, pu_response = map_option prepare_response_from_v2 (u2_response v2)\<rparr>"

definition register_response_from_v2 :: "register_response_dto_v2 \<Rightarrow> register_response_dto" where
  "register_response_from_v2 v2 =
     \<lparr>rr_alias = s2_alias v2, rr_version = s2_version v2, rr_device_model = s2_device_model v2,
      rr_device_type = s2_device_type v2, rr_token = s2_fingerprint v2, rr_has_web_interface = s2_download v2\<rparr>"

lemma register_to_v2_inj: "register_to_v2 x = register_to_v2 y \<Longrightarrow> x = y"
  by (cases x; cases y) (auto simp: register_to_v2_def protocol_to_v2_def split: protocol_type.splits)

subsection \<open>The server's own information (state.rs)\<close>

record http_client_info =
  hc_alias :: string
  hc_version :: string
  hc_device_model :: "string option"
  hc_device_type :: "device_type option"
  hc_token :: string

definition fields_http_client_info :: "http_client_info \<Rightarrow> (string \<times> json) list" where
  "fields_http_client_info x =
     [(''alias'', JStr (hc_alias x)),
      (''version'', JStr (hc_version x))] @
     opt_field ''deviceModel'' JStr (hc_device_model x) @
     opt_field ''deviceType'' enc_device_type (hc_device_type x) @
     [(''token'', JStr (hc_token x))]"

definition enc_http_client_info :: "http_client_info \<Rightarrow> json" where
  "enc_http_client_info x = JObj (fields_http_client_info x)"

definition dec_http_client_info :: "json \<Rightarrow> http_client_info option" where
  "dec_http_client_info j = do {
     kvs \<leftarrow> dec_obj j;
     alias \<leftarrow> fld kvs ''alias'' dec_str;
     version \<leftarrow> fld kvs ''version'' dec_str;
     device_model \<leftarrow> fld_opt kvs ''deviceModel'' dec_str;
     device_type \<leftarrow> fld_opt kvs ''deviceType'' dec_device_type;
     token \<leftarrow> fld kvs ''token'' dec_str;
     Some \<lparr>hc_alias = alias, hc_version = version, hc_device_model = device_model, hc_device_type = device_type, hc_token = token\<rparr>
   }"

lemma dec_enc_http_client_info [codec]:
  "dec_http_client_info (enc_http_client_info x) = Some x"
  by (cases x) (simp add: dec_http_client_info_def enc_http_client_info_def fields_http_client_info_def codec split: option.splits)

end
