(* ===== verification/Http_Url.thy ===== *)
theory Http_Url
  imports Prelude
begin

section \<open>Request URLs (core/src/http/client/url.rs)\<close>

datatype api_version = ApiV2 | ApiV3

record target_url =
  tu_version :: api_version
  tu_protocol :: string
  tu_host :: string
  tu_port :: u16
  tu_path :: string
  tu_params :: "(string \<times> string) list"

text \<open>An IPv6 host is put in brackets. Values are not percent-encoded.\<close>

definition url_host :: "string \<Rightarrow> string" where
  "url_host host = (if CHR '':'' \<in> set host then ''['' @ host @ '']'' else host)"

definition version_segment :: "api_version \<Rightarrow> string" where
  "version_segment v = (case v of ApiV2 \<Rightarrow> ''v2'' | ApiV3 \<Rightarrow> ''v3'')"

definition url_to_string :: "target_url \<Rightarrow> string" where
  "url_to_string u =
     (let base = tu_protocol u @ ''://'' @ url_host (tu_host u) @ '':'' @ show_dec (unat (tu_port u)) @
            ''/api/localsend/'' @ version_segment (tu_version u) @ tu_path u
      in if tu_params u = [] then base
         else base @ ''?'' @ join_with ''&'' (map (\<lambda>(k, v). k @ ''='' @ v) (tu_params u)))"

subsection \<open>How a server reads a URL\<close>

text \<open>
  The path and the query of an absolute URL: the generic syntax of RFC 3986, which the
  HTTP library on the other side follows.
\<close>

fun after_scheme :: "string \<Rightarrow> string" where
  "after_scheme [] = []"
| "after_scheme (c # cs) =
     (if take 3 (c # cs) = ''://'' then drop 3 (c # cs) else after_scheme cs)"

definition url_path :: "string \<Rightarrow> string" where
  "url_path s = takeWhile (\<lambda>c. c \<noteq> CHR ''?'') (dropWhile (\<lambda>c. c \<noteq> CHR ''/'') (after_scheme s))"

definition url_query :: "string \<Rightarrow> string option" where
  "url_query s =
     (case dropWhile (\<lambda>c. c \<noteq> CHR ''?'') (dropWhile (\<lambda>c. c \<noteq> CHR ''/'') (after_scheme s)) of
        [] \<Rightarrow> None
      | _ # q \<Rightarrow> Some q)"

definition query_pair :: "string \<Rightarrow> string \<times> string" where
  "query_pair s = (takeWhile (\<lambda>c. c \<noteq> CHR ''='') s, drop 1 (dropWhile (\<lambda>c. c \<noteq> CHR ''='') s))"

definition query_pairs :: "string option \<Rightarrow> (string \<times> string) list" where
  "query_pairs q = (case q of None \<Rightarrow> [] | Some s \<Rightarrow> map query_pair (split_on CHR ''&'' s))"

text \<open>What the clients pass: a plain scheme, a host without slashes, plain paths and values.\<close>

definition plain_url :: "target_url \<Rightarrow> bool" where
  "plain_url u \<longleftrightarrow>
     CHR '':'' \<notin> set (tu_protocol u) \<and> CHR ''/'' \<notin> set (tu_host u) \<and> CHR ''?'' \<notin> set (tu_path u)"

definition plain_param :: "string \<times> string \<Rightarrow> bool" where
  "plain_param p \<longleftrightarrow> CHR ''='' \<notin> set (fst p) \<and> CHR ''&'' \<notin> set (fst p) \<and> CHR ''&'' \<notin> set (snd p)"

lemma after_scheme_append: "CHR '':'' \<notin> set p \<Longrightarrow> after_scheme (p @ ''://'' @ r) = r"
  by (induction p) auto

lemma takeWhile_clean: "c \<notin> set xs \<Longrightarrow> takeWhile (\<lambda>x. x \<noteq> c) (xs @ c # ys) = xs"
  by (induction xs) auto

lemma dropWhile_clean: "c \<notin> set xs \<Longrightarrow> dropWhile (\<lambda>x. x \<noteq> c) (xs @ c # ys) = c # ys"
  by (induction xs) auto

lemma show_dec_no_slash: "CHR ''/'' \<notin> set (show_dec n)"
proof
  assume "CHR ''/'' \<in> set (show_dec n)"
  then obtain d where "d < 10" "CHR ''/'' = digit_char d" using set_show_radix [of 10] by auto
  then show False using digit_char_not_sep(3) [of d] by simp
qed

lemma url_rest:
  assumes "plain_url u"
  shows "dropWhile (\<lambda>c. c \<noteq> CHR ''/'') (after_scheme (url_to_string u)) =
    ''/api/localsend/'' @ version_segment (tu_version u) @ tu_path u @
      (if tu_params u = [] then [] else ''?'' @ join_with ''&'' (map (\<lambda>(k, v). k @ ''='' @ v) (tu_params u)))"
proof -
  let ?q = "if tu_params u = [] then [] else ''?'' @ join_with ''&'' (map (\<lambda>(k, v). k @ ''='' @ v) (tu_params u))"
  let ?auth = "url_host (tu_host u) @ '':'' @ show_dec (unat (tu_port u))"
  let ?rest = "''api/localsend/'' @ version_segment (tu_version u) @ tu_path u @ ?q"
  have "url_to_string u = tu_protocol u @ ''://'' @ ?auth @ CHR ''/'' # ?rest"
    by (simp add: url_to_string_def Let_def)
  then have "after_scheme (url_to_string u) = ?auth @ CHR ''/'' # ?rest"
    using assms after_scheme_append [of "tu_protocol u" "?auth @ CHR ''/'' # ?rest"] by (simp add: plain_url_def)
  moreover have "CHR ''/'' \<notin> set ?auth"
    using assms show_dec_no_slash by (auto simp: plain_url_def url_host_def)
  ultimately show ?thesis using dropWhile_clean [of "CHR ''/''" ?auth ?rest] by simp
qed

lemma url_path_of:
  assumes "plain_url u"
  shows "url_path (url_to_string u) = ''/api/localsend/'' @ version_segment (tu_version u) @ tu_path u"
proof -
  let ?p = "''/api/localsend/'' @ version_segment (tu_version u) @ tu_path u"
  have clean: "CHR ''?'' \<notin> set ?p"
    using assms by (cases "tu_version u") (auto simp: plain_url_def version_segment_def)
  show ?thesis
  proof (cases "tu_params u = []")
    case True
    have "takeWhile (\<lambda>c. c \<noteq> CHR ''?'') ?p = ?p" using clean by (simp only: takeWhile_eq_all_conv) auto
    then show ?thesis using True unfolding url_path_def url_rest [OF assms] by simp
  next
    case False
    then show ?thesis
      using takeWhile_clean [OF clean, of "join_with ''&'' (map (\<lambda>(k, v). k @ ''='' @ v) (tu_params u))"]
      unfolding url_path_def url_rest [OF assms] by simp
  qed
qed

lemma url_query_of:
  assumes "plain_url u"
  shows "url_query (url_to_string u) =
    (if tu_params u = [] then None else Some (join_with ''&'' (map (\<lambda>(k, v). k @ ''='' @ v) (tu_params u))))"
proof -
  let ?p = "''/api/localsend/'' @ version_segment (tu_version u) @ tu_path u"
  have clean: "CHR ''?'' \<notin> set ?p"
    using assms by (cases "tu_version u") (auto simp: plain_url_def version_segment_def)
  show ?thesis
  proof (cases "tu_params u = []")
    case True
    have "dropWhile (\<lambda>c. c \<noteq> CHR ''?'') ?p = []" using clean by (simp only: dropWhile_eq_Nil_conv) auto
    with True show ?thesis unfolding url_query_def url_rest [OF assms]
      by (simp only: simp_thms if_True append_Nil2 list.case)
  next
    case False
    then show ?thesis
      using dropWhile_clean [OF clean, of "join_with ''&'' (map (\<lambda>(k, v). k @ ''='' @ v) (tu_params u))"]
      unfolding url_query_def url_rest [OF assms] by simp
  qed
qed

lemma query_pair_of: "CHR ''='' \<notin> set k \<Longrightarrow> query_pair (k @ ''='' @ v) = (k, v)"
  using takeWhile_clean [of "CHR ''=''" k v] dropWhile_clean [of "CHR ''=''" k v]
  by (simp add: query_pair_def)

lemma query_pairs_of:
  assumes "plain_url u" "\<forall>p \<in> set (tu_params u). plain_param p"
  shows "query_pairs (url_query (url_to_string u)) = tu_params u"
proof (cases "tu_params u = []")
  case True
  then show ?thesis by (simp add: url_query_of [OF assms(1)] query_pairs_def)
next
  case False
  let ?items = "map (\<lambda>(k, v). k @ ''='' @ v) (tu_params u)"
  have "\<forall>s \<in> set ?items. CHR ''&'' \<notin> set s"
    using assms(2) by (auto simp: plain_param_def)
  then have "split_on CHR ''&'' (join_with ''&'' ?items) = ?items"
    using False by (intro split_join_with) simp_all
  moreover have "map (query_pair \<circ> (\<lambda>(k, v). k @ ''='' @ v)) (tu_params u) = map id (tu_params u)"
    using assms(2) query_pair_of by (intro map_cong) (auto simp: plain_param_def simp del: append_Cons append_Nil)
  ultimately show ?thesis using False by (simp add: url_query_of [OF assms(1)] query_pairs_def)
qed

end
