(* ===== verification/Crypto_Cert.thy ===== *)
theory Crypto_Cert
  imports Wire_Instance
begin

section \<open>Certificates (core/src/crypto/cert.rs)\<close>

text \<open>
  Peers use self-signed certificates: what counts is that one is valid now, that its key
  is the expected one when the caller expects one, and that it is signed with that key.
  X.509, ASN.1 and PEM are third-party code: the parameter record \<open>x509\<close>, in which a
  parsed certificate and a parsed key are opaque byte strings.
\<close>

record x509 =
  x_pem_read :: "bytes \<Rightarrow> bytes option"
  x_pem_encode :: "bytes \<Rightarrow> string"
  x_from_der :: "bytes \<Rightarrow> bytes option"
  x_valid :: "bytes \<Rightarrow> bool"
  x_spki_raw :: "bytes \<Rightarrow> bytes"
  x_spki_from_der :: "bytes \<Rightarrow> bytes option"
  x_key_parsed :: "bytes \<Rightarrow> bytes option"
  x_verify_signature :: "bytes \<Rightarrow> bool"

text \<open>
  The documented laws: PEM encoding can be read back, and the raw key info of a parsed
  certificate is the DER form of a key info.
\<close>

locale x509_library =
  fixes X :: x509
  assumes pem_rt: "x_pem_read X (x_pem_encode X b) = Some b"
    and spki_rt: "x_from_der X der = Some c \<Longrightarrow> x_spki_from_der X (x_spki_raw X c) = Some (x_spki_raw X c)"

definition expected_key :: "x509 \<Rightarrow> string \<Rightarrow> bytes option" where
  "expected_key X public_key = do {
     pem \<leftarrow> x_pem_read X public_key;
     spki \<leftarrow> x_spki_from_der X pem;
     x_key_parsed X spki
   }"

definition verify_cert_from_cert :: "x509 \<Rightarrow> bytes \<Rightarrow> string option \<Rightarrow> anyhow + unit" where
  "verify_cert_from_cert X cert public_key =
     (if \<not> x_valid X cert then Inl (Anyhow ''Time validity error'')
      else
        rbind
          (case public_key of
             None \<Rightarrow> Inr ()
           | Some pk \<Rightarrow>
               (case x_key_parsed X (x_spki_raw X cert) of
                  None \<Rightarrow> Inl LibError
                | Some cert_public_key \<Rightarrow>
                    (case expected_key X pk of
                       None \<Rightarrow> Inl LibError
                     | Some expected_public_key \<Rightarrow>
                         if cert_public_key \<noteq> expected_public_key then Inl (Anyhow ''Public key mismatch'') else Inr ())))
          (\<lambda>_. if x_verify_signature X cert then Inr () else Inl LibError))"

definition verify_cert_from_der :: "x509 \<Rightarrow> bytes \<Rightarrow> string option \<Rightarrow> anyhow + unit" where
  "verify_cert_from_der X cert public_key =
     (case x_from_der X cert of
        None \<Rightarrow> Inl LibError
      | Some parsed \<Rightarrow> verify_cert_from_cert X parsed public_key)"

definition verify_cert_from_pem :: "x509 \<Rightarrow> string \<Rightarrow> string option \<Rightarrow> anyhow + unit" where
  "verify_cert_from_pem X cert public_key =
     (case x_pem_read X cert of
        None \<Rightarrow> Inl LibError
      | Some contents \<Rightarrow> verify_cert_from_der X contents public_key)"

definition public_key_from_cert :: "x509 \<Rightarrow> bytes \<Rightarrow> string" where
  "public_key_from_cert X cert = x_pem_encode X (x_spki_raw X cert)"

definition public_key_from_cert_der :: "x509 \<Rightarrow> bytes \<Rightarrow> string option" where
  "public_key_from_cert_der X cert = map_option (public_key_from_cert X) (x_from_der X cert)"

definition public_key_from_cert_pem :: "x509 \<Rightarrow> string \<Rightarrow> string option" where
  "public_key_from_cert_pem X cert = Option.bind (x_pem_read X cert) (public_key_from_cert_der X)"

subsection \<open>Lemmas\<close>

lemma verify_cert_ok_iff:
  "verify_cert_from_der X cert public_key = Inr () \<longleftrightarrow>
    (\<exists>c. x_from_der X cert = Some c \<and> x_valid X c \<and> x_verify_signature X c \<and>
      (case public_key of None \<Rightarrow> True
       | Some pk \<Rightarrow> \<exists>k. x_key_parsed X (x_spki_raw X c) = Some k \<and> expected_key X pk = Some k))"
  by (auto simp: verify_cert_from_der_def verify_cert_from_cert_def rbind_def split: option.splits if_splits)

lemma verify_cert_mono: "verify_cert_from_der X cert (Some pk) = Inr () \<Longrightarrow> verify_cert_from_der X cert None = Inr ()"
  by (auto simp: verify_cert_ok_iff)

context x509_library
begin

lemma expected_key_of_cert:
  "x_from_der X der = Some c \<Longrightarrow> expected_key X (public_key_from_cert X c) = x_key_parsed X (x_spki_raw X c)"
  by (simp add: expected_key_def public_key_from_cert_def pem_rt spki_rt)

lemma own_key_matches:
  assumes "public_key_from_cert_der X cert = Some pk"
  shows "verify_cert_from_der X cert (Some pk) \<noteq> Inl (Anyhow ''Public key mismatch'')"
  using assms
  by (auto simp: public_key_from_cert_der_def verify_cert_from_der_def verify_cert_from_cert_def
      expected_key_of_cert rbind_def split: option.splits if_splits)

end

text \<open>
  The key of one certificate does not pin another with a different key: trust in a peer
  is trust in its key.
\<close>

lemma other_key_rejected:
  assumes "x509_library X"
    and "x_from_der X a = Some ca" "x_from_der X b = Some cb" "x_valid X cb"
    and "x_key_parsed X (x_spki_raw X ca) = Some ka" "x_key_parsed X (x_spki_raw X cb) = Some kb" "ka \<noteq> kb"
  shows "verify_cert_from_der X b (Some (public_key_from_cert X ca)) = Inl (Anyhow ''Public key mismatch'')"
  using assms x509_library.expected_key_of_cert [OF assms(1,2)]
  by (simp add: verify_cert_from_der_def verify_cert_from_cert_def rbind_def)

subsection \<open>An executable instance\<close>

text \<open>
  For the witnesses: a certificate is a validity flag, a signature flag and a key; a key
  is its own encoding; PEM adds a byte.
\<close>

definition ref_x509 :: x509 where
  "ref_x509 =
     \<lparr>x_pem_read = (\<lambda>b. case b of [] \<Rightarrow> None | c # cs \<Rightarrow> if c = CHR ''P'' then Some cs else None),
      x_pem_encode = (\<lambda>b. CHR ''P'' # b),
      x_from_der = (\<lambda>b. if length b < 3 then None else Some b),
      x_valid = (\<lambda>c. c ! 0 = CHR ''V''),
      x_spki_raw = drop 2,
      x_spki_from_der = Some,
      x_key_parsed = Some,
      x_verify_signature = (\<lambda>c. c ! 1 = CHR ''S'')\<rparr>"

interpretation ref_x509: x509_library ref_x509
  by unfold_locales (simp_all add: ref_x509_def)

lemma ref_x509_library: "x509_library ref_x509"
  by (rule ref_x509.x509_library_axioms)

end
