(* ===== verification/Ip_Addr.thy ===== *)
theory Ip_Addr
  imports Prelude "HOL-Library.Monad_Syntax"
begin

section \<open>IP addresses and IP groups (server/src/util/ip.rs)\<close>

text \<open>
  \<open>std::net::IpAddr\<close> with the parts of it the programs use: \<open>to_string\<close>,
  \<open>segments\<close> and \<open>from_str\<close>, and \<open>get_ip_group\<close>, which names the room of the
  signaling server a client belongs to.
\<close>

datatype ip_addr =
    V4 u8 u8 u8 u8
  | V6 u16 u16 u16 u16 u16 u16 u16 u16

fun segments :: "ip_addr \<Rightarrow> u16 list" where
  "segments (V6 a b c d e f g h) = [a, b, c, d, e, f, g, h]"
| "segments (V4 a b c d) = []"

definition show_ipv4 :: "u8 \<Rightarrow> u8 \<Rightarrow> u8 \<Rightarrow> u8 \<Rightarrow> string" where
  "show_ipv4 a b c d = join_with ''.'' (map (\<lambda>w. show_dec (unat w)) [a, b, c, d])"

subsection \<open>Display of an IPv6 address\<close>

definition show_segments :: "u16 list \<Rightarrow> string" where
  "show_segments ss = join_with '':'' (map (\<lambda>w. show_hex (unat w)) ss)"

text \<open>The first longest run of zero segments, as (start, length).\<close>

fun zero_span :: "nat \<Rightarrow> nat \<times> nat \<Rightarrow> nat \<times> nat \<Rightarrow> u16 list \<Rightarrow> nat \<times> nat" where
  "zero_span i cur best [] = best"
| "zero_span i cur best (s # ss) =
     (if s = 0 then
        (let cur' = (if snd cur = 0 then i else fst cur, Suc (snd cur)) in
         zero_span (Suc i) cur' (if snd cur' > snd best then cur' else best) ss)
      else zero_span (Suc i) (0, 0) best ss)"

definition show_ipv6 :: "u16 list \<Rightarrow> string" where
  "show_ipv6 ss =
     (if take 6 ss = [0, 0, 0, 0, 0, 0xFFFF] then
        ''::ffff:'' @ join_with ''.'' (map show_dec (concat (map (\<lambda>w. [unat w div 256, unat w mod 256]) (drop 6 ss))))
      else
        (let (start, len) = zero_span 0 (0, 0) (0, 0) ss in
         if 1 < len then show_segments (take start ss) @ ''::'' @ show_segments (drop (start + len) ss)
         else show_segments ss))"

fun show_ip :: "ip_addr \<Rightarrow> string" where
  "show_ip (V4 a b c d) = show_ipv4 a b c d"
| "show_ip (V6 a b c d e f g h) = show_ipv6 [a, b, c, d, e, f, g, h]"

subsection \<open>Parsing\<close>

definition digit_in :: "nat \<Rightarrow> char \<Rightarrow> bool" where
  "digit_in r c = (case char_digit c of None \<Rightarrow> False | Some d \<Rightarrow> d < r)"

definition read_number :: "nat \<Rightarrow> nat \<Rightarrow> bool \<Rightarrow> nat \<Rightarrow> string \<Rightarrow> (nat \<times> string) option" where
  "read_number r max_digits allow_zero_prefix bound s =
     (let ds = takeWhile (digit_in r) s; n = read_radix r ds in
      if ds = [] \<or> max_digits < length ds \<or> bound \<le> n
         \<or> (\<not> allow_zero_prefix \<and> hd ds = CHR ''0'' \<and> 1 < length ds)
      then None
      else Some (n, dropWhile (digit_in r) s))"

definition read_given :: "char \<Rightarrow> string \<Rightarrow> string option" where
  "read_given c s = (case s of x # xs \<Rightarrow> if x = c then Some xs else None | [] \<Rightarrow> None)"

definition read_ipv4 :: "string \<Rightarrow> (nat list \<times> string) option" where
  "read_ipv4 s = do {
     (a, s) \<leftarrow> read_number 10 3 False 256 s;
     s \<leftarrow> read_given CHR ''.'' s;
     (b, s) \<leftarrow> read_number 10 3 False 256 s;
     s \<leftarrow> read_given CHR ''.'' s;
     (c, s) \<leftarrow> read_number 10 3 False 256 s;
     s \<leftarrow> read_given CHR ''.'' s;
     (d, s) \<leftarrow> read_number 10 3 False 256 s;
     Some ([a, b, c, d], s)
   }"

definition read_sep :: "bool \<Rightarrow> (string \<Rightarrow> 'a option) \<Rightarrow> string \<Rightarrow> 'a option" where
  "read_sep first p s = (if first then p s else Option.bind (read_given CHR '':'' s) p)"

text \<open>
  The groups of one side of an IPv6 address: at most \<open>n\<close>, an embedded IPv4 address
  where two groups still fit. The flag says whether it ended with one.
\<close>

fun read_groups :: "bool \<Rightarrow> nat \<Rightarrow> string \<Rightarrow> nat list \<times> bool \<times> string" where
  "read_groups first 0 s = ([], False, s)"
| "read_groups first (Suc n) s =
     (case (if 0 < n then read_sep first read_ipv4 s else None) of
        Some (q, s') \<Rightarrow> ([q ! 0 * 256 + q ! 1, q ! 2 * 256 + q ! 3], True, s')
      | None \<Rightarrow>
          (case read_sep first (read_number 16 4 True 65536) s of
             Some (g, s') \<Rightarrow>
               (let (gs, v4, s'') = read_groups False n s' in (g # gs, v4, s''))
           | None \<Rightarrow> ([], False, s)))"

definition read_ipv6 :: "string \<Rightarrow> (nat list \<times> string) option" where
  "read_ipv6 s =
     (let (head, v4, s1) = read_groups True 8 s in
      if length head = 8 then Some (head, s1)
      else if v4 then None
      else do {
        s2 \<leftarrow> read_given CHR '':'' s1;
        s3 \<leftarrow> read_given CHR '':'' s2;
        (let (tl, _, s4) = read_groups True (8 - (length head + 1)) s3 in
         Some (head @ replicate (8 - length head - length tl) 0 @ tl, s4))
      })"

definition ipv4_of :: "nat list \<Rightarrow> ip_addr option" where
  "ipv4_of q = (case q of [a, b, c, d] \<Rightarrow> Some (V4 (of_nat a) (of_nat b) (of_nat c) (of_nat d)) | _ \<Rightarrow> None)"

definition ipv6_of :: "nat list \<Rightarrow> ip_addr option" where
  "ipv6_of q =
     (case q of [a, b, c, d, e, f, g, h] \<Rightarrow>
        Some (V6 (of_nat a) (of_nat b) (of_nat c) (of_nat d) (of_nat e) (of_nat f) (of_nat g) (of_nat h))
      | _ \<Rightarrow> None)"

definition parse_ip :: "string \<Rightarrow> ip_addr option" where
  "parse_ip s =
     (case read_ipv4 s of
        Some (q, r) \<Rightarrow> if r = [] then ipv4_of q else None
      | None \<Rightarrow>
          (case read_ipv6 s of
             Some (q, r) \<Rightarrow> if r = [] then ipv6_of q else None
           | None \<Rightarrow> None))"

subsection \<open>IP groups\<close>

fun get_ip_group :: "ip_addr \<Rightarrow> string" where
  "get_ip_group (V4 a b c d) = show_ipv4 a b c d"
| "get_ip_group (V6 a b c d e f g h) =
     show_hex (unat a) @ '':'' @ show_hex (unat b) @ '':'' @ show_hex (unat c) @ '':'' @ show_hex (unat d)"

text \<open>The abstract meaning of a group: the IPv4 address itself, or the /64 of an IPv6 address.\<close>

fun same_network :: "ip_addr \<Rightarrow> ip_addr \<Rightarrow> bool" where
  "same_network (V4 a b c d) (V4 a' b' c' d') = ([a, b, c, d] = [a', b', c', d'])"
| "same_network (V6 a b c d _ _ _ _) (V6 a' b' c' d' _ _ _ _) = ([a, b, c, d] = [a', b', c', d'])"
| "same_network _ _ = False"

subsection \<open>Lemmas\<close>

lemma digits_no_sep:
  "2 \<le> r \<Longrightarrow> r \<le> 16 \<Longrightarrow> CHR ''.'' \<notin> set (show_radix r n)"
  "2 \<le> r \<Longrightarrow> r \<le> 16 \<Longrightarrow> CHR '':'' \<notin> set (show_radix r n)"
  using set_show_radix [of r _ n] digit_char_not_sep by (metis order_less_le_trans)+

lemma show_ipv4_alt:
  "show_ipv4 a b c d =
     show_dec (unat a) @ CHR ''.'' # show_dec (unat b) @ CHR ''.'' # show_dec (unat c) @ CHR ''.'' # show_dec (unat d)"
  by (simp add: show_ipv4_def)

lemma set_show_ipv4:
  assumes "c \<in> set (show_ipv4 a1 a2 a3 a4)"
  shows "c = CHR ''.'' \<or> char_digit c \<noteq> None"
proof -
  have "char_digit x \<noteq> None" if "x \<in> set (show_dec n)" for x n
    using set_show_radix [OF _ that] by (auto simp: char_digit_digit_char)
  then show ?thesis using assms by (auto simp: show_ipv4_alt)
qed

lemma show_ipv4_clean: "c \<in> set (show_ipv4 a1 a2 a3 a4) \<Longrightarrow> c \<noteq> CHR '','' \<and> \<not> is_ws c"
  using set_show_ipv4 [of c a1 a2 a3 a4] by (auto simp: is_ws_def char_digit_def)

lemma split_show_ipv4:
  "split_on CHR ''.'' (show_ipv4 a b c d) =
     [show_dec (unat a), show_dec (unat b), show_dec (unat c), show_dec (unat d)]"
  by (simp add: show_ipv4_alt split_on_append split_on_clean digits_no_sep)

lemma show_ipv4_inj: "show_ipv4 a b c d = show_ipv4 a' b' c' d' \<longleftrightarrow> [a, b, c, d] = [a', b', c', d']"
proof
  assume "show_ipv4 a b c d = show_ipv4 a' b' c' d'"
  then have "split_on CHR ''.'' (show_ipv4 a b c d) = split_on CHR ''.'' (show_ipv4 a' b' c' d')"
    by simp
  then have "unat a = unat a' \<and> unat b = unat b' \<and> unat c = unat c' \<and> unat d = unat d'"
    unfolding split_show_ipv4 by (auto dest!: show_radix_inj [rotated 2])
  then show "[a, b, c, d] = [a', b', c', d']" by (simp add: word_unat_eq_iff)
qed simp

lemma split_ip_group_v6:
  "split_on CHR '':'' (get_ip_group (V6 a b c d e f g h)) =
     [show_hex (unat a), show_hex (unat b), show_hex (unat c), show_hex (unat d)]"
  by (simp add: split_on_append split_on_clean digits_no_sep)

lemma get_ip_group_v6_inj:
  "get_ip_group (V6 a b c d e f g h) = get_ip_group (V6 a' b' c' d' e' f' g' h')
     \<longleftrightarrow> [a, b, c, d] = [a', b', c', d']"
proof
  assume "get_ip_group (V6 a b c d e f g h) = get_ip_group (V6 a' b' c' d' e' f' g' h')"
  then have "split_on CHR '':'' (get_ip_group (V6 a b c d e f g h)) =
      split_on CHR '':'' (get_ip_group (V6 a' b' c' d' e' f' g' h'))"
    by simp
  then have "unat a = unat a' \<and> unat b = unat b' \<and> unat c = unat c' \<and> unat d = unat d'"
    unfolding split_ip_group_v6 by (auto dest!: show_radix_inj [rotated 2])
  then show "[a, b, c, d] = [a', b', c', d']" by (simp add: word_unat_eq_iff)
qed simp

lemma get_ip_group_v4_v6: "get_ip_group (V4 a b c d) \<noteq> get_ip_group (V6 a' b' c' d' e f g h)"
proof
  assume eq: "get_ip_group (V4 a b c d) = get_ip_group (V6 a' b' c' d' e f g h)"
  have "CHR '':'' \<notin> set (get_ip_group (V4 a b c d))"
    by (simp add: show_ipv4_alt digits_no_sep)
  moreover have "CHR '':'' \<in> set (get_ip_group (V6 a' b' c' d' e f g h))"
    by simp
  ultimately show False using eq by simp
qed

lemma takeWhile_digits:
  "2 \<le> r \<Longrightarrow> r \<le> 16 \<Longrightarrow> rest = [] \<or> \<not> digit_in r (hd rest) \<Longrightarrow>
     takeWhile (digit_in r) (show_radix r n @ rest) = show_radix r n
     \<and> dropWhile (digit_in r) (show_radix r n @ rest) = rest"
proof -
  assume r: "2 \<le> r" "r \<le> 16" and rest: "rest = [] \<or> \<not> digit_in r (hd rest)"
  have all: "\<forall>c\<in>set (show_radix r n). digit_in r c"
  proof
    fix c
    assume "c \<in> set (show_radix r n)"
    then obtain d where "d < r" "c = digit_char d" using set_show_radix [OF r(1)] by blast
    then show "digit_in r c" using r(2) by (simp add: digit_in_def char_digit_digit_char)
  qed
  then show ?thesis using rest by (cases rest) (auto simp: takeWhile_append dropWhile_append)
qed

lemma length_show_dec: "n < 1000 \<Longrightarrow> length (show_dec n) \<le> 3"
  by (auto simp: show_radix.simps [of 10 n] show_radix.simps [of 10 "n div 10"]
      show_radix.simps [of 10 "n div 10 div 10"])

lemma digit_char_0: "digit_char 0 = CHR ''0''"
  by code_simp

lemma hd_show_dec: "hd (show_dec n) = CHR ''0'' \<Longrightarrow> n = 0"
proof (induction "10::nat" n rule: show_radix.induct)
  case (1 n)
  show ?case
  proof (cases "n < 10")
    case True
    with "1.prems" have "digit_char n = digit_char 0"
      by (subst (asm) show_radix.simps) (simp add: digit_char_0)
    with True show ?thesis using digit_char_inj [of n 0] by simp
  next
    case False
    with "1.prems" have "hd (show_dec (n div 10)) = CHR ''0''"
      by (subst (asm) show_radix.simps) (simp add: hd_append)
    with "1.hyps" False show ?thesis by (auto simp: div_eq_0_iff)
  qed
qed

lemma read_number_show_dec:
  assumes "n < 256" "rest = [] \<or> \<not> digit_in 10 (hd rest)"
  shows "read_number 10 3 False 256 (show_dec n @ rest) = Some (n, rest)"
proof -
  have "\<not> (hd (show_dec n) = CHR ''0'' \<and> 1 < length (show_dec n))"
    using hd_show_dec [of n] by (auto simp: show_radix.simps [of 10 0])
  then show ?thesis
    using assms takeWhile_digits [of 10 rest n] length_show_dec [of n]
    by (simp add: read_number_def Let_def read_show_radix)
qed

lemma not_digit_dot [simp]: "\<not> digit_in 10 CHR ''.''"
  by (simp add: digit_in_def char_digit_def)

lemma unat_u8: "unat (w :: u8) < 256"
proof -
  have "unat w < 2 ^ LENGTH(8)" by (rule unsigned_less)
  then show ?thesis by simp
qed

lemma read_ipv4_show: "read_ipv4 (show_ipv4 a b c d) = Some ([unat a, unat b, unat c, unat d], [])"
  by (simp add: read_ipv4_def show_ipv4_alt read_number_show_dec unat_u8 read_given_def
      read_number_show_dec [where rest = "[]", simplified])

lemma parse_show_ipv4: "parse_ip (show_ipv4 a b c d) = Some (V4 a b c d)"
  by (simp add: parse_ip_def read_ipv4_show ipv4_of_def)

end
