(* ===== verification/Http_Client.thy ===== *)
theory Http_Client
  imports Http_Dto Http_Url Crypto_Cert Crypto_Token Ip_Addr "HOL-Library.Sublist"
begin

section \<open>HTTP clients (core/src/http/client)\<close>

text \<open>
  A client operation builds one request and interprets one response. The network, TLS
  included, is a parameter: a function from the request to what comes back, or \<open>None\<close> when
  sending fails. \<open>he_text\<close> is the body decoding of \<open>Response::text\<close>.
\<close>

record http_env =
  he_wire :: wire
  he_x509 :: x509
  he_text :: "bytes \<Rightarrow> string"

datatype http_method = Get | Post

record http_request =
  rq_method :: http_method
  rq_url :: string
  rq_content_type :: "string option"
  rq_body :: "bytes list"

text \<open>
  \<open>rs_body\<close>: \<open>None\<close> when reading it fails. \<open>rs_tls\<close>: the TLS information of the connection
  and in it the peer's certificate.
\<close>

record http_response =
  rs_status :: u16
  rs_body :: "bytes option"
  rs_tls :: "bytes option option"
  rs_addr :: "ip_addr option"

type_synonym network = "http_request \<Rightarrow> http_response option"

datatype client_error =
    CeStatusCode u16 "string option"
  | CeReqwest
  | CeJson
  | CeIo
  | CeOther anyhow

record 'a result_with_public_key =
  rw_public_key :: "string option"
  rw_body :: 'a

subsection \<open>Common parts (mod.rs)\<close>

definition into_error :: "http_env \<Rightarrow> http_response \<Rightarrow> client_error + 'a" where
  "into_error E res =
     (let body = (case rs_body res of None \<Rightarrow> [] | Some b \<Rightarrow> he_text E b);
          message = (case from_json_slice (he_wire E) dec_error_response body of
                       Some err \<Rightarrow> er_message err | None \<Rightarrow> body)
      in Inl (CeStatusCode (rs_status res) (if message = [] then None else Some message)))"

lemma into_error_Inr: "into_error E res \<noteq> Inr x"
  by (simp add: into_error_def Let_def)

definition verify_cert_from_res :: "http_env \<Rightarrow> http_response \<Rightarrow> string option \<Rightarrow> client_error + string" where
  "verify_cert_from_res E res public_key =
     (case rs_tls res of
        None \<Rightarrow> Inl (CeOther (Anyhow ''TLS info not found''))
      | Some None \<Rightarrow> Inl (CeOther (Anyhow ''Certificate not found''))
      | Some (Some cert) \<Rightarrow>
          (case verify_cert_from_der (he_x509 E) cert public_key of
             Inl e \<Rightarrow> Inl (CeOther e)
           | Inr _ \<Rightarrow>
               (case public_key of
                  Some pk \<Rightarrow> Inr pk
                | None \<Rightarrow> ok_or (CeOther LibError) (public_key_from_cert_der (he_x509 E) cert))))"

definition response_json :: "http_env \<Rightarrow> (json \<Rightarrow> 'a option) \<Rightarrow> http_response \<Rightarrow> client_error + 'a" where
  "response_json E dec res =
     (case rs_body res of
        None \<Rightarrow> Inl CeReqwest
      | Some b \<Rightarrow> ok_or CeReqwest (from_json_slice (he_wire E) dec b))"

definition send :: "network \<Rightarrow> http_request \<Rightarrow> client_error + http_response" where
  "send net req = ok_or CeReqwest (net req)"

definition api_url :: "api_version \<Rightarrow> protocol_type \<Rightarrow> string \<Rightarrow> u16 \<Rightarrow> string \<Rightarrow> (string \<times> string) list \<Rightarrow> string" where
  "api_url version protocol ip port path params =
     url_to_string \<lparr>tu_version = version, tu_protocol = protocol_as_str protocol, tu_host = ip, tu_port = port,
       tu_path = path, tu_params = params\<rparr>"

definition https_key :: "http_env \<Rightarrow> protocol_type \<Rightarrow> http_response \<Rightarrow> client_error + string option" where
  "https_key E protocol res =
     (if protocol = Https then rbind (verify_cert_from_res E res None) (\<lambda>k. Inr (Some k)) else Inr None)"

definition https_pinned :: "http_env \<Rightarrow> protocol_type \<Rightarrow> string option \<Rightarrow> http_response \<Rightarrow> client_error + unit" where
  "https_pinned E protocol public_key res =
     (if protocol = Https then rbind (verify_cert_from_res E res public_key) (\<lambda>_. Inr ()) else Inr ())"

text \<open>
  The HTTP library's client: its identity is parsed from the certificate followed by the
  key, and building the client can fail.
\<close>

record ('id, 'cl) reqwest_builder =
  rb_identity :: "string \<Rightarrow> 'id option"
  rb_build :: "'id option \<Rightarrow> 'cl option"

definition create_reqwest_client :: "('id, 'cl) reqwest_builder \<Rightarrow> string \<Rightarrow> string \<Rightarrow> client_error + 'cl" where
  "create_reqwest_client B private_key cert =
     rbind (ok_or CeReqwest (rb_identity B (cert @ [CHR 0x0A] @ private_key))) (\<lambda>identity.
     ok_or CeReqwest (rb_build B (Some identity)))"

subsection \<open>Version 2.1 (v2.rs)\<close>

definition v2_try_new :: "('id, 'cl) reqwest_builder \<Rightarrow> string \<Rightarrow> string \<Rightarrow> client_error + 'cl" where
  "v2_try_new B private_key cert = create_reqwest_client B private_key cert"

definition v2_try_new_without_cert :: "('id, 'cl) reqwest_builder \<Rightarrow> client_error + 'cl" where
  "v2_try_new_without_cert B = ok_or CeReqwest (rb_build B None)"

definition json_post :: "string \<Rightarrow> string \<Rightarrow> http_request" where
  "json_post url body =
     \<lparr>rq_method = Post, rq_url = url, rq_content_type = Some ''application/json'', rq_body = [body]\<rparr>"

definition plain_post :: "string \<Rightarrow> bytes list \<Rightarrow> http_request" where
  "plain_post url body = \<lparr>rq_method = Post, rq_url = url, rq_content_type = None, rq_body = body\<rparr>"

definition plain_get :: "string \<Rightarrow> http_request" where
  "plain_get url = \<lparr>rq_method = Get, rq_url = url, rq_content_type = None, rq_body = []\<rparr>"

definition v2_register ::
    "http_env \<Rightarrow> network \<Rightarrow> protocol_type \<Rightarrow> string \<Rightarrow> u16 \<Rightarrow> register_dto_v2 \<Rightarrow>
       client_error + register_response_dto_v2 result_with_public_key" where
  "v2_register E net protocol ip port payload =
     rbind (send net (json_post (api_url ApiV2 protocol ip port ''/register'' [])
              (to_json_string (he_wire E) enc_register_dto_v2 payload))) (\<lambda>res.
     if rs_status res \<noteq> 200 then into_error E res
     else
       rbind (https_key E protocol res) (\<lambda>public_key.
       rbind (response_json E dec_register_response_dto_v2 res) (\<lambda>body.
       Inr \<lparr>rw_public_key = public_key, rw_body = body\<rparr>)))"

definition v2_prepare_upload ::
    "http_env \<Rightarrow> network \<Rightarrow> protocol_type \<Rightarrow> string \<Rightarrow> u16 \<Rightarrow> string option \<Rightarrow> prepare_upload_request_dto_v2 \<Rightarrow>
       string option \<Rightarrow> client_error + prepare_upload_result_v2" where
  "v2_prepare_upload E net protocol ip port public_key payload pin =
     (let pin_params = (case pin of Some p \<Rightarrow> [(''pin'', p)] | None \<Rightarrow> []) in
      rbind (send net (json_post (api_url ApiV2 protocol ip port ''/prepare-upload'' pin_params)
               (to_json_string (he_wire E) enc_prepare_upload_request_dto_v2 payload))) (\<lambda>res.
      rbind (https_pinned E protocol public_key res) (\<lambda>_.
      if 400 \<le> rs_status res then into_error E res
      else if rs_status res = 204 then
        Inr \<lparr>u2_status_code = rs_status res, u2_response = None\<rparr>
      else
        rbind (response_json E dec_prepare_upload_response_dto_v2 res) (\<lambda>body.
        Inr \<lparr>u2_status_code = rs_status res, u2_response = Some body\<rparr>))))"

definition upload_params :: "string \<Rightarrow> string \<Rightarrow> string \<Rightarrow> (string \<times> string) list" where
  "upload_params session_id file_id token =
     [(''sessionId'', session_id), (''fileId'', file_id), (''token'', token)]"

definition v2_upload ::
    "http_env \<Rightarrow> network \<Rightarrow> protocol_type \<Rightarrow> string \<Rightarrow> u16 \<Rightarrow> string option \<Rightarrow> string \<Rightarrow> string \<Rightarrow> string \<Rightarrow>
       bytes list \<Rightarrow> client_error + unit" where
  "v2_upload E net protocol ip port public_key session_id file_id token binary =
     rbind (send net (plain_post
              (api_url ApiV2 protocol ip port ''/upload'' (upload_params session_id file_id token)) binary)) (\<lambda>res.
     rbind (https_pinned E protocol public_key res) (\<lambda>_.
     if rs_status res \<noteq> 200 then into_error E res else Inr ()))"

definition v2_cancel :: "network \<Rightarrow> protocol_type \<Rightarrow> string \<Rightarrow> u16 \<Rightarrow> string \<Rightarrow> client_error + unit" where
  "v2_cancel net protocol ip port session_id =
     rbind (send net (plain_post (api_url ApiV2 protocol ip port ''/cancel'' [(''sessionId'', session_id)]) [])) (\<lambda>_.
     Inr ())"

definition v2_info :: "http_env \<Rightarrow> network \<Rightarrow> protocol_type \<Rightarrow> string \<Rightarrow> u16 \<Rightarrow> client_error + info_response_dto_v2" where
  "v2_info E net protocol ip port =
     rbind (send net (plain_get (api_url ApiV2 protocol ip port ''/info'' []))) (\<lambda>res.
     if rs_status res \<noteq> 200 then into_error E res else response_json E dec_info_response_dto_v2 res)"

definition v2_prepare_download ::
    "http_env \<Rightarrow> network \<Rightarrow> protocol_type \<Rightarrow> string \<Rightarrow> u16 \<Rightarrow> string option \<Rightarrow> string option \<Rightarrow>
       client_error + prepare_download_response_dto_v2" where
  "v2_prepare_download E net protocol ip port session_id pin =
     (let params = (case session_id of Some s \<Rightarrow> [(''sessionId'', s)] | None \<Rightarrow> []) @
                   (case pin of Some p \<Rightarrow> [(''pin'', p)] | None \<Rightarrow> []) in
      rbind (send net (plain_post (api_url ApiV2 protocol ip port ''/prepare-download'' params) [])) (\<lambda>res.
      if rs_status res \<noteq> 200 then into_error E res
      else response_json E dec_prepare_download_response_dto_v2 res))"

definition v2_download ::
    "http_env \<Rightarrow> network \<Rightarrow> protocol_type \<Rightarrow> string \<Rightarrow> u16 \<Rightarrow> string \<Rightarrow> string \<Rightarrow> client_error + http_response" where
  "v2_download E net protocol ip port session_id file_id =
     rbind (send net (plain_get
              (api_url ApiV2 protocol ip port ''/download'' [(''sessionId'', session_id), (''fileId'', file_id)]))) (\<lambda>res.
     if rs_status res \<noteq> 200 then into_error E res else Inr res)"

text \<open>
  The loop of \<open>download_to_writer\<close>: the chunks of the body stream, \<open>None\<close> for a read
  error, and what becomes of each write and at last of the flush: they succeed, also when the
  list is used up, or fail (\<open>Some n\<close>) after \<open>n\<close> bytes. The result is the sum and what was
  written.
\<close>

fun write_stream :: "bytes option list \<Rightarrow> nat option list \<Rightarrow> u64 \<Rightarrow> bytes \<Rightarrow> (client_error + u64) \<times> bytes" where
  "write_stream [] writes total_bytes written =
     (case writes of
        Some _ # _ \<Rightarrow> (Inl CeIo, written)
      | _ \<Rightarrow> (Inr total_bytes, written))"
| "write_stream (None # chunks) writes total_bytes written = (Inl CeReqwest, written)"
| "write_stream (Some c # chunks) writes total_bytes written =
     (case writes of
        Some n # _ \<Rightarrow> (Inl CeIo, written @ take n c)
      | _ \<Rightarrow> write_stream chunks (tl writes) (total_bytes + of_nat (length c)) (written @ c))"

text \<open>What a stream brings before its first error.\<close>

fun arrived_bytes :: "bytes option list \<Rightarrow> bytes" where
  "arrived_bytes (Some c # chunks) = c @ arrived_bytes chunks"
| "arrived_bytes _ = []"

lemma arrived_bytes_all: "None \<notin> set chunks \<Longrightarrow> arrived_bytes chunks = concat (map the chunks)"
proof (induction chunks)
  case (Cons c chunks)
  then show ?case by (cases c) auto
qed simp

lemma prefix_append_take: "prefix (acc @ take n c) (acc @ c @ rest)"
  by (simp add: take_is_prefix prefix_prefix)

lemma write_stream_facts:
  "write_stream chunks writes (of_nat (length acc)) acc = (r, written) \<Longrightarrow>
   prefix written (acc @ arrived_bytes chunks) \<and>
   (\<forall>n. r = Inr n \<longrightarrow> None \<notin> set chunks \<and> written = acc @ arrived_bytes chunks \<and> n = of_nat (length written))"
proof (induction chunks arbitrary: writes acc)
  case Nil
  then show ?case by (auto split: list.splits option.splits)
next
  case (Cons c chunks)
  show ?case
  proof (cases "\<exists>b. c = Some b \<and> (\<forall>n r. writes \<noteq> Some n # r)")
    case True
    then obtain b where b: "c = Some b" and ok: "\<forall>n r. writes \<noteq> Some n # r" by blast
    then have "write_stream chunks (tl writes) (of_nat (length (acc @ b))) (acc @ b) = (r, written)"
      using Cons.prems by (auto split: list.splits option.splits)
    from Cons.IH [OF this] b show ?thesis by auto
  next
    case False
    then show ?thesis
      using Cons.prems by (cases c; auto split: list.splits option.splits intro: prefix_append_take)
  qed
qed

definition v2_download_to_writer ::
    "http_env \<Rightarrow> network \<Rightarrow> (http_response \<Rightarrow> bytes option list) \<Rightarrow> protocol_type \<Rightarrow> string \<Rightarrow> u16 \<Rightarrow> string \<Rightarrow>
       string \<Rightarrow> nat option list \<Rightarrow> (client_error + u64) \<times> bytes" where
  "v2_download_to_writer E net body_stream protocol ip port session_id file_id writer =
     (case v2_download E net protocol ip port session_id file_id of
        Inl e \<Rightarrow> (Inl e, [])
      | Inr res \<Rightarrow> write_stream (body_stream res) writer 0 [])"

subsection \<open>The cache of nonces (lru crate)\<close>

text \<open>
  \<open>LruCache\<close> is third-party code: the parameter record \<open>lru\<close>, and the locale states what
  is used. A put is found again, and it disturbs other keys only by evicting them.
\<close>

record 'c lru =
  lru_new :: "nat \<Rightarrow> 'c"
  lru_put :: "string \<Rightarrow> bytes \<Rightarrow> 'c \<Rightarrow> 'c"
  lru_peek :: "'c \<Rightarrow> string \<Rightarrow> bytes option"
  lru_len :: "'c \<Rightarrow> nat"
  lru_cap :: "'c \<Rightarrow> nat"
  lru_wf :: "'c \<Rightarrow> bool"

locale lru_cache =
  fixes L :: "'c lru"
  assumes peek_new: "lru_peek L (lru_new L n) k = None"
    and wf_new: "0 < n \<Longrightarrow> lru_wf L (lru_new L n)"
    and cap_new: "lru_cap L (lru_new L n) = n"
    and peek_put: "lru_wf L c \<Longrightarrow> lru_peek L (lru_put L k v c) k = Some v"
    and peek_other: "lru_wf L c \<Longrightarrow> j \<noteq> k \<Longrightarrow>
      lru_peek L (lru_put L k v c) j = lru_peek L c j \<or> lru_peek L (lru_put L k v c) j = None"
    and wf_put: "lru_wf L c \<Longrightarrow> lru_wf L (lru_put L k v c)"
    and cap_put: "lru_cap L (lru_put L k v c) = lru_cap L c"
    and len_cap: "lru_wf L c \<Longrightarrow> lru_len L c \<le> lru_cap L c"
begin

lemma put_bounded: "lru_wf L c \<Longrightarrow> lru_len L (lru_put L k v c) \<le> lru_cap L c"
  by (metis cap_put len_cap wf_put)

lemma peek_put_Some:
  "lru_wf L c \<Longrightarrow> lru_peek L (lru_put L k v c) j = Some x \<Longrightarrow> j = k \<and> x = v \<or> j \<noteq> k \<and> lru_peek L c j = Some x"
  by (metis option.distinct(1) option.inject peek_other peek_put)

end

text \<open>An instance: the newest entry first, cut off at the capacity.\<close>

definition list_lru :: "(nat \<times> (string \<times> bytes) list) lru" where
  "list_lru =
     \<lparr>lru_new = (\<lambda>n. (n, [])),
      lru_put = (\<lambda>k v c. (fst c, take (fst c) ((k, v) # filter (\<lambda>p. fst p \<noteq> k) (snd c)))),
      lru_peek = (\<lambda>c k. map_of (snd c) k),
      lru_len = (\<lambda>c. length (snd c)),
      lru_cap = fst,
      lru_wf = (\<lambda>c. 0 < fst c \<and> length (snd c) \<le> fst c)\<rparr>"

lemma map_of_filter_other: "j \<noteq> k \<Longrightarrow> map_of (filter (\<lambda>p. fst p \<noteq> k) xs) j = map_of xs j"
  by (induction xs) auto

lemma map_of_take: "map_of (take n xs) j = map_of xs j \<or> map_of (take n xs) j = None"
proof (induction xs arbitrary: n)
  case (Cons x xs)
  then show ?case by (cases n) auto
qed simp

lemma map_of_take_put:
  "0 < n \<Longrightarrow> map_of (take n ((k, v) # xs)) k = Some v"
  by (cases n) simp_all

interpretation list_lru: lru_cache list_lru
proof (unfold_locales, goal_cases)
  case (5 c j k v)
  then show ?case
    using map_of_take [of "fst c" "(k, v) # filter (\<lambda>p. fst p \<noteq> k) (snd c)" j]
    by (auto simp: list_lru_def map_of_filter_other)
qed (simp_all add: list_lru_def map_of_take_put)

lemma list_lru_cache: "lru_cache list_lru"
  by (rule list_lru.lru_cache_axioms)

subsection \<open>Version 3 (v3.rs)\<close>

definition NONCE_CACHE :: nat where
  "NONCE_CACHE = 200"

record 'c client_v3 =
  c3_received :: 'c
  c3_generated :: 'c

definition client_v3_new :: "'c lru \<Rightarrow> 'c client_v3" where
  "client_v3_new L = \<lparr>c3_received = lru_new L NONCE_CACHE, c3_generated = lru_new L NONCE_CACHE\<rparr>"

definition v3_try_new ::
    "('id, 'cl) reqwest_builder \<Rightarrow> 'c lru \<Rightarrow> string \<Rightarrow> string \<Rightarrow> client_error + 'cl \<times> 'c client_v3" where
  "v3_try_new B L private_key cert =
     rbind (create_reqwest_client B private_key cert) (\<lambda>client. Inr (client, client_v3_new L))"

definition to_identifier :: "http_env \<Rightarrow> http_response \<Rightarrow> bool \<Rightarrow> string option \<Rightarrow> client_error + string" where
  "to_identifier E res require_cert public_key =
     (if require_cert then verify_cert_from_res E res public_key
      else ok_or (CeOther (Anyhow ''Remote address not found in response'')) (map_option show_ip (rs_addr res)))"

definition v3_nonce ::
    "http_env \<Rightarrow> 'c lru \<Rightarrow> (bytes \<Rightarrow> bytes) \<Rightarrow> network \<Rightarrow> protocol_type \<Rightarrow> string \<Rightarrow> u16 \<Rightarrow> 'c client_v3 \<Rightarrow>
       (client_error + string) \<times> 'c client_v3" where
  "v3_nonce E L fill net protocol ip port c =
     (let generated_nonce = generate_nonce fill;
          answer =
            rbind (send net (plain_post (api_url ApiV3 protocol ip port ''/nonce'' [])
                     [to_json_string (he_wire E) enc_nonce_request
                        \<lparr>nq_nonce = b64_encode (he_wire E) generated_nonce\<rparr>])) (\<lambda>res.
            if rs_status res \<noteq> 200 then into_error E res
            else
              rbind (to_identifier E res (protocol = Https) None) (\<lambda>remote_key.
              rbind (response_json E dec_nonce_response res) (\<lambda>body.
              rbind (ok_or (CeOther LibError) (b64_decode (he_wire E) (np_nonce body))) (\<lambda>response_nonce.
              Inr (remote_key, np_nonce body, response_nonce)))))
      in case answer of
           Inl e \<Rightarrow> (Inl e, c)
         | Inr (remote_key, body_nonce, response_nonce) \<Rightarrow>
             (Inr body_nonce,
              c\<lparr>c3_received := lru_put L remote_key response_nonce (c3_received c),
                c3_generated := lru_put L remote_key generated_nonce (c3_generated c)\<rparr>))"

definition v3_register ::
    "http_env \<Rightarrow> network \<Rightarrow> protocol_type \<Rightarrow> string \<Rightarrow> u16 \<Rightarrow> register_dto \<Rightarrow>
       client_error + register_response_dto result_with_public_key" where
  "v3_register E net protocol ip port payload =
     rbind (send net (plain_post (api_url ApiV3 protocol ip port ''/register'' [])
              [to_json_string (he_wire E) enc_register_dto payload])) (\<lambda>res.
     rbind (https_key E protocol res) (\<lambda>public_key.
     rbind (response_json E dec_register_response_dto res) (\<lambda>body.
     Inr \<lparr>rw_public_key = public_key, rw_body = body\<rparr>)))"

definition v3_prepare_upload ::
    "http_env \<Rightarrow> network \<Rightarrow> protocol_type \<Rightarrow> string \<Rightarrow> u16 \<Rightarrow> string option \<Rightarrow> prepare_upload_request_dto \<Rightarrow>
       client_error + prepare_upload_result" where
  "v3_prepare_upload E net protocol ip port public_key payload =
     rbind (send net (plain_post (api_url ApiV3 protocol ip port ''/prepare-upload'' [])
              [to_json_string (he_wire E) enc_prepare_upload_request_dto payload])) (\<lambda>res.
     rbind (https_pinned E protocol public_key res) (\<lambda>_.
     if 400 \<le> rs_status res then into_error E res
     else if rs_status res = 204 then
       Inr \<lparr>pu_status_code = rs_status res, pu_response = None\<rparr>
     else
       rbind (response_json E dec_prepare_upload_response_dto res) (\<lambda>body.
       Inr \<lparr>pu_status_code = rs_status res, pu_response = Some body\<rparr>)))"

definition v3_upload ::
    "http_env \<Rightarrow> network \<Rightarrow> protocol_type \<Rightarrow> string \<Rightarrow> u16 \<Rightarrow> string option \<Rightarrow> string \<Rightarrow> string \<Rightarrow> string \<Rightarrow>
       bytes list \<Rightarrow> client_error + unit" where
  "v3_upload E net protocol ip port public_key session_id file_id token binary =
     rbind (send net (plain_post
              (api_url ApiV3 protocol ip port ''/upload'' (upload_params session_id file_id token)) binary)) (\<lambda>res.
     rbind (https_pinned E protocol public_key res) (\<lambda>_.
     if rs_status res \<noteq> 200 then into_error E res else Inr ()))"

definition v3_cancel :: "network \<Rightarrow> protocol_type \<Rightarrow> string \<Rightarrow> u16 \<Rightarrow> string \<Rightarrow> client_error + unit" where
  "v3_cancel net protocol ip port session_id =
     rbind (send net (plain_post (api_url ApiV3 protocol ip port ''/cancel'' [(''sessionId'', session_id)]) [])) (\<lambda>_.
     Inr ())"

subsection \<open>The client of both versions (mod.rs)\<close>

datatype client_version = UseV2 | UseV3

datatype ('cl, 'c) ls_http_client = HttpClientV2 'cl | HttpClientV3 'cl "'c client_v3"

definition client_new ::
    "('id, 'cl) reqwest_builder \<Rightarrow> 'c lru \<Rightarrow> string \<Rightarrow> string \<Rightarrow> client_version \<Rightarrow> client_error + ('cl, 'c) ls_http_client" where
  "client_new B L private_key cert version =
     (case version of
        UseV2 \<Rightarrow> rbind (v2_try_new B private_key cert) (\<lambda>client. Inr (HttpClientV2 client))
      | UseV3 \<Rightarrow> rbind (v3_try_new B L private_key cert) (\<lambda>(client, maps). Inr (HttpClientV3 client maps)))"

definition client_register ::
    "http_env \<Rightarrow> network \<Rightarrow> client_version \<Rightarrow> protocol_type \<Rightarrow> string \<Rightarrow> u16 \<Rightarrow> register_dto \<Rightarrow>
       client_error + register_response_dto result_with_public_key" where
  "client_register E net v protocol ip port payload =
     (case v of
        UseV2 \<Rightarrow>
          rbind (v2_register E net protocol ip port (register_to_v2 payload)) (\<lambda>r.
          Inr \<lparr>rw_public_key = rw_public_key r, rw_body = register_response_from_v2 (rw_body r)\<rparr>)
      | UseV3 \<Rightarrow> v3_register E net protocol ip port payload)"

definition client_prepare_upload ::
    "http_env \<Rightarrow> network \<Rightarrow> client_version \<Rightarrow> protocol_type \<Rightarrow> string \<Rightarrow> u16 \<Rightarrow> string option \<Rightarrow>
       prepare_upload_request_dto \<Rightarrow> string option \<Rightarrow> client_error + prepare_upload_result" where
  "client_prepare_upload E net v protocol ip port public_key payload pin =
     (case v of
        UseV2 \<Rightarrow>
          rbind (v2_prepare_upload E net protocol ip port public_key (prepare_request_to_v2 payload) pin) (\<lambda>r.
          Inr (prepare_result_from_v2 r))
      | UseV3 \<Rightarrow> v3_prepare_upload E net protocol ip port public_key payload)"

definition client_upload ::
    "http_env \<Rightarrow> network \<Rightarrow> client_version \<Rightarrow> protocol_type \<Rightarrow> string \<Rightarrow> u16 \<Rightarrow> string option \<Rightarrow> string \<Rightarrow>
       string \<Rightarrow> string \<Rightarrow> bytes list \<Rightarrow> client_error + unit" where
  "client_upload E net v protocol ip port public_key session_id file_id token binary =
     (case v of
        UseV2 \<Rightarrow> v2_upload E net protocol ip port public_key session_id file_id token binary
      | UseV3 \<Rightarrow> v3_upload E net protocol ip port public_key session_id file_id token binary)"

definition client_cancel ::
    "network \<Rightarrow> client_version \<Rightarrow> protocol_type \<Rightarrow> string \<Rightarrow> u16 \<Rightarrow> string \<Rightarrow> client_error + unit" where
  "client_cancel net v protocol ip port session_id =
     (case v of
        UseV2 \<Rightarrow> v2_cancel net protocol ip port session_id
      | UseV3 \<Rightarrow> v3_cancel net protocol ip port session_id)"

end
