(* ===== verification/Http_Server.thy ===== *)
theory Http_Server
  imports Http_Client
begin

section \<open>The HTTP server (core/src/http/server)\<close>

text \<open>
  Request handling: routing, the controllers and the error responses. Listening, TLS and
  HTTP framing are done by hyper and rustls; a request arrives here as method, path and
  body, with the connection's address and client certificate.
\<close>

subsection \<open>State and requests (mod.rs)\<close>

record 'c server_state =
  ss_info :: http_client_info
  ss_web :: "unit option"
  ss_received :: 'c
  ss_generated :: 'c

definition server_state_new :: "'c lru \<Rightarrow> http_client_info \<Rightarrow> 'c server_state" where
  "server_state_new L info =
     \<lparr>ss_info = info, ss_web = None, ss_received = lru_new L NONCE_CACHE, ss_generated = lru_new L NONCE_CACHE\<rparr>"

record request_client_info =
  ri_ip :: ip_addr
  ri_cert :: "bytes option"

text \<open>
  The client of a connection: without TLS no certificate; with TLS the first one the peer
  sent, if it sent any (the code unwraps the first element of the list).
\<close>

definition connection_client_info :: "ip_addr \<Rightarrow> bytes list option option \<Rightarrow> request_client_info outcome" where
  "connection_client_info ip tls =
     (case tls of
        None \<Rightarrow> Done \<lparr>ri_ip = ip, ri_cert = None\<rparr>
      | Some None \<Rightarrow> Done \<lparr>ri_ip = ip, ri_cert = None\<rparr>
      | Some (Some []) \<Rightarrow> Panicked
      | Some (Some (c # cs)) \<Rightarrow> Done \<lparr>ri_ip = ip, ri_cert = Some c\<rparr>)"

definition extract_public_key :: "x509 \<Rightarrow> request_client_info \<Rightarrow> string option" where
  "extract_public_key X i =
     (case ri_cert i of Some cert \<Rightarrow> public_key_from_cert_der X cert | None \<Rightarrow> None)"

definition client_identifier :: "x509 \<Rightarrow> request_client_info \<Rightarrow> string" where
  "client_identifier X i = (case extract_public_key X i of Some k \<Rightarrow> k | None \<Rightarrow> show_ip (ri_ip i))"

text \<open>The client certificate check during the TLS handshake (client_cert_verifier.rs).\<close>

datatype tls_error = ApplicationVerificationFailure

definition offer_client_auth :: bool where "offer_client_auth = True"

definition client_auth_mandatory :: bool where "client_auth_mandatory = True"

definition verify_client_cert :: "x509 \<Rightarrow> bytes \<Rightarrow> tls_error + unit" where
  "verify_client_cert X cert = map_err (\<lambda>_. ApplicationVerificationFailure) (verify_cert_from_der X cert None)"

subsection \<open>Responses (response.rs, error.rs)\<close>

record http_reply =
  hr_status :: u16
  hr_content_type :: "string option"
  hr_body :: bytes

definition json_reply :: "wire \<Rightarrow> u16 \<Rightarrow> ('a \<Rightarrow> json) \<Rightarrow> 'a \<Rightarrow> http_reply" where
  "json_reply W status enc body =
     \<lparr>hr_status = status, hr_content_type = Some ''application/json'', hr_body = to_json_string W enc body\<rparr>"

datatype server_error = HyperError | StatusErr u16 | BadRequest string

text \<open>\<open>reason\<close> is the display form of a status code in the http library.\<close>

definition error_to_response :: "wire \<Rightarrow> (u16 \<Rightarrow> string) \<Rightarrow> server_error \<Rightarrow> http_reply" where
  "error_to_response W reason e =
     (case e of
        HyperError \<Rightarrow> json_reply W 500 enc_error_response \<lparr>er_message = ''Internal server error''\<rparr>
      | StatusErr code \<Rightarrow>
          json_reply W code enc_error_response \<lparr>er_message = ''Status code: '' @ reason code\<rparr>
      | BadRequest message \<Rightarrow> json_reply W 400 enc_error_response \<lparr>er_message = message\<rparr>)"

text \<open>The body of a request: \<open>None\<close> when reading it fails (collect_to_json.rs).\<close>

definition collect_to_json :: "wire \<Rightarrow> (json \<Rightarrow> 'a option) \<Rightarrow> bytes option \<Rightarrow> server_error + 'a" where
  "collect_to_json W dec body =
     (case body of
        None \<Rightarrow> Inl HyperError
      | Some b \<Rightarrow> ok_or (BadRequest ''Invalid JSON body'') (from_json_slice W dec b))"

subsection \<open>Controllers (controller/v2.rs, controller/v3.rs)\<close>

definition register_response :: "'c server_state \<Rightarrow> register_response_dto" where
  "register_response st =
     \<lparr>rr_alias = hc_alias (ss_info st), rr_version = hc_version (ss_info st),
      rr_device_model = hc_device_model (ss_info st), rr_device_type = hc_device_type (ss_info st),
      rr_token = hc_token (ss_info st), rr_has_web_interface = (ss_web st \<noteq> None)\<rparr>"

definition v2_register_controller :: "wire \<Rightarrow> bytes option \<Rightarrow> 'c server_state \<Rightarrow> server_error + http_reply" where
  "v2_register_controller W body st =
     rbind (collect_to_json W dec_register_dto body) (\<lambda>payload.
     Inr (json_reply W 200 enc_register_response_dto (register_response st)))"

definition v3_register_controller :: "wire \<Rightarrow> bytes option \<Rightarrow> 'c server_state \<Rightarrow> server_error + http_reply" where
  "v3_register_controller W body st =
     rbind (collect_to_json W dec_register_dto body) (\<lambda>payload.
     Inr (json_reply W 200 enc_register_response_dto (register_response st)))"

definition nonce_exchange ::
    "http_env \<Rightarrow> 'c lru \<Rightarrow> (bytes \<Rightarrow> bytes) \<Rightarrow> bytes option \<Rightarrow> request_client_info \<Rightarrow> 'c server_state \<Rightarrow>
       (server_error + http_reply) \<times> 'c server_state" where
  "nonce_exchange E L fill body client_info st =
     (let W = he_wire E;
          received =
            rbind (collect_to_json W dec_nonce_request body) (\<lambda>payload.
            rbind (ok_or (BadRequest ''Invalid nonce format'') (b64_decode W (nq_nonce payload))) (\<lambda>nonce.
            if \<not> validate_nonce nonce then Inl (BadRequest ''Invalid nonce'') else Inr nonce))
      in case received of
           Inl e \<Rightarrow> (Inl e, st)
         | Inr nonce \<Rightarrow>
             (let remote_key = client_identifier (he_x509 E) client_info;
                  new_nonce = generate_nonce fill
              in (Inr (json_reply W 200 enc_nonce_response \<lparr>np_nonce = b64_encode W new_nonce\<rparr>),
                  st\<lparr>ss_received := lru_put L remote_key nonce (ss_received st),
                     ss_generated := lru_put L remote_key new_nonce (ss_generated st)\<rparr>)))"

subsection \<open>Routing (mod.rs)\<close>

text \<open>All four paths of version 2.1 lead to the same controller.\<close>

definition v2_paths :: "string list" where
  "v2_paths =
     [''/api/localsend/v2/register'', ''/api/localsend/v2/prepare-upload'',
      ''/api/localsend/v2/upload'', ''/api/localsend/v2/cancel'']"

definition not_found :: http_reply where
  "not_found = \<lparr>hr_status = 404, hr_content_type = None, hr_body = []\<rparr>"

definition route ::
    "http_env \<Rightarrow> 'c lru \<Rightarrow> (bytes \<Rightarrow> bytes) \<Rightarrow> bool \<Rightarrow> http_method \<Rightarrow> string \<Rightarrow> bytes option \<Rightarrow>
       request_client_info \<Rightarrow> 'c server_state \<Rightarrow> (server_error + http_reply) \<times> 'c server_state" where
  "route E L fill legacy_enabled meth path body client_info st =
     (if meth = Post \<and> path \<in> set v2_paths then
        (if \<not> legacy_enabled then Inl (StatusErr 404) else v2_register_controller (he_wire E) body st, st)
      else if meth = Post \<and> path = ''/api/localsend/v3/nonce'' then
        nonce_exchange E L fill body client_info st
      else if meth = Post \<and> path = ''/api/localsend/v3/register'' then
        (v3_register_controller (he_wire E) body st, st)
      else (Inr not_found, st))"

text \<open>
  The state and the client are request extensions which the connection task inserts; each
  is taken out once.
\<close>

definition handle_request_inner ::
    "http_env \<Rightarrow> 'c lru \<Rightarrow> (bytes \<Rightarrow> bytes) \<Rightarrow> bool \<Rightarrow> http_method \<Rightarrow> string \<Rightarrow> bytes option \<Rightarrow>
       request_client_info option \<Rightarrow> 'c server_state option \<Rightarrow>
       (server_error + http_reply) \<times> 'c server_state option" where
  "handle_request_inner E L fill legacy_enabled meth path body client_info state =
     (case state of
        None \<Rightarrow> (Inl (StatusErr 500), None)
      | Some st \<Rightarrow>
          (case client_info of
             None \<Rightarrow> (Inl (StatusErr 500), Some st)
           | Some i \<Rightarrow>
               (let (r, st') = route E L fill legacy_enabled meth path body i st in (r, Some st'))))"

definition handle_request ::
    "http_env \<Rightarrow> (u16 \<Rightarrow> string) \<Rightarrow> 'c lru \<Rightarrow> (bytes \<Rightarrow> bytes) \<Rightarrow> bool \<Rightarrow> http_method \<Rightarrow> string \<Rightarrow> bytes option \<Rightarrow>
       request_client_info option \<Rightarrow> 'c server_state option \<Rightarrow> http_reply \<times> 'c server_state option" where
  "handle_request E reason L fill legacy_enabled meth path body client_info state =
     (case handle_request_inner E L fill legacy_enabled meth path body client_info state of
        (Inr r, st) \<Rightarrow> (r, st)
      | (Inl e, st) \<Rightarrow> (error_to_response (he_wire E) reason e, st))"

text \<open>
  A request of a client arriving at a server: the path is that of its URL, the stream of
  its body is collected, and the reply comes back with the server's TLS data and address.
\<close>

definition as_response :: "http_reply \<Rightarrow> bytes option option \<Rightarrow> ip_addr option \<Rightarrow> http_response" where
  "as_response r tls addr = \<lparr>rs_status = hr_status r, rs_body = Some (hr_body r), rs_tls = tls, rs_addr = addr\<rparr>"

definition serve ::
    "http_env \<Rightarrow> (u16 \<Rightarrow> string) \<Rightarrow> 'c lru \<Rightarrow> (bytes \<Rightarrow> bytes) \<Rightarrow> bool \<Rightarrow> request_client_info \<Rightarrow> 'c server_state \<Rightarrow>
       http_request \<Rightarrow> http_reply \<times> 'c server_state option" where
  "serve E reason L fill legacy_enabled client_info st req =
     handle_request E reason L fill legacy_enabled (rq_method req) (url_path (rq_url req))
       (Some (concat (rq_body req))) (Some client_info) (Some st)"

subsection \<open>Lemmas\<close>

lemma rbind_Inl_cases: "rbind r f = Inl e \<longleftrightarrow> r = Inl e \<or> (\<exists>x. r = Inr x \<and> f x = Inl e)"
  by (cases r) auto

lemma nonce_exchange_cases:
  obtains (rejected) e where "nonce_exchange E L fill body ci st = (Inl e, st)" "e = HyperError \<or> (\<exists>m. e = BadRequest m)"
  | (accepted) req nonce where "body = Some req"
      "map_option nq_nonce (from_json_slice (he_wire E) dec_nonce_request req) \<noteq> None"
      "Option.bind (from_json_slice (he_wire E) dec_nonce_request req) (\<lambda>p. b64_decode (he_wire E) (nq_nonce p)) = Some nonce"
      "validate_nonce nonce"
      "nonce_exchange E L fill body ci st =
        (Inr (json_reply (he_wire E) 200 enc_nonce_response \<lparr>np_nonce = b64_encode (he_wire E) (generate_nonce fill)\<rparr>),
         st\<lparr>ss_received := lru_put L (client_identifier (he_x509 E) ci) nonce (ss_received st),
            ss_generated := lru_put L (client_identifier (he_x509 E) ci) (generate_nonce fill) (ss_generated st)\<rparr>)"
proof (cases body)
  case None
  then show ?thesis by (intro rejected [of HyperError]) (simp_all add: nonce_exchange_def collect_to_json_def)
next
  case (Some req)
  show ?thesis
  proof (cases "Option.bind (from_json_slice (he_wire E) dec_nonce_request req) (\<lambda>p. b64_decode (he_wire E) (nq_nonce p))")
    case None
    then show ?thesis using Some
      by (cases "from_json_slice (he_wire E) dec_nonce_request req")
        (auto intro!: rejected simp: nonce_exchange_def collect_to_json_def)
  next
    case (Some nonce)
    with \<open>body = Some req\<close> show ?thesis
      by (cases "from_json_slice (he_wire E) dec_nonce_request req"; cases "validate_nonce nonce")
        (auto intro: accepted rejected simp: nonce_exchange_def collect_to_json_def Let_def)
  qed
qed

lemma route_v2_disabled: "path \<in> set v2_paths \<Longrightarrow> route E L fill False Post path body ci st = (Inl (StatusErr 404), st)"
  by (simp add: route_def)

text \<open>Version 2.1 clients spell the register body in a way the server's type does not accept.\<close>

lemma register_v2_not_v3: "dec_register_dto (enc_register_dto_v2 x) = None"
  by (simp add: dec_register_dto_def enc_register_dto_v2_def fields_register_dto_v2_def codec
      split: option.splits)

end
