(* ===== verification/Http_Session.thy ===== *)
theory Http_Session
  imports Http_Server
begin

section \<open>Clients against the server\<close>

text \<open>
  The network of these lemmas delivers a client's request to the server of
  \<^theory_text>\<open>Http_Server\<close> and brings its reply back, with the server's address and certificate.
\<close>

definition served ::
    "http_env \<Rightarrow> (u16 \<Rightarrow> string) \<Rightarrow> 'c lru \<Rightarrow> (bytes \<Rightarrow> bytes) \<Rightarrow> bool \<Rightarrow> request_client_info \<Rightarrow> 'c server_state \<Rightarrow>
       bytes option option \<Rightarrow> ip_addr option \<Rightarrow> network" where
  "served E reason L fill legacy_enabled ci st tls addr req =
     Some (as_response (fst (serve E reason L fill legacy_enabled ci st req)) tls addr)"

definition no_slash :: "string \<Rightarrow> bool" where
  "no_slash s \<longleftrightarrow> CHR ''/'' \<notin> set s"

lemma api_url_path:
  assumes "no_slash ip" "CHR ''?'' \<notin> set path"
  shows "url_path (api_url version protocol ip port path params) =
    ''/api/localsend/'' @ version_segment version @ path"
proof -
  let ?u = "\<lparr>tu_version = version, tu_protocol = protocol_as_str protocol, tu_host = ip, tu_port = port,
       tu_path = path, tu_params = params\<rparr>"
  have "plain_url ?u"
    using assms by (cases protocol) (simp_all add: plain_url_def protocol_as_str_def no_slash_def)
  from url_path_of [OF this] show ?thesis by (simp add: api_url_def)
qed

lemma post_sel [simp]:
  "rq_method (plain_post u b) = Post" "rq_url (plain_post u b) = u" "rq_body (plain_post u b) = b"
  "rq_method (json_post u s) = Post" "rq_url (json_post u s) = u" "rq_body (json_post u s) = [s]"
  by (simp_all add: plain_post_def json_post_def)

lemma as_response_sel [simp]:
  "rs_status (as_response r tls addr) = hr_status r" "rs_body (as_response r tls addr) = Some (hr_body r)"
  "rs_tls (as_response r tls addr) = tls" "rs_addr (as_response r tls addr) = addr"
  by (simp_all add: as_response_def)

lemma json_reply_sel [simp]:
  "hr_status (json_reply W s enc x) = s" "hr_body (json_reply W s enc x) = to_json_string W enc x"
  by (simp_all add: json_reply_def)

lemma slice_codecs:
  assumes "wire_format W"
  shows "from_json_slice W dec_nonce_request (to_json_string W enc_nonce_request a) = Some a"
    and "from_json_slice W dec_nonce_response (to_json_string W enc_nonce_response b) = Some b"
    and "from_json_slice W dec_register_dto (to_json_string W enc_register_dto c) = Some c"
    and "from_json_slice W dec_register_response_dto (to_json_string W enc_register_response_dto d) = Some d"
    and "from_json_slice W dec_error_response (to_json_string W enc_error_response e) = Some e"
  by (rule from_json_slice_codec [OF assms],
      rule dec_enc_nonce_request dec_enc_nonce_response dec_enc_register_dto dec_enc_register_response_dto
        dec_enc_error_response)+

subsection \<open>Nonce exchange\<close>

lemma nonce_served:
  assumes W: "wire_format (he_wire E)" and v: "validate_nonce n"
  shows "nonce_exchange E L fill (Some (to_json_string (he_wire E) enc_nonce_request
      \<lparr>nq_nonce = b64_encode (he_wire E) n\<rparr>)) ci st =
    (Inr (json_reply (he_wire E) 200 enc_nonce_response \<lparr>np_nonce = b64_encode (he_wire E) (generate_nonce fill)\<rparr>),
     st\<lparr>ss_received := lru_put L (client_identifier (he_x509 E) ci) n (ss_received st),
        ss_generated := lru_put L (client_identifier (he_x509 E) ci) (generate_nonce fill) (ss_generated st)\<rparr>)"
  using v by (simp add: nonce_exchange_def Let_def collect_to_json_def slice_codecs [OF W] wire_format.b64_rt [OF W])

lemma serve_nonce:
  assumes W: "wire_format (he_wire E)" and v: "validate_nonce n" and ip: "no_slash ip"
  shows "serve E reason L fill legacy ci st
      (plain_post (api_url ApiV3 protocol ip port ''/nonce'' [])
        [to_json_string (he_wire E) enc_nonce_request \<lparr>nq_nonce = b64_encode (he_wire E) n\<rparr>]) =
    (json_reply (he_wire E) 200 enc_nonce_response \<lparr>np_nonce = b64_encode (he_wire E) (generate_nonce fill)\<rparr>,
     Some (st\<lparr>ss_received := lru_put L (client_identifier (he_x509 E) ci) n (ss_received st),
        ss_generated := lru_put L (client_identifier (he_x509 E) ci) (generate_nonce fill) (ss_generated st)\<rparr>))"
proof -
  have path: "url_path (api_url ApiV3 protocol ip port ''/nonce'' []) = ''/api/localsend/v3/nonce''"
    by (subst api_url_path [OF ip]) (simp_all add: version_segment_def)
  show ?thesis
    by (simp add: serve_def path handle_request_def handle_request_inner_def route_def v2_paths_def
        nonce_served [OF W v])
qed

text \<open>After an exchange both sides hold the same pair of nonces, under each other's identity.\<close>

lemma nonce_exchange_agrees:
  assumes W: "wire_format (he_wire E)" and L: "lru_cache L" and ip: "no_slash ip"
    and fills: "length (generate_nonce fc) = 32"
    and wf: "lru_wf L (c3_received c)" "lru_wf L (c3_generated c)" "lru_wf L (ss_received st)" "lru_wf L (ss_generated st)"
    and sid: "\<And>r. to_identifier E (as_response r tls addr) (protocol = Https) None = Inr sid"
    and cid: "cid = client_identifier (he_x509 E) ci"
    and run: "v3_nonce E L fc (served E reason L fs legacy ci st tls addr) protocol ip port c = (r, c')"
    and srv: "serve E reason L fs legacy ci st
      (plain_post (api_url ApiV3 protocol ip port ''/nonce'' [])
        [to_json_string (he_wire E) enc_nonce_request \<lparr>nq_nonce = b64_encode (he_wire E) (generate_nonce fc)\<rparr>]) = (reply, Some st')"
  shows "r = Inr (b64_encode (he_wire E) (generate_nonce fs))"
    "lru_peek L (c3_generated c') sid = Some (generate_nonce fc)" "lru_peek L (ss_received st') cid = Some (generate_nonce fc)"
    "lru_peek L (c3_received c') sid = Some (generate_nonce fs)" "lru_peek L (ss_generated st') cid = Some (generate_nonce fs)"
proof -
  have v: "validate_nonce (generate_nonce fc)" using fills by (simp add: validate_nonce_def)
  note srv' = serve_nonce [OF W v ip, of reason L fs legacy ci st protocol port]
  have c': "r = Inr (b64_encode (he_wire E) (generate_nonce fs))"
    "c' = c\<lparr>c3_received := lru_put L sid (generate_nonce fs) (c3_received c),
       c3_generated := lru_put L sid (generate_nonce fc) (c3_generated c)\<rparr>"
    using run srv' sid
    by (auto simp: v3_nonce_def Let_def send_def served_def response_json_def slice_codecs [OF W] wire_format.b64_rt [OF W])
  have st': "st' = st\<lparr>ss_received := lru_put L cid (generate_nonce fc) (ss_received st),
       ss_generated := lru_put L cid (generate_nonce fs) (ss_generated st)\<rparr>"
    using srv srv' cid by simp
  note put = lru_cache.peek_put [OF L]
  show "r = Inr (b64_encode (he_wire E) (generate_nonce fs))" by (rule c'(1))
  show "lru_peek L (c3_generated c') sid = Some (generate_nonce fc)" using put wf by (simp add: c'(2))
  show "lru_peek L (ss_received st') cid = Some (generate_nonce fc)" using put wf by (simp add: st')
  show "lru_peek L (c3_received c') sid = Some (generate_nonce fs)" using put wf by (simp add: c'(2))
  show "lru_peek L (ss_generated st') cid = Some (generate_nonce fs)" using put wf by (simp add: st')
qed

subsection \<open>Registration\<close>

lemma serve_register_v3:
  assumes W: "wire_format (he_wire E)" and ip: "no_slash ip"
  shows "serve E reason L fill legacy ci st
      (plain_post (api_url ApiV3 protocol ip port ''/register'' []) [to_json_string (he_wire E) enc_register_dto payload]) =
    (json_reply (he_wire E) 200 enc_register_response_dto (register_response st), Some st)"
proof -
  have path: "url_path (api_url ApiV3 protocol ip port ''/register'' []) = ''/api/localsend/v3/register''"
    by (subst api_url_path [OF ip]) (simp_all add: version_segment_def)
  show ?thesis
    by (simp add: serve_def path handle_request_def handle_request_inner_def route_def v2_paths_def
        v3_register_controller_def collect_to_json_def slice_codecs [OF W])
qed

lemma register_v3_served:
  assumes W: "wire_format (he_wire E)" and ip: "no_slash ip"
  shows "client_register E (served E reason L fill legacy ci st tls addr) UseV3 Http ip port payload =
    Inr \<lparr>rw_public_key = None, rw_body = register_response st\<rparr>"
  by (simp add: client_register_def v3_register_def send_def served_def serve_register_v3 [OF W ip] https_key_def
      response_json_def slice_codecs [OF W])

lemma serve_register_v2:
  assumes W: "wire_format (he_wire E)" and ip: "no_slash ip"
  shows "serve E reason L fill True ci st
      (json_post (api_url ApiV2 protocol ip port ''/register'' []) (to_json_string (he_wire E) enc_register_dto_v2 payload)) =
    (json_reply (he_wire E) 400 enc_error_response \<lparr>er_message = ''Invalid JSON body''\<rparr>, Some st)"
proof -
  have path: "url_path (api_url ApiV2 protocol ip port ''/register'' []) = ''/api/localsend/v2/register''"
    by (subst api_url_path [OF ip]) (simp_all add: version_segment_def)
  have "from_json_slice (he_wire E) dec_register_dto (to_json_string (he_wire E) enc_register_dto_v2 payload) = None"
    using register_v2_not_v3 by (simp add: from_json_slice_def to_json_string_def wire_format.json_rt [OF W])
  then show ?thesis
    by (simp add: serve_def path handle_request_def handle_request_inner_def route_def v2_paths_def
        v2_register_controller_def collect_to_json_def error_to_response_def)
qed

text \<open>Every registration of a version 2.1 client at this server fails.\<close>

lemma register_v2_served:
  assumes W: "wire_format (he_wire E)" and ip: "no_slash ip" and decoded: "\<And>b. he_text E b = b"
  shows "client_register E (served E reason L fill True ci st tls addr) UseV2 protocol ip port payload =
    Inl (CeStatusCode 400 (Some ''Invalid JSON body''))"
  by (simp add: client_register_def v2_register_def send_def served_def serve_register_v2 [OF W ip]
      into_error_def Let_def decoded slice_codecs [OF W])

end
