(* ===== verification/Http_Listener.thy ===== *)
theory Http_Listener
  imports Http_Session
begin

section \<open>The HTTP server as a running program (core/src/http/server/mod.rs)\<close>

text \<open>
  \<open>start_with_port\<close> spawns one task that runs a listener for IPv4 and one for IPv6 until
  the server is stopped; every connection gets a task of its own. Sockets and TLS are
  libraries: what they report are the parameters of the steps. The steps of the tasks
  interleave in any order over the state all handlers share. A handler is one step: the
  nonce exchange, the only one that writes, keeps its first lock until it returns.
\<close>

subsection \<open>The verifier of client certificates (client_cert_verifier.rs)\<close>

text \<open>
  A trait object is the record of its methods. The two signature checks take the message,
  the certificate and the signature.
\<close>

record client_verifier =
  cv_offer_client_auth :: bool
  cv_client_auth_mandatory :: bool
  cv_root_hint_subjects :: "bytes list"
  cv_verify_client_cert :: "bytes \<Rightarrow> tls_error + unit"
  cv_verify_tls12_signature :: "bytes \<Rightarrow> bytes \<Rightarrow> bytes \<Rightarrow> bool"
  cv_verify_tls13_signature :: "bytes \<Rightarrow> bytes \<Rightarrow> bytes \<Rightarrow> bool"
  cv_supported_verify_schemes :: "u16 list"

definition custom_client_cert_verifier :: "x509 \<Rightarrow> client_verifier \<Rightarrow> client_verifier" where
  "custom_client_cert_verifier X inner =
     \<lparr>cv_offer_client_auth = offer_client_auth,
      cv_client_auth_mandatory = client_auth_mandatory,
      cv_root_hint_subjects = cv_root_hint_subjects inner,
      cv_verify_client_cert = verify_client_cert X,
      cv_verify_tls12_signature = cv_verify_tls12_signature inner,
      cv_verify_tls13_signature = cv_verify_tls13_signature inner,
      cv_supported_verify_schemes = cv_supported_verify_schemes inner\<rparr>"

text \<open>
  The TLS library: reading PEM, a root store with one certificate and the library's own
  verifier for it, the check that certificate and key fit, and the server's side of a
  handshake with a peer: \<open>None\<close> when it fails, otherwise the certificates of the peer.
\<close>

record tls_acceptor =
  ta_verifier :: client_verifier
  ta_cert :: bytes
  ta_key :: bytes

record tls_library =
  tl_cert_from_pem :: "string \<Rightarrow> bytes option"
  tl_key_from_pem :: "string \<Rightarrow> bytes option"
  tl_root_add :: "bytes \<Rightarrow> bool"
  tl_client_verifier :: "bytes \<Rightarrow> client_verifier option"
  tl_single_cert :: "bytes \<Rightarrow> bytes \<Rightarrow> bool"
  tl_accept :: "tls_acceptor \<Rightarrow> bytes \<Rightarrow> bytes list option option"

text \<open>
  What rustls documents of client authentication: when it is offered and mandatory, a
  handshake succeeds only with a peer that sent certificates, the first of which the
  verifier has accepted.
\<close>

locale tls_handshakes =
  fixes T :: tls_library
  assumes mandatory_auth: "tl_accept T a peer = Some certs \<Longrightarrow> cv_offer_client_auth (ta_verifier a) \<Longrightarrow>
    cv_client_auth_mandatory (ta_verifier a) \<Longrightarrow>
    \<exists>c cs. certs = Some (c # cs) \<and> cv_verify_client_cert (ta_verifier a) c = Inr ()"

definition verifier_try_new :: "x509 \<Rightarrow> tls_library \<Rightarrow> string \<Rightarrow> client_verifier option" where
  "verifier_try_new X T cert = do {
     root \<leftarrow> tl_cert_from_pem T cert;
     inner \<leftarrow> (if tl_root_add T root then tl_client_verifier T root else None);
     Some (custom_client_cert_verifier X inner)
   }"

record tls_config =
  tc_cert :: string
  tc_private_key :: string

definition create_tls_config :: "x509 \<Rightarrow> tls_library \<Rightarrow> tls_config \<Rightarrow> tls_acceptor option" where
  "create_tls_config X T config = do {
     cert \<leftarrow> tl_cert_from_pem T (tc_cert config);
     key \<leftarrow> tl_key_from_pem T (tc_private_key config);
     verifier \<leftarrow> verifier_try_new X T (tc_cert config);
     if tl_single_cert T cert key then Some \<lparr>ta_verifier = verifier, ta_cert = cert, ta_key = key\<rparr> else None
   }"

subsection \<open>Listeners and connections\<close>

datatype ip_family = IPv4 | IPv6

datatype listener_phase = Starting | Accepting "tls_acceptor option" | Sleeping

datatype connection_phase = Handshaking tls_acceptor ip_addr | Serving request_client_info

record 'c http_server =
  hv_state :: "'c server_state"
  hv_tls :: "tls_config option"
  hv_legacy :: bool
  hv_running :: bool
  hv_listener :: "ip_family \<Rightarrow> listener_phase"
  hv_conns :: "nat \<Rightarrow> connection_phase option"

text \<open>\<open>start_with_port\<close> returns before anything is bound: both listeners are still to start.\<close>

definition start_with_port :: "'c lru \<Rightarrow> tls_config option \<Rightarrow> http_client_info \<Rightarrow> bool \<Rightarrow> 'c http_server" where
  "start_with_port L tls info legacy_enabled =
     \<lparr>hv_state = server_state_new L info, hv_tls = tls, hv_legacy = legacy_enabled, hv_running = True,
      hv_listener = (\<lambda>_. Starting), hv_conns = (\<lambda>_. None)\<rparr>"

text \<open>
  The \<open>select!\<close> of the spawned task: it ends with the IPv4 listener or with the stop signal,
  which drops both listeners; the branch of the IPv6 listener goes to sleep instead.
\<close>

fun listener_fails :: "ip_family \<Rightarrow> 'c http_server \<Rightarrow> 'c http_server" where
  "listener_fails IPv4 s = s\<lparr>hv_running := False\<rparr>"
| "listener_fails IPv6 s = s\<lparr>hv_listener := (hv_listener s)(IPv6 := Sleeping)\<rparr>"

definition step_stop :: "'c http_server \<Rightarrow> 'c http_server" where
  "step_stop s = s\<lparr>hv_running := False\<rparr>"

text \<open>\<open>start_server_with_addr\<close> up to its loop: \<open>ok\<close> is whether the address could be bound.\<close>

definition step_bind :: "x509 \<Rightarrow> tls_library \<Rightarrow> ip_family \<Rightarrow> bool \<Rightarrow> 'c http_server \<Rightarrow> 'c http_server" where
  "step_bind X T fam ok s =
     (if \<not> ok then listener_fails fam s
      else
        (case hv_tls s of
           None \<Rightarrow> s\<lparr>hv_listener := (hv_listener s)(fam := Accepting None)\<rparr>
         | Some config \<Rightarrow>
             (case create_tls_config X T config of
                None \<Rightarrow> listener_fails fam s
              | Some acceptor \<Rightarrow> s\<lparr>hv_listener := (hv_listener s)(fam := Accepting (Some acceptor))\<rparr>)))"

text \<open>One iteration of the loop: a connection, or the error that ends the listener.\<close>

definition step_accept ::
    "ip_family \<Rightarrow> tls_acceptor option \<Rightarrow> (nat \<times> ip_addr) option \<Rightarrow> 'c http_server \<Rightarrow> 'c http_server" where
  "step_accept fam acceptor incoming s =
     (case incoming of
        None \<Rightarrow> listener_fails fam s
      | Some (c, ip) \<Rightarrow>
          s\<lparr>hv_conns := (hv_conns s)(c \<mapsto>
              (case acceptor of
                 None \<Rightarrow> Serving \<lparr>ri_ip = ip, ri_cert = None\<rparr>
               | Some a \<Rightarrow> Handshaking a ip))\<rparr>)"

text \<open>The task of a connection: the handshake; a failed one or a panic ends the task.\<close>

definition step_handshake :: "tls_library \<Rightarrow> nat \<Rightarrow> tls_acceptor \<Rightarrow> ip_addr \<Rightarrow> bytes \<Rightarrow> 'c http_server \<Rightarrow> 'c http_server" where
  "step_handshake T c acceptor ip peer s =
     s\<lparr>hv_conns := (hv_conns s)(c :=
         (case tl_accept T acceptor peer of
            None \<Rightarrow> None
          | Some certs \<Rightarrow>
              (case connection_client_info ip (Some certs) of
                 Panicked \<Rightarrow> None
               | Done info \<Rightarrow> Some (Serving info))))\<rparr>"

text \<open>A request on a connection: its reply and the state afterwards. \<open>body\<close> is \<open>None\<close> if it cannot be read.\<close>

definition step_request ::
    "http_env \<Rightarrow> (u16 \<Rightarrow> string) \<Rightarrow> 'c lru \<Rightarrow> (bytes \<Rightarrow> bytes) \<Rightarrow> request_client_info \<Rightarrow>
       http_method \<Rightarrow> string \<Rightarrow> bytes option \<Rightarrow> 'c http_server \<Rightarrow> http_reply \<times> 'c http_server" where
  "step_request E reason L fill info meth path body s =
     (case handle_request E reason L fill (hv_legacy s) meth path body (Some info) (Some (hv_state s)) of
        (reply, st) \<Rightarrow> (reply, s\<lparr>hv_state := (case st of None \<Rightarrow> hv_state s | Some st \<Rightarrow> st)\<rparr>))"

definition step_close :: "nat \<Rightarrow> 'c http_server \<Rightarrow> 'c http_server" where
  "step_close c s = s\<lparr>hv_conns := (hv_conns s)(c := None)\<rparr>"

subsection \<open>The steps and the reachable states\<close>

text \<open>A randomness source \<open>fill\<close> fills a buffer of the same length.\<close>

inductive http_step :: "http_env \<Rightarrow> (u16 \<Rightarrow> string) \<Rightarrow> 'c lru \<Rightarrow> tls_library \<Rightarrow> 'c http_server \<Rightarrow> 'c http_server \<Rightarrow> bool"
  for E reason L T where
  bind: "hv_running s \<Longrightarrow> hv_listener s fam = Starting \<Longrightarrow>
     http_step E reason L T s (step_bind (he_x509 E) T fam ok s)"
| accept: "hv_running s \<Longrightarrow> hv_listener s fam = Accepting acceptor \<Longrightarrow>
     (\<And>c ip. incoming = Some (c, ip) \<Longrightarrow> hv_conns s c = None) \<Longrightarrow>
     http_step E reason L T s (step_accept fam acceptor incoming s)"
| stop: "hv_running s \<Longrightarrow> http_step E reason L T s (step_stop s)"
| handshake: "hv_conns s c = Some (Handshaking acceptor ip) \<Longrightarrow>
     http_step E reason L T s (step_handshake T c acceptor ip peer s)"
| request: "hv_conns s c = Some (Serving info) \<Longrightarrow> (\<And>b. length (fill b) = length b) \<Longrightarrow>
     http_step E reason L T s (snd (step_request E reason L fill info meth path body s))"
| close: "hv_conns s c = Some p \<Longrightarrow> http_step E reason L T s (step_close c s)"

inductive http_reachable ::
    "http_env \<Rightarrow> (u16 \<Rightarrow> string) \<Rightarrow> 'c lru \<Rightarrow> tls_library \<Rightarrow> 'c http_server \<Rightarrow> 'c http_server \<Rightarrow> bool"
  for E reason L T s where
  start: "http_reachable E reason L T s s"
| step: "http_reachable E reason L T s t \<Longrightarrow> http_step E reason L T t u \<Longrightarrow> http_reachable E reason L T s u"

inductive_cases http_stepE: "http_step E reason L T s t"

lemma http_reachable_inv:
  assumes "http_reachable E reason L T s t" "I s" "\<And>u v. I u \<Longrightarrow> http_step E reason L T u v \<Longrightarrow> I v"
  shows "I t"
  using assms(1) by induction (auto intro: assms(2,3))

subsection \<open>What one request does to the state\<close>

text \<open>A request leaves the state alone, or it is a nonce exchange and stores one pair.\<close>

lemma handle_cases:
  obtains (same) reply where "handle_request E reason L fill legacy meth path body (Some info) (Some st) = (reply, Some st)"
  | (exchange) reply nonce where "validate_nonce nonce"
      "handle_request E reason L fill legacy meth path body (Some info) (Some st) = (reply, Some
        (st\<lparr>ss_received := lru_put L (client_identifier (he_x509 E) info) nonce (ss_received st),
            ss_generated := lru_put L (client_identifier (he_x509 E) info) (generate_nonce fill) (ss_generated st)\<rparr>))"
proof -
  let ?route = "route E L fill legacy meth path body info st"
  have srv: "\<exists>reply. handle_request E reason L fill legacy meth path body (Some info) (Some st) = (reply, Some (snd ?route))"
    by (cases ?route; cases "fst ?route")
      (auto simp: handle_request_def handle_request_inner_def)
  show ?thesis
  proof (cases "meth = Post \<and> path = ''/api/localsend/v3/nonce''")
    case False
    then have "snd ?route = st" by (auto simp: route_def)
    with srv same show ?thesis by auto
  next
    case True
    then have r: "?route = nonce_exchange E L fill body info st"
      by (simp add: route_def v2_paths_def)
    show ?thesis
    proof (cases rule: nonce_exchange_cases [of E L fill body info st])
      case (rejected e)
      with srv r same show ?thesis by auto
    next
      case (accepted b nonce)
      with srv r exchange show ?thesis by auto
    qed
  qed
qed

text \<open>An invariant of the state of all handlers is one that storing a valid pair of nonces keeps.\<close>

lemma step_request_state:
  assumes "I (hv_state s)" "\<And>b. length (fill b) = length b"
    and "\<And>st nonce own. I st \<Longrightarrow> validate_nonce nonce \<Longrightarrow> validate_nonce own \<Longrightarrow>
      I (st\<lparr>ss_received := lru_put L (client_identifier (he_x509 E) info) nonce (ss_received st),
            ss_generated := lru_put L (client_identifier (he_x509 E) info) own (ss_generated st)\<rparr>)"
  shows "I (hv_state (snd (step_request E reason L fill info meth path body s)))"
  using handle_cases [of E reason L fill "hv_legacy s" meth path body info "hv_state s"]
  by cases (auto simp: step_request_def intro: assms validate_generated)

lemma step_request_frame [simp]:
  "hv_conns (snd (step_request E reason L fill info meth path body s)) = hv_conns s"
  "hv_tls (snd (step_request E reason L fill info meth path body s)) = hv_tls s"
  "hv_running (snd (step_request E reason L fill info meth path body s)) = hv_running s"
  "hv_listener (snd (step_request E reason L fill info meth path body s)) = hv_listener s"
  by (simp_all add: step_request_def split: prod.splits)

lemma listener_fails_frame [simp]:
  "hv_state (listener_fails fam s) = hv_state s" "hv_conns (listener_fails fam s) = hv_conns s"
  "hv_tls (listener_fails fam s) = hv_tls s"
  by (cases fam; simp)+

lemma http_step_state:
  assumes "http_step E reason L T s t"
  obtains (same) "hv_state t = hv_state s"
  | (request) c info fill meth path body where "hv_conns s c = Some (Serving info)" "\<And>b. length (fill b) = length b"
      "t = snd (step_request E reason L fill info meth path body s)"
  using assms
proof cases
  case (request c info fill meth path body)
  then show thesis using that(2) by blast
qed (rule that(1), simp add: step_bind_def step_accept_def step_stop_def step_handshake_def step_close_def
      split: option.splits)+

subsection \<open>Listeners\<close>

text \<open>What the task of \<open>start_with_port\<close> relies on while it runs, and what a connection was let in with.\<close>

definition listeners_ok :: "x509 \<Rightarrow> tls_library \<Rightarrow> 'c http_server \<Rightarrow> bool" where
  "listeners_ok X T s \<longleftrightarrow>
     hv_listener s IPv4 \<noteq> Sleeping \<and>
     (\<forall>fam a. hv_listener s fam = Accepting a \<longrightarrow> a = Option.bind (hv_tls s) (create_tls_config X T) \<and> (a = None \<longleftrightarrow> hv_tls s = None)) \<and>
     (\<forall>c a ip. hv_conns s c = Some (Handshaking a ip) \<longrightarrow> Option.bind (hv_tls s) (create_tls_config X T) = Some a)"

lemma listeners_ok_start: "listeners_ok X T (start_with_port L tls info legacy)"
  by (simp add: listeners_ok_def start_with_port_def)

lemma listeners_ok_fails: "listeners_ok X T s \<Longrightarrow> listeners_ok X T (listener_fails fam s)"
  by (cases fam) (auto simp: listeners_ok_def)

lemma listeners_ok_step:
  assumes "listeners_ok (he_x509 E) T s" "http_step E reason L T s t"
  shows "listeners_ok (he_x509 E) T t"
  using assms(2)
proof cases
  case (bind fam ok)
  then show ?thesis
    using assms(1) listeners_ok_fails [OF assms(1), of fam]
    by (auto simp: step_bind_def listeners_ok_def split: option.splits; blast)
next
  case (accept fam acceptor incoming)
  then show ?thesis
    using assms(1) listeners_ok_fails [OF assms(1), of fam]
    by (auto simp: step_accept_def listeners_ok_def split: option.splits)
next
  case (handshake c acceptor ip peer)
  then show ?thesis
    using assms(1) by (auto simp: step_handshake_def listeners_ok_def split: option.splits outcome.splits)
qed (use assms(1) in \<open>auto simp: listeners_ok_def step_stop_def step_close_def\<close>)

lemma stopped_step:
  assumes "http_step E reason L T s t" "\<not> hv_running s"
  shows "\<not> hv_running t \<and> dom (hv_conns t) \<subseteq> dom (hv_conns s)"
  using assms by cases (auto simp: step_handshake_def step_close_def dom_def split: if_splits)

subsection \<open>Who is served\<close>

text \<open>With TLS, a client is served under the key of a certificate the code has verified.\<close>

definition verified_key :: "x509 \<Rightarrow> string \<Rightarrow> bool" where
  "verified_key X key \<longleftrightarrow> (\<exists>cert. verify_cert_from_der X cert None = Inr () \<and> public_key_from_cert_der X cert = Some key)"

definition serves_verified :: "x509 \<Rightarrow> 'c lru \<Rightarrow> 'c http_server \<Rightarrow> bool" where
  "serves_verified X L s \<longleftrightarrow>
     (\<forall>c i. hv_conns s c = Some (Serving i) \<longrightarrow> verified_key X (client_identifier X i)) \<and>
     (\<forall>k. lru_peek L (ss_received (hv_state s)) k \<noteq> None \<or> lru_peek L (ss_generated (hv_state s)) k \<noteq> None \<longrightarrow> verified_key X k)"

lemma verified_identifier:
  assumes "verify_cert_from_der X cert None = Inr ()"
  shows "verified_key X (client_identifier X \<lparr>ri_ip = ip, ri_cert = Some cert\<rparr>)"
  using assms
  by (auto simp: verified_key_def verify_cert_ok_iff client_identifier_def extract_public_key_def public_key_from_cert_der_def)

lemma config_verifier:
  assumes "create_tls_config X T config = Some a"
  shows "cv_offer_client_auth (ta_verifier a)" "cv_client_auth_mandatory (ta_verifier a)"
    "cv_verify_client_cert (ta_verifier a) = verify_client_cert X"
  using assms
  by (auto simp: create_tls_config_def verifier_try_new_def custom_client_cert_verifier_def offer_client_auth_def
      client_auth_mandatory_def bind_eq_Some_conv split: if_splits)

context tls_handshakes
begin

lemma handshake_verified:
  assumes "create_tls_config X T config = Some a" "tl_accept T a peer = Some certs"
    and "connection_client_info ip (Some certs) = Done info"
  shows "verified_key X (client_identifier X info)"
proof -
  note v = config_verifier [OF assms(1)]
  obtain c cs where c: "certs = Some (c # cs)" "verify_client_cert X c = Inr ()"
    using mandatory_auth [OF assms(2)] v by auto
  moreover have "verify_cert_from_der X c None = Inr ()"
    using c(2) by (auto simp: verify_client_cert_def map_err_def split: sum.splits)
  ultimately show ?thesis
    using assms(3) verified_identifier by (auto simp: connection_client_info_def)
qed

text \<open>The code unwraps the first certificate of the peer: this never panics.\<close>

lemma handshake_no_panic:
  assumes "create_tls_config X T config = Some a" "tl_accept T a peer = Some certs"
  shows "connection_client_info ip (Some certs) \<noteq> Panicked"
  using mandatory_auth [OF assms(2)] config_verifier [OF assms(1)] by (auto simp: connection_client_info_def)

end

subsection \<open>What is stored\<close>

text \<open>Both caches are within their capacity and every nonce in them is one that passes validation.\<close>

definition nonces_ok :: "'c lru \<Rightarrow> 'c \<Rightarrow> bool" where
  "nonces_ok L m \<longleftrightarrow>
     lru_wf L m \<and> lru_cap L m = NONCE_CACHE \<and> (\<forall>k n. lru_peek L m k = Some n \<longrightarrow> validate_nonce n)"

definition store_ok :: "'c lru \<Rightarrow> 'c server_state \<Rightarrow> bool" where
  "store_ok L st \<longleftrightarrow> nonces_ok L (ss_received st) \<and> nonces_ok L (ss_generated st)"

context lru_cache
begin

lemma nonces_ok_new: "nonces_ok L (lru_new L NONCE_CACHE)"
  by (simp add: nonces_ok_def peek_new wf_new cap_new NONCE_CACHE_def)

lemma nonces_ok_put: "nonces_ok L m \<Longrightarrow> validate_nonce n \<Longrightarrow> nonces_ok L (lru_put L k n m)"
  by (auto simp: nonces_ok_def wf_put cap_put dest: peek_put_Some)

lemma store_ok_step:
  assumes "store_ok L (hv_state s)" "http_step E reason L T s t"
  shows "store_ok L (hv_state t)"
  using assms(2)
proof (cases rule: http_step_state)
  case (request c info fill meth path body)
  show ?thesis unfolding request(3)
    by (rule step_request_state [where I = "store_ok L", OF assms(1) request(2)]) (auto simp: store_ok_def nonces_ok_put)
qed (use assms(1) in simp)

lemma peeks_put:
  "lru_wf L m \<Longrightarrow> lru_peek L (lru_put L k n m) j \<noteq> None \<Longrightarrow> j = k \<or> lru_peek L m j \<noteq> None"
  by (metis not_None_eq peek_put_Some)

end

subsection \<open>Reachable states\<close>

lemma reachable_listeners:
  assumes "http_reachable E reason L T (start_with_port L tls info legacy) s"
  shows "listeners_ok (he_x509 E) T s \<and> hv_tls s = tls"
  using assms
proof (induction rule: http_reachable.induct)
  case start
  show ?case by (simp add: listeners_ok_start) (simp add: start_with_port_def)
next
  case (step t u)
  moreover have "hv_tls u = hv_tls t"
    using step(2) by cases (auto simp: step_bind_def step_accept_def step_stop_def step_handshake_def step_close_def split: option.splits)
  ultimately show ?case using listeners_ok_step by auto
qed

lemma reachable_stopped:
  assumes "http_reachable E reason L T s t" "\<not> hv_running s"
  shows "\<not> hv_running t \<and> dom (hv_conns t) \<subseteq> dom (hv_conns s)"
  using assms(1) by induction (use assms(2) stopped_step in \<open>auto, blast+\<close>)

lemma serves_verified_store:
  assumes "lru_cache L" "store_ok L st" "verified_key X k"
    and "\<forall>j. lru_peek L (ss_received st) j \<noteq> None \<or> lru_peek L (ss_generated st) j \<noteq> None \<longrightarrow> verified_key X j"
  shows "\<forall>j. lru_peek L (lru_put L k n (ss_received st)) j \<noteq> None \<or> lru_peek L (lru_put L k m (ss_generated st)) j \<noteq> None
    \<longrightarrow> verified_key X j"
  using assms lru_cache.peeks_put [OF assms(1)] unfolding store_ok_def nonces_ok_def by metis

lemma serves_verified_step:
  assumes T: "tls_handshakes T" and L: "lru_cache L" and tls: "hv_tls s = Some config"
    and s: "serves_verified (he_x509 E) L s" "listeners_ok (he_x509 E) T s" "store_ok L (hv_state s)"
    and step: "http_step E reason L T s t"
  shows "serves_verified (he_x509 E) L t"
  using step
proof cases
  case (bind fam ok)
  then show ?thesis using s(1) by (auto simp: step_bind_def serves_verified_def split: if_splits option.splits)
next
  case (accept fam acceptor incoming)
  moreover from accept have "acceptor \<noteq> None" using s(2) tls by (auto simp: listeners_ok_def)
  ultimately show ?thesis
    using s(1) by (auto simp: step_accept_def serves_verified_def split: if_splits option.splits)
next
  case (handshake c acceptor ip peer)
  then have a: "create_tls_config (he_x509 E) T config = Some acceptor"
    using s(2) tls by (fastforce simp: listeners_ok_def)
  note ok = tls_handshakes.handshake_verified [OF T a]
  show ?thesis unfolding handshake(1)
    using s(1) ok by (auto simp: step_handshake_def serves_verified_def split: if_splits option.splits outcome.splits)
next
  case (request c info fill meth path body)
  then have key: "verified_key (he_x509 E) (client_identifier (he_x509 E) info)"
    using s(1) by (auto simp: serves_verified_def)
  show ?thesis
  proof (cases rule: handle_cases [of E reason L fill "hv_legacy s" meth path body info "hv_state s"])
    case (same reply)
    then show ?thesis using s(1) by (simp add: request(1) step_request_def)
  next
    case (exchange reply nonce)
    then have st: "ss_received (hv_state t) = lru_put L (client_identifier (he_x509 E) info) nonce (ss_received (hv_state s))"
        "ss_generated (hv_state t) = lru_put L (client_identifier (he_x509 E) info) (generate_nonce fill) (ss_generated (hv_state s))"
      and conns: "hv_conns t = hv_conns s"
      by (simp_all add: request(1) step_request_def)
    have stored: "\<forall>j. lru_peek L (ss_received (hv_state s)) j \<noteq> None \<or>
        lru_peek L (ss_generated (hv_state s)) j \<noteq> None \<longrightarrow> verified_key (he_x509 E) j"
      using s(1) unfolding serves_verified_def by (rule conjunct2)
    have served: "\<forall>c i. hv_conns s c = Some (Serving i) \<longrightarrow> verified_key (he_x509 E) (client_identifier (he_x509 E) i)"
      using s(1) unfolding serves_verified_def by (rule conjunct1)
    show ?thesis
      unfolding serves_verified_def conns st
      by (rule conjI [OF served serves_verified_store [OF L s(3) key stored]])
  qed
qed (use s(1) in \<open>auto simp: serves_verified_def step_stop_def step_close_def\<close>)

lemma reachable_store:
  assumes "lru_cache L" "http_reachable E reason L T (start_with_port L tls info legacy) s"
  shows "store_ok L (hv_state s)"
proof (rule http_reachable_inv [OF assms(2), where I = "\<lambda>s. store_ok L (hv_state s)"])
  show "store_ok L (hv_state (start_with_port L tls info legacy))"
    using lru_cache.nonces_ok_new [OF assms(1)] by (simp add: start_with_port_def server_state_new_def store_ok_def)
qed (rule lru_cache.store_ok_step [OF assms(1)])

lemma reachable_verified:
  assumes "tls_handshakes T" "lru_cache L"
    and run: "http_reachable E reason L T (start_with_port L (Some config) info legacy) s"
  shows "serves_verified (he_x509 E) L s"
  using run
proof induction
  case start
  show ?case
    using assms(2) by (simp add: serves_verified_def start_with_port_def server_state_new_def lru_cache.peek_new)
next
  case (step t u)
  with reachable_listeners [OF step(1)] reachable_store [OF assms(2) step(1)] assms(1,2)
  show ?case by (blast intro: serves_verified_step)
qed

subsection \<open>An executable instance\<close>

text \<open>
  For the witnesses: PEM is the identity, every certificate can be a root, the library's
  verifier lets nobody in, and a peer's hello is the certificate it presents.
\<close>

definition ref_verifier :: client_verifier where
  "ref_verifier =
     \<lparr>cv_offer_client_auth = True, cv_client_auth_mandatory = True, cv_root_hint_subjects = [],
      cv_verify_client_cert = (\<lambda>_. Inl ApplicationVerificationFailure),
      cv_verify_tls12_signature = (\<lambda>_ _ _. True), cv_verify_tls13_signature = (\<lambda>_ _ _. True),
      cv_supported_verify_schemes = [0x0807]\<rparr>"

definition ref_tls :: tls_library where
  "ref_tls =
     \<lparr>tl_cert_from_pem = Some, tl_key_from_pem = Some, tl_root_add = (\<lambda>_. True),
      tl_client_verifier = (\<lambda>_. Some ref_verifier), tl_single_cert = (\<lambda>_ _. True),
      tl_accept = (\<lambda>a peer. if cv_offer_client_auth (ta_verifier a)
         then (if cv_verify_client_cert (ta_verifier a) peer = Inr () then Some (Some [peer]) else None)
         else Some None)\<rparr>"

interpretation ref_tls: tls_handshakes ref_tls
  by unfold_locales (auto simp: ref_tls_def split: if_splits)

lemma ref_tls_handshakes: "tls_handshakes ref_tls"
  by (rule ref_tls.tls_handshakes_axioms)

end
