(* ===== verification/Demo_Program.thy ===== *)
theory Demo_Program
  imports App_Webrtc Http_Listener
begin

section \<open>The demonstration program (core/src/main.rs)\<close>

text \<open>
  A program that drives the library with fixed data: it signs in at the signaling server,
  sends a file to the first client that joins, accepts the offers that come before, and runs
  an HTTP server and a version 3 client against each other. The file system is a map from
  paths to contents; the PEM constants of the file are arguments.
\<close>

subsection \<open>Files on disk\<close>

type_synonym disk = "string \<rightharpoonup> bytes"

text \<open>
  One turn of \<open>read_file_to_sender\<close> reads at most 1024 bytes and sends them. \<open>reads\<close>: what
  becomes of each read, \<open>None\<close> for an error, \<open>Some n\<close> when it returns at most \<open>n\<close> bytes, but
  one if there is one; full reads when the list is used up. \<open>sends\<close>: whether the receiver of
  the channel still exists (it does when the list is used up); if not, reading stops
  without an error.
\<close>

definition READ_BUFFER :: nat where
  "READ_BUFFER = 1024"

definition read_limit :: "nat option list \<Rightarrow> nat" where
  "read_limit reads = (case reads of Some n # _ \<Rightarrow> max 1 (min n READ_BUFFER) | _ \<Rightarrow> READ_BUFFER)"

lemma read_limit_pos [simp]: "0 < read_limit reads"
  by (auto simp: read_limit_def READ_BUFFER_def less_max_iff_disj split: list.split option.split)

function read_loop :: "nat option list \<Rightarrow> bool list \<Rightarrow> bytes \<Rightarrow> (unit + unit) \<times> bytes list" where
  "read_loop reads sends content =
     (case reads of
        None # _ \<Rightarrow> (Inl (), [])
      | _ \<Rightarrow>
          (let chunk = take (read_limit reads) content in
           if chunk = [] then (Inr (), [])
           else
             (case sends of
                False # _ \<Rightarrow> (Inr (), [])
              | _ \<Rightarrow>
                  (let (r, chunks) = read_loop (tl reads) (tl sends) (drop (read_limit reads) content)
                   in (r, chunk # chunks)))))"
  by auto
termination by (relation "measure (\<lambda>(_, _, content). length content)") auto

declare read_loop.simps [simp del]

definition read_file_to_sender ::
    "disk \<Rightarrow> string \<Rightarrow> nat option list \<Rightarrow> bool list \<Rightarrow> (unit + unit) \<times> bytes list" where
  "read_file_to_sender files path reads sends =
     (case files path of None \<Rightarrow> (Inl (), []) | Some content \<Rightarrow> read_loop reads sends content)"

text \<open>
  Writing creates the file, which may fail, or empties it, and writes block by block;
  \<open>Some n\<close> is a write that fails after \<open>n\<close> bytes.
\<close>

fun write_blocks :: "nat option list \<Rightarrow> bytes list \<Rightarrow> bytes \<Rightarrow> (unit + unit) \<times> bytes" where
  "write_blocks writes [] written = (Inr (), written)"
| "write_blocks writes (chunk # chunks) written =
     (case writes of
        Some n # _ \<Rightarrow> (Inl (), written @ take n chunk)
      | _ \<Rightarrow> write_blocks (tl writes) chunks (written @ chunk))"

definition write_file_from_receiver ::
    "bool \<Rightarrow> nat option list \<Rightarrow> string \<Rightarrow> bytes list \<Rightarrow> disk \<Rightarrow> (unit + unit) \<times> disk" where
  "write_file_from_receiver can_create writes path blocks files =
     (if \<not> can_create then (Inl (), files)
      else (let (r, written) = write_blocks writes blocks [] in (r, files(path \<mapsto> written))))"

subsection \<open>The sending half\<close>

text \<open>
  The task that answers the requests for a PIN: three tries; at the fourth request it
  panics, so that the answer to this request and the channel of requests are dropped.
\<close>

definition pin_task :: "string list \<Rightarrow> pin_answer list" where
  "pin_task pin_tries = map PinGiven pin_tries @ [PinDropped]"

definition test_file :: "u64 \<Rightarrow> file_dto" where
  "test_file n = \<lparr>fd_id = ''test-123-id'', fd_file_name = ''test.mp4'', fd_size = n, fd_file_type = ''video/mp4'',
     fd_sha256 = None, fd_preview = None, fd_metadata = None\<rparr>"

lemma test_file_id [simp]: "fd_id (test_file n) = ''test-123-id''"
  by (simp add: test_file_def)

definition SEND_PATH :: string where
  "SEND_PATH = ''/Users/user/Downloads/test/send/test.mp4''"

definition send_params :: "bytes \<Rightarrow> (bytes \<Rightarrow> bytes) \<Rightarrow> rtc_params" where
  "send_params key fill =
     \<lparr>rp_signing_key = key, rp_expecting_public_key = None,
      rp_pin = Some \<lparr>pc_pin = ''456'', pc_max_tries = 3\<rparr>, rp_fill = fill\<rparr>"

text \<open>
  The tasks around \<open>send_offer\<close>, as the world it runs in: all statuses and errors are taken,
  PINs are tried, pairing is declined, and after the selection the one file is handed over,
  whatever was selected, with what reading it yields.
\<close>

definition send_tasks :: "disk \<Rightarrow> nat option list \<Rightarrow> bool list \<Rightarrow> rtc_world \<Rightarrow> rtc_world" where
  "send_tasks files reads sends w =
     w\<lparr>status_open := True, selected_open := True, pin_answers := pin_task [''1'', ''2'', ''123''],
       pair_with := PairAnswer False,
       outgoing := [(fd_id (test_file 100), snd (read_file_to_sender files SEND_PATH reads sends))]\<rparr>"

definition STUN_SERVERS :: "string list" where
  "STUN_SERVERS = [''stun:stun.l.google.com:19302'']"

definition send_handler ::
    "wire \<Rightarrow> zlib \<Rightarrow> crypto \<Rightarrow> (bytes \<Rightarrow> bytes) \<Rightarrow> bytes \<Rightarrow> client_info \<Rightarrow> disk \<Rightarrow> nat option list \<Rightarrow> bool list \<Rightarrow> bool \<Rightarrow>
       nego_world \<Rightarrow> rtc_world \<Rightarrow> unit tres \<times> nego_world \<times> rtc_world" where
  "send_handler W Z C fill key peer files reads sends opens n w =
     offer_run W Z C STUN_SERVERS (ci_id peer) (send_params key fill) [test_file 100] opens n
       (send_tasks files reads sends w)"

subsection \<open>The receiving half\<close>

definition receive_params :: "bytes \<Rightarrow> (bytes \<Rightarrow> bytes) \<Rightarrow> rtc_params" where
  "receive_params key fill =
     \<lparr>rp_signing_key = key, rp_expecting_public_key = None,
      rp_pin = Some \<lparr>pc_pin = ''123'', pc_max_tries = 3\<rparr>, rp_fill = fill\<rparr>"

definition file_success :: "string \<Rightarrow> rtc_send_file_response" where
  "file_success i = \<lparr>fr_id = i, fr_success = True, fr_error = None\<rparr>"

text \<open>
  Everything that is offered is selected. A file is reported as received once it is written;
  \<open>good\<close> is the number of files of which this succeeds before the first failure, at which
  the task panics.
\<close>

definition receive_tasks :: "nat \<Rightarrow> rtc_world \<Rightarrow> rtc_world" where
  "receive_tasks good w =
     w\<lparr>status_open := True, files_open := True, pin_answers := pin_task [''1'', ''2'', ''456''],
       choice := (\<lambda>files. SelectionFiles (remdups (map fd_id files))),
       file_results := replicate good file_success\<rparr>"

definition receive_path :: "file_dto \<Rightarrow> string" where
  "receive_path f = ''/Users/user/Downloads/test/'' @ fd_file_name f"

text \<open>
  The loop over the files that arrive, on the disk: \<open>fault\<close> is what the write that fails
  does (whether its file is created, and the outcomes of its writes).
\<close>

fun write_received ::
    "nat \<Rightarrow> bool \<times> nat option list \<Rightarrow> file_dto list \<Rightarrow> (string \<times> bytes list) list \<Rightarrow> disk \<Rightarrow> disk" where
  "write_received good fault shown [] files = files"
| "write_received good fault shown ((i, blocks) # rest) files =
     (case find (\<lambda>f. fd_id f = i) shown of
        None \<Rightarrow> files
      | Some dto \<Rightarrow>
          (case good of
             0 \<Rightarrow> snd (write_file_from_receiver (fst fault) (snd fault) (receive_path dto) blocks files)
           | Suc good' \<Rightarrow>
               write_received good' fault shown rest
                 (snd (write_file_from_receiver True [] (receive_path dto) blocks files))))"

definition receive_handler ::
    "wire \<Rightarrow> zlib \<Rightarrow> crypto \<Rightarrow> (bytes \<Rightarrow> bytes) \<Rightarrow> (nat \<Rightarrow> string) \<Rightarrow> bytes \<Rightarrow> ws_server_sdp_message \<Rightarrow> nat \<Rightarrow>
       bool \<times> nat option list \<Rightarrow> string list \<Rightarrow> nego_world \<Rightarrow> rtc_world \<Rightarrow> disk \<Rightarrow>
       (unit tres \<times> nego_world \<times> rtc_world) \<times> disk" where
  "receive_handler W Z C fill new_token key off good fault labels n w files =
     (let (r, n', w') = accept_run W Z C STUN_SERVERS off (receive_params key fill) new_token labels n
            (receive_tasks good w)
      in ((r, n', w'),
          case observe shown_of (trace w') of
            [] \<Rightarrow> files
          | shown # _ \<Rightarrow> write_received good fault shown (streams None (trace w')) files))"

subsection \<open>The signaling loop\<close>

datatype demo_action = SendTo client_info | ReceiveFrom ws_server_sdp_message

text \<open>The first client that joins is sent the file, and then the function returns.\<close>

fun signaling_loop :: "ws_server_message list \<Rightarrow> demo_action list" where
  "signaling_loop [] = []"
| "signaling_loop (message # messages) =
     (case message of
        SJoin peer \<Rightarrow> [SendTo peer]
      | SOffer off \<Rightarrow> ReceiveFrom off # signaling_loop messages
      | _ \<Rightarrow> signaling_loop messages)"

definition test_info :: client_info_without_id where
  "test_info =
     \<lparr>cw_alias = ''test'', cw_version = ''2.3'', cw_device_model = Some ''test'', cw_device_type = Some Desktop,
      cw_token = ''test''\<rparr>"

definition webrtc_test ::
    "(string \<Rightarrow> client_info_without_id \<Rightarrow> string + ws_server_message list) \<Rightarrow> string + demo_action list" where
  "webrtc_test signaling =
     rbind (signaling ''wss://public.localsend.org/v1/ws'' test_info) (\<lambda>messages. Inr (signaling_loop messages))"

subsection \<open>The HTTP server and its client\<close>

definition server_test_info :: http_client_info where
  "server_test_info =
     \<lparr>hc_alias = ''Server-Test'', hc_version = ''1.2.3'', hc_device_model = None, hc_device_type = None, hc_token = ''456''\<rparr>"

definition server_test :: "'c lru \<Rightarrow> tls_config \<Rightarrow> 'c http_server" where
  "server_test L pems = start_with_port L (Some pems) server_test_info True"

definition client_register_dto :: register_dto where
  "client_register_dto =
     \<lparr>rg_alias = ''test 2'', rg_version = ''2.3'', rg_device_model = Some ''test'', rg_device_type = Some Headless,
      rg_token = ''test'', rg_port = 53317, rg_protocol = Https, rg_has_web_interface = False\<rparr>"

definition client_prepare_dto :: prepare_upload_request_dto where
  "client_prepare_dto =
     \<lparr>pq_info = client_register_dto, pq_files = hm_insert (fd_id (test_file 1000)) (test_file 1000) hm_empty\<rparr>"

text \<open>
  What the client prints, and how it ends: an error of any call ends it. \<open>net k\<close> is the
  network at the time of call \<open>k\<close>.
\<close>

datatype client_output =
    PrintNonce string
  | PrintRegistered "register_response_dto result_with_public_key"
  | PrintPrepared "prepare_upload_response_dto option"

definition client_test ::
    "http_env \<Rightarrow> ('id, 'cl) reqwest_builder \<Rightarrow> 'c lru \<Rightarrow> (bytes \<Rightarrow> bytes) \<Rightarrow> tls_config \<Rightarrow> (nat \<Rightarrow> network) \<Rightarrow>
       (client_error + unit) \<times> client_output list" where
  "client_test E B L fill pems net =
     (case v3_try_new B L (tc_private_key pems) (tc_cert pems) of
        Inl e \<Rightarrow> (Inl e, [])
      | Inr (client, maps) \<Rightarrow>
          (case v3_nonce E L fill (net 0) Https ''localhost'' 53317 maps of
             (Inl e, _) \<Rightarrow> (Inl e, [])
           | (Inr nonce, _) \<Rightarrow>
               (case v3_register E (net 1) Https ''localhost'' 53317 client_register_dto of
                  Inl e \<Rightarrow> (Inl e, [PrintNonce nonce])
                | Inr response \<Rightarrow>
                    (case v3_prepare_upload E (net 2) Https ''localhost'' 53317 None client_prepare_dto of
                       Inl e \<Rightarrow> (Inl e, [PrintNonce nonce, PrintRegistered response])
                     | Inr prepared \<Rightarrow>
                         (Inr (), [PrintNonce nonce, PrintRegistered response, PrintPrepared (pu_response prepared)])))))"

text \<open>
  The program: an error of the first part ends it; then the server, which runs until the
  program ends, and the client, which starts two seconds later.
\<close>

definition demo_main ::
    "(string \<Rightarrow> client_info_without_id \<Rightarrow> string + ws_server_message list) \<Rightarrow>
       http_env \<Rightarrow> ('id, 'cl) reqwest_builder \<Rightarrow> 'c lru \<Rightarrow> (bytes \<Rightarrow> bytes) \<Rightarrow> tls_config \<Rightarrow> (nat \<Rightarrow> network) \<Rightarrow>
       string + (demo_action list \<times> 'c http_server \<times> client_output list)" where
  "demo_main signaling E B L fill pems net =
     rbind (webrtc_test signaling) (\<lambda>actions.
     Inr (actions, server_test L pems, snd (client_test E B L fill pems net)))"

subsection \<open>Tokens\<close>

text \<open>
  \<open>crypto_test\<close> (not called by the program): a key, a token of the present time, and
  the check of a fixed token with a fixed key, which accepts any salt.
\<close>

record crypto_output =
  co_private_key :: string
  co_public_key :: string
  co_token :: string
  co_verified :: "(anyhow + unit) outcome"

definition FIXED_KEY :: string where
  "FIXED_KEY = ''-----BEGIN PUBLIC KEY-----'' @ [CHR 0x0A] @
     ''MCowBQYDK2VwAyEAZmdXP230oqK92o65ra3XaF2F8r3+fK5DEBK4c40qVts='' @ [CHR 0x0A] @ ''-----END PUBLIC KEY-----''"

definition FIXED_TOKEN :: string where
  "FIXED_TOKEN = ''sha256.RikOdJlAUTdMVFZjEk7Bft5G9cxnNBBLfgttPpyS2FY.hJCuZwAAAAA.ed25519.'' @
     ''iNgHrRzX2Iel-Ozj47yn5o5v0cGY_BswK6JYqwY65j7Krpr43KanAaCrjUng7gHtc2pCcylUrKswR_rxyswhDA''"

definition crypto_test :: "wire \<Rightarrow> crypto \<Rightarrow> u64 option \<Rightarrow> bytes \<Rightarrow> crypto_output option" where
  "crypto_test W C now key = do {
     pem \<leftarrow> export_private_key C key;
     public_key \<leftarrow> export_public_key C key;
     fingerprint \<leftarrow> generate_token_timestamp W C now key;
     parsed_key \<leftarrow> parse_public_key C FIXED_KEY ''ed25519'';
     Some \<lparr>co_private_key = pem, co_public_key = public_key, co_token = fingerprint,
       co_verified = verify_token_with_result W C parsed_key FIXED_TOKEN (\<lambda>_. Done (Inr ()))\<rparr>
   }"

subsection \<open>Lemmas\<close>

lemma no_failure: "None \<notin> set xs \<Longrightarrow> xs = [] \<or> (\<exists>x ys. xs = Some x # ys)"
  by (cases xs; cases "hd xs") auto

lemma read_loop_end: "None \<notin> set reads \<Longrightarrow> read_loop reads sends [] = (Inr (), [])"
  by (subst read_loop.simps) (use no_failure [of reads] in auto)

lemma read_loop_step:
  assumes "None \<notin> set reads" "False \<notin> set sends" "content \<noteq> []"
    and "read_loop (tl reads) (tl sends) (drop (read_limit reads) content) = (r, chunks)"
  shows "read_loop reads sends content = (r, take (read_limit reads) content # chunks)"
proof -
  have "take (read_limit reads) content \<noteq> []" using assms(3) by simp
  moreover have "reads = [] \<or> (\<exists>n rs. reads = Some n # rs)" using assms(1) by (rule no_failure)
  moreover have "sends = [] \<or> (\<exists>rs. sends = True # rs)" using assms(2) by (cases sends) auto
  ultimately show ?thesis using assms(4) by (subst read_loop.simps) (auto simp: Let_def)
qed

lemma read_loop_complete:
  "None \<notin> set reads \<Longrightarrow> False \<notin> set sends \<Longrightarrow>
   \<exists>chunks. read_loop reads sends content = (Inr (), chunks) \<and> concat chunks = content"
proof (induction "length content" arbitrary: reads sends content rule: less_induct)
  case less
  show ?case
  proof (cases "content = []")
    case True
    then show ?thesis using read_loop_end [OF less.prems(1)] by simp
  next
    case False
    let ?rest = "drop (read_limit reads) content"
    have "length ?rest < length content" using False by simp
    moreover have "None \<notin> set (tl reads)" "False \<notin> set (tl sends)"
      using less.prems list.set_sel(2) by (cases reads; cases sends; force)+
    ultimately obtain chunks where rest: "read_loop (tl reads) (tl sends) ?rest = (Inr (), chunks)" "concat chunks = ?rest"
      using less.hyps by blast
    show ?thesis using read_loop_step [OF less.prems False rest(1)] rest(2) by simp
  qed
qed

lemma write_blocks_complete: "write_blocks [] blocks written = (Inr (), written @ concat blocks)"
  by (induction blocks arbitrary: written) simp_all

lemma single_stream:
  assumes "map (\<lambda>(i, bs). (i, concat bs)) xs = [(i, content)]"
  obtains blocks where "xs = [(i, blocks)]" "concat blocks = content"
  using assms by auto

text \<open>Two programs: one joins after the other, which sends it the file.\<close>

lemma demo_transfer_runs:
  assumes crypto: "wire_format W" "signature_scheme C"
    and nonces: "validate_nonce (generate_nonce fa)" "validate_nonce (generate_nonce fb)"
    and worlds: "healthy ws" "healthy wr" "trace ws = []" "trace wr = []"
    and disk: "disk SEND_PATH = Some content" "None \<notin> set reads" "False \<notin> set sends"
    and sending: "ready na" "local_sdp na = Some sa" "answer na = Some remote" "decode_sdp W Z remote = Inr sb"
    and receiving: "ready nb" "local_sdp nb = Some sb'" "decode_sdp W Z (sm_sdp off) = Inr sa'"
      "CHANNEL_LABEL \<in> set labels"
  shows "\<exists>to_sender to_receiver na' nb' ws' wr'.
    send_handler W Z C fa ka peer disk reads sends True na (ws\<lparr>rx := to_sender\<rparr>) = (Ok (), na', ws') \<and>
    receive_handler W Z C fb nt kb off (Suc more_files) fault labels nb (wr\<lparr>rx := to_receiver\<rparr>) target =
      ((Ok (), nb', wr'), target(receive_path (test_file 100) \<mapsto> content)) \<and>
    dc_out (trace ws') = to_receiver \<and> dc_out (trace wr') = to_sender"
proof -
  let ?S = "send_params ka fa" and ?R = "receive_params kb fb"
  let ?ws = "send_tasks disk reads sends ws" and ?wr = "receive_tasks (Suc more_files) wr"
  obtain chunks where chunks: "read_loop reads sends content = (Inr (), chunks)" "concat chunks = content"
    using read_loop_complete [OF disk(2,3)] by blast
  have nonces': "validate_nonce (local_nonce_of ?S)" "validate_nonce (local_nonce_of ?R)"
    using nonces by (simp_all add: local_nonce_of_def send_params_def receive_params_def)
  have expects: "expects C ?S ?R" "expects C ?R ?S"
    by (simp_all add: expects_def send_params_def receive_params_def)
  have pins: "passes (rp_pin ?R) [''1'', ''2''] (pin_answers ?ws)" "passes (rp_pin ?S) [''1'', ''2''] (pin_answers ?wr)"
    by (simp_all add: passes_def send_params_def receive_params_def send_tasks_def receive_tasks_def pin_task_def)
  have out: "outgoing ?ws = [(''test-123-id'', chunks)]"
    by (simp add: send_tasks_def read_file_to_sender_def disk chunks)
  have w: "healthy ?ws" "healthy ?wr" "trace ?ws = []" "trace ?wr = []"
    using worlds by (simp_all add: healthy_def send_tasks_def receive_tasks_def)
  have sel: "choice ?wr [test_file 100] = SelectionFiles [''test-123-id'']"
    "set [''test-123-id''] \<subseteq> fd_id ` set [test_file 100]"
    "\<exists>f \<in> set (outgoing ?ws). fst f \<in> set [''test-123-id'']"
    by (simp_all add: receive_tasks_def out)
  obtain to_sender to_receiver ws' wr' where run:
    "offer_task W C ?S [test_file 100] (?ws\<lparr>rx := to_sender\<rparr>) = (Ok (Go ()), ws')"
    "accept_task W C ?R nt (?wr\<lparr>rx := to_receiver\<rparr>) = (Ok (Go ()), wr')"
    and got: "dc_out (trace ws') = to_receiver" "dc_out (trace wr') = to_sender"
      "received None (trace wr') = [(''test-123-id'', content)]" "observe shown_of (trace wr') = [[test_file 100]]"
    using session_run [OF crypto nonces' expects pins w sel, where nt = nt] by (auto simp: out chunks(2))
  obtain es where "trace wr' = trace (?wr\<lparr>rx := to_receiver\<rparr>) @ es" "stream_end None es = Some None"
    by (rule accept_task_safe [OF run(2)]) (auto simp: adds_def)
  then have "stream_end None (trace wr') = Some None" using w(4) by simp
  then have "map (\<lambda>(i, bs). (i, concat bs)) (streams None (trace wr')) = [(''test-123-id'', content)]"
    using streams_received [of None "trace wr'"] got(3) by simp
  then obtain blocks where blocks: "streams None (trace wr') = [(''test-123-id'', blocks)]" "concat blocks = content"
    by (rule single_stream)
  obtain na' where na: "offer_run W Z C STUN_SERVERS (ci_id peer) ?S [test_file 100] True na (?ws\<lparr>rx := to_sender\<rparr>) = (Ok (), na', ws')"
    by (rule offer_run_Ok [OF sending run(1)])
  obtain nb' where nb: "accept_run W Z C STUN_SERVERS off ?R nt labels nb (?wr\<lparr>rx := to_receiver\<rparr>) = (Ok (), nb', wr')"
    by (rule accept_run_Ok [OF receiving run(2)])
  have "send_tasks disk reads sends (ws\<lparr>rx := to_sender\<rparr>) = ?ws\<lparr>rx := to_sender\<rparr>"
    "receive_tasks (Suc more_files) (wr\<lparr>rx := to_receiver\<rparr>) = ?wr\<lparr>rx := to_receiver\<rparr>"
    by (simp_all add: send_tasks_def receive_tasks_def)
  then have "send_handler W Z C fa ka peer disk reads sends True na (ws\<lparr>rx := to_sender\<rparr>) = (Ok (), na', ws')"
    "receive_handler W Z C fb nt kb off (Suc more_files) fault labels nb (wr\<lparr>rx := to_receiver\<rparr>) target =
      ((Ok (), nb', wr'), target(receive_path (test_file 100) \<mapsto> content))"
    by (simp_all add: send_handler_def receive_handler_def na nb got(4) blocks write_file_from_receiver_def
        write_blocks_complete)
  with got(1,2) show ?thesis by blast
qed

text \<open>
  The client against the server, whatever other clients do in between: the nonces are exchanged and the registration is answered,
  then the program ends with an error, as the server has no path for \<open>prepare-upload\<close>.
\<close>

lemma prepare_upload_v3_served:
  assumes ip: "no_slash ip" and plain: "he_text E [] = []" and W: "from_json_slice (he_wire E) dec_error_response [] = None"
    and cert: "protocol = Https \<longrightarrow> (\<exists>cert. tls = Some (Some cert) \<and> (\<exists>k. verify_cert_from_res E
      \<lparr>rs_status = 404, rs_body = Some [], rs_tls = tls, rs_addr = addr\<rparr> public_key = Inr k))"
  shows "v3_prepare_upload E (served E reason L fill legacy ci st tls addr) protocol ip port public_key payload =
    Inl (CeStatusCode 404 None)"
proof -
  have path: "url_path (api_url ApiV3 protocol ip port ''/prepare-upload'' []) = ''/api/localsend/v3/prepare-upload''"
    by (subst api_url_path [OF ip]) (simp_all add: version_segment_def)
  have reply: "as_response (fst (serve E reason L fill legacy ci st
      (plain_post (api_url ApiV3 protocol ip port ''/prepare-upload'' [])
        [to_json_string (he_wire E) enc_prepare_upload_request_dto payload]))) tls addr =
    \<lparr>rs_status = 404, rs_body = Some [], rs_tls = tls, rs_addr = addr\<rparr>"
    by (simp add: serve_def path handle_request_def handle_request_inner_def route_def v2_paths_def as_response_def
        not_found_def)
  show ?thesis using cert
    by (auto simp: v3_prepare_upload_def send_def served_def reply https_pinned_def into_error_def Let_def plain W)
qed

lemma verify_cert_as_response:
  "verify_cert_from_res E (as_response r tls addr) public_key =
   verify_cert_from_res E \<lparr>rs_status = 404, rs_body = Some [], rs_tls = tls, rs_addr = addr\<rparr> public_key"
  by (simp add: verify_cert_from_res_def)

lemma client_test_runs:
  assumes W: "wire_format (he_wire E)" and fill: "length (generate_nonce fc) = 32"
    and plain: "he_text E [] = []" "from_json_slice (he_wire E) dec_error_response [] = None"
    and built: "v3_try_new B L (tc_private_key pems) (tc_cert pems) = Inr (client, maps)"
    and cert: "verify_cert_from_der (he_x509 E) cert None = Inr ()" "public_key_from_cert_der (he_x509 E) cert = Some k"
    and state: "\<And>n. ss_info (st n) = server_test_info" "\<And>n. ss_web (st n) = None"
    and net: "\<And>n. net n = served E reason L fs legacy (ci n) (st n) (Some (Some cert)) addr"
  shows "client_test E B L fc pems net =
    (Inl (CeStatusCode 404 None),
     [PrintNonce (b64_encode (he_wire E) (generate_nonce fs)),
      PrintRegistered \<lparr>rw_public_key = Some k, rw_body = register_response (hv_state (server_test L pems))\<rparr>])"
proof -
  have ip: "no_slash ''localhost''" by (simp add: no_slash_def)
  have v: "validate_nonce (generate_nonce fc)" using fill by (simp add: validate_nonce_def)
  have key: "verify_cert_from_res E (as_response r (Some (Some cert)) addr) None = Inr k" for r
    using cert by (simp add: verify_cert_from_res_def)
  obtain maps' where nonce: "v3_nonce E L fc (net 0) Https ''localhost'' 53317 maps =
      (Inr (b64_encode (he_wire E) (generate_nonce fs)), maps')"
    by (simp add: v3_nonce_def Let_def send_def net served_def serve_nonce [OF W v ip] to_identifier_def key
        response_json_def slice_codecs [OF W] wire_format.b64_rt [OF W])
  have "register_response (st 1) = register_response (hv_state (server_test L pems))"
    using state [of 1] by (simp add: register_response_def server_test_def start_with_port_def server_state_new_def)
  then have reg: "v3_register E (net 1) Https ''localhost'' 53317 client_register_dto =
      Inr \<lparr>rw_public_key = Some k, rw_body = register_response (hv_state (server_test L pems))\<rparr>"
    by (simp add: v3_register_def send_def net served_def serve_register_v3 [OF W ip] https_key_def key
        response_json_def slice_codecs [OF W])
  have "v3_prepare_upload E (net 2) Https ''localhost'' 53317 None client_prepare_dto = Inl (CeStatusCode 404 None)"
    unfolding net by (rule prepare_upload_v3_served [OF ip plain])
      (use key in \<open>auto simp: verify_cert_as_response\<close>)
  with nonce reg built show ?thesis by (simp add: client_test_def)
qed

end
