(* ===== verification/Rtc_Causal.thy ===== *)
theory Rtc_Causal
  imports Rtc_Session "HOL-Library.Sublist"
begin

section \<open>What a transfer task has sent when it waits\<close>

text \<open>
  A task is a function of all the messages it will receive. Run on the messages that have
  arrived so far, it finds its stream closed where in reality it waits; what it has sent up
  to there is what it has sent when it waits. This is a sound reading because the tasks are
  causal: what they do before they find the stream closed does not depend on what comes
  later. Causality is proved by rules that follow the structure of a task, separately for
  the tasks that do not receive at all.
\<close>

definition upto_closed :: "event list \<Rightarrow> event list" where
  "upto_closed es = takeWhile (\<lambda>e. e \<noteq> EvClosed) es"

definition sent_by :: "'a rtc \<Rightarrow> rtc_world \<Rightarrow> dc_msg list \<Rightarrow> dc_msg list" where
  "sent_by m w xs = dc_out (upto_closed (trace (snd (m (w\<lparr>rx := xs\<rparr>)))))"

lemma upto_closed_simps [simp]:
  "upto_closed [] = []" "upto_closed (e # es) = (if e = EvClosed then [] else e # upto_closed es)"
  "EvClosed \<notin> set es \<Longrightarrow> upto_closed (es @ es') = es @ upto_closed es'"
  "EvClosed \<in> set es \<Longrightarrow> upto_closed (es @ es') = upto_closed es"
  by (auto simp: upto_closed_def takeWhile_append1 [of EvClosed] intro: takeWhile_append2)

lemma upto_closed_id [simp]: "EvClosed \<notin> set es \<Longrightarrow> upto_closed es = es"
  using upto_closed_simps(3) [of es "[]"] by simp

lemma upto_closed_none: "EvClosed \<notin> set (upto_closed es)"
  by (auto simp: upto_closed_def dest: set_takeWhileD)

lemma prefix_upto_closed: "prefix (upto_closed es) es' \<Longrightarrow> prefix (upto_closed es) (upto_closed es')"
  by (auto elim!: prefixE simp: upto_closed_none)

lemma dc_out_prefix: "prefix es es' \<Longrightarrow> prefix (dc_out es) (dc_out es')"
  by (auto elim!: prefixE)

subsection \<open>Tasks that do not receive\<close>

definition silent :: "'a rtc \<Rightarrow> bool" where
  "silent m \<longleftrightarrow> (\<forall>w xs. m (w\<lparr>rx := xs\<rparr>) = (fst (m w), (snd (m w))\<lparr>rx := xs\<rparr>)) \<and>
     (\<forall>w. \<exists>es. trace (snd (m w)) = trace w @ es \<and> EvClosed \<notin> set es)"

named_theorems silent

lemma silentI:
  assumes "\<And>w xs. m (w\<lparr>rx := xs\<rparr>) = (fst (m w), (snd (m w))\<lparr>rx := xs\<rparr>)"
    and "\<And>w. \<exists>es. trace (snd (m w)) = trace w @ es \<and> EvClosed \<notin> set es"
  shows "silent m"
  using assms by (simp add: silent_def)

lemma silent_rx: "silent m \<Longrightarrow> m (w\<lparr>rx := xs\<rparr>) = (fst (m w), (snd (m w))\<lparr>rx := xs\<rparr>)"
  by (simp add: silent_def)

lemma silent_adds:
  assumes "silent m"
  obtains es where "trace (snd (m w)) = trace w @ es" "EvClosed \<notin> set es"
  using assms unfolding silent_def by blast

lemma silent_basic [silent]: "silent (ret x)" "silent (fail e)" "silent panic" "silent (of_option e y)"
  by (cases y; rule silentI; simp add: ret_def fail_def panic_def of_option_def)+

lemma silent_emit [silent]: "e \<noteq> EvClosed \<Longrightarrow> silent (emit e)"
  by (rule silentI) (simp_all add: emit_def)

lemma silent_sends [silent]: "silent (send_text s)" "silent (send_bin b)" "silent send_delimiter" "silent (send_json W enc y)"
proof -
  have send: "silent (dc_send e)" if "e \<noteq> EvClosed" for e
    using that by (intro silentI) (auto simp: dc_send_def emit_def split: list.split option.split)
  then show "silent (send_text s)" "silent (send_bin b)" "silent send_delimiter" "silent (send_json W enc y)"
    by (simp_all add: send_text_def send_bin_def send_delimiter_def send_json_def)
qed

lemma silent_steps [silent]: "silent (send_status st)" "silent wait_buffer_empty" "silent (file_error i e)"
  by (simp_all add: wait_buffer_empty_def file_error_def silent_emit)
    (rule silentI; simp add: send_status_def emit_def)

lemma silent_tbind [silent]:
  assumes m: "silent m" and f: "\<And>x. silent (f x)"
  shows "silent (tbind m f)"
proof (rule silentI)
  fix w xs
  show "tbind m f (w\<lparr>rx := xs\<rparr>) = (fst (tbind m f w), (snd (tbind m f w))\<lparr>rx := xs\<rparr>)"
    by (cases "m w"; cases "fst (m w)") (simp_all add: tbind_def silent_rx [OF m] silent_rx [OF f])
next
  fix w
  obtain es where es: "trace (snd (m w)) = trace w @ es" "EvClosed \<notin> set es" using m by (rule silent_adds)
  show "\<exists>es. trace (snd (tbind m f w)) = trace w @ es \<and> EvClosed \<notin> set es"
  proof (cases "fst (m w)")
    case (Ok x)
    obtain es' where "trace (snd (f x (snd (m w)))) = trace (snd (m w)) @ es'" "EvClosed \<notin> set es'"
      using f by (rule silent_adds)
    then show ?thesis using es Ok by (cases "m w") (simp add: tbind_def)
  qed (use es in \<open>cases "m w"; simp add: tbind_def\<close>)+
qed

lemma silent_map: "silent m \<Longrightarrow> silent (\<lambda>w. (g (fst (m w)), snd (m w)))"
  by (simp add: silent_def)

lemma silent_context [silent]: "silent m \<Longrightarrow> silent (context_err s m)"
proof -
  have "context_err s m = (\<lambda>w. (case fst (m w) of Err e \<Rightarrow> Err (Ctx s e) | r \<Rightarrow> r, snd (m w)))"
    by (auto simp: context_err_def fun_eq_iff split: prod.split tres.split)
  then show "silent m \<Longrightarrow> silent (context_err s m)" by (simp add: silent_map)
qed

lemma silent_ignore [silent]: "silent m \<Longrightarrow> silent (ignore m)"
proof -
  have "ignore m = (\<lambda>w. (case fst (m w) of Panic \<Rightarrow> Panic | _ \<Rightarrow> Ok (), snd (m w)))"
    by (auto simp: ignore_def fun_eq_iff split: prod.split tres.split)
  then show "silent m \<Longrightarrow> silent (ignore m)" by (simp add: silent_map)
qed

lemma silent_catch [silent]:
  assumes m: "silent m" and h: "\<And>e. silent (h e)" and f: "\<And>x. silent (f x)"
  shows "silent (catch_err m h f)"
proof (rule silentI)
  fix w xs
  show "catch_err m h f (w\<lparr>rx := xs\<rparr>) = (fst (catch_err m h f w), (snd (catch_err m h f w))\<lparr>rx := xs\<rparr>)"
    by (cases "m w"; cases "fst (m w)") (simp_all add: catch_err_def silent_rx [OF m] silent_rx [OF f] silent_rx [OF h])
next
  fix w
  obtain es where es: "trace (snd (m w)) = trace w @ es" "EvClosed \<notin> set es" using m by (rule silent_adds)
  show "\<exists>es. trace (snd (catch_err m h f w)) = trace w @ es \<and> EvClosed \<notin> set es"
  proof (cases "fst (m w)")
    case (Ok x)
    obtain es' where "trace (snd (f x (snd (m w)))) = trace (snd (m w)) @ es'" "EvClosed \<notin> set es'"
      using f by (rule silent_adds)
    then show ?thesis using es Ok by (cases "m w") (simp add: catch_err_def)
  next
    case (Err e)
    obtain es' where "trace (snd (h e (snd (m w)))) = trace (snd (m w)) @ es'" "EvClosed \<notin> set es'"
      using h by (rule silent_adds)
    then show ?thesis using es Err by (cases "m w") (simp add: catch_err_def)
  next
    case Panic
    then show ?thesis using es by (cases "m w") (simp add: catch_err_def)
  qed
qed

lemma silent_read:
  assumes "\<And>a. silent (f a)" "\<And>w xs. g (w\<lparr>rx := xs\<rparr>) = g w"
  shows "silent (\<lambda>w. f (g w) w)"
  using assms by (auto simp: silent_def)

lemma silent_within_limit [silent]:
  assumes "silent m"
  shows "silent (within_limit m)"
proof (rule silentI)
  have m: "silent (ignore m)" using assms by (rule silent_ignore)
  have cut: "ignore m (w\<lparr>rx := xs, time_limits := l\<rparr>) =
      (fst (ignore m (w\<lparr>time_limits := l\<rparr>)), (snd (ignore m (w\<lparr>time_limits := l\<rparr>)))\<lparr>rx := xs\<rparr>)" for w :: rtc_world and l xs
  proof -
    have "w\<lparr>rx := xs, time_limits := l\<rparr> = w\<lparr>time_limits := l, rx := xs\<rparr>" by (cases w) simp
    then show ?thesis by (simp only: silent_rx [OF m])
  qed
  fix w xs
  show "within_limit m (w\<lparr>rx := xs\<rparr>) = (fst (within_limit m w), (snd (within_limit m w))\<lparr>rx := xs\<rparr>)"
    using silent_rx [OF m] cut by (simp add: within_limit_def Let_def split_beta split: list.split option.split)
next
  have m: "silent (ignore m)" using assms by (rule silent_ignore)
  fix w
  show "\<exists>es. trace (snd (within_limit m w)) = trace w @ es \<and> EvClosed \<notin> set es"
  proof (cases "time_limits w")
    case Nil
    then show ?thesis using silent_adds [OF m, of w] by (auto simp: within_limit_def)
  next
    case (Cons l ls)
    obtain es where es: "trace (snd (ignore m (w\<lparr>time_limits := ls\<rparr>))) = trace w @ es" "EvClosed \<notin> set es"
      using silent_adds [OF m, of "w\<lparr>time_limits := ls\<rparr>"] by auto
    then show ?thesis
    proof (cases l)
      case (Some k)
      then show ?thesis using es Cons
        by (intro exI [of _ "take k es"]) (auto simp: within_limit_def split_beta dest: in_set_takeD)
    qed (use es Cons in \<open>auto simp: within_limit_def\<close>)
  qed
qed

lemma silent_if [silent]: "silent m \<Longrightarrow> silent n \<Longrightarrow> silent (if b then m else n)"
  by simp

lemma silent_option [silent]:
  "silent m \<Longrightarrow> (\<And>x. silent (f x)) \<Longrightarrow> silent (case y of None \<Rightarrow> m | Some x \<Rightarrow> f x)"
  by (cases y) simp_all

lemma silent_outcome [silent]: "silent (verified r)"
  by (cases r) (simp_all add: verified_def silent)

lemma silent_run_each [silent]: "(\<And>c. silent (f c)) \<Longrightarrow> silent (run_each f cs)"
  by (induction cs) (auto intro: silent)

lemma silent_process [silent]:
  assumes "\<And>c. silent (f c)"
  shows "silent (process_in_chunks f bs)"
proof -
  have "process_in_chunks f bs = run_each f (chunk_list CHUNK_SIZE (concat bs))"
    by (simp add: fun_eq_iff process_in_chunks_run)
  then show ?thesis using silent_run_each [OF assms] by simp
qed

lemma silent_send_string [silent]: "(\<And>c. silent (f c)) \<Longrightarrow> silent (send_string_in_chunks f s)"
  unfolding send_string_in_chunks_def by (rule silent_process)

subsection \<open>Causal tasks\<close>

definition causal :: "'a rtc \<Rightarrow> bool" where
  "causal m \<longleftrightarrow> (\<forall>w xs zs. \<exists>es es'.
     trace (snd (m (w\<lparr>rx := xs\<rparr>))) = trace w @ es \<and> trace (snd (m (w\<lparr>rx := xs @ zs\<rparr>))) = trace w @ es' \<and>
     (if EvClosed \<in> set es then prefix (upto_closed es) es'
      else m (w\<lparr>rx := xs @ zs\<rparr>) =
        (fst (m (w\<lparr>rx := xs\<rparr>)), (snd (m (w\<lparr>rx := xs\<rparr>)))\<lparr>rx := rx (snd (m (w\<lparr>rx := xs\<rparr>))) @ zs\<rparr>)))"

named_theorems causal

text \<open>The two cases of a causal task: it has found its stream closed, or more messages do not matter.\<close>

lemma causalE [consumes 2, case_names closed same]:
  assumes "causal m" "m (w\<lparr>rx := xs\<rparr>) = (r, w1)"
  obtains (closed) es es' r' w2 where "trace w1 = trace w @ es" "EvClosed \<in> set es"
      "m (w\<lparr>rx := xs @ zs\<rparr>) = (r', w2)" "trace w2 = trace w @ es'" "prefix (upto_closed es) es'"
  | (same) es where "trace w1 = trace w @ es" "EvClosed \<notin> set es" "m (w\<lparr>rx := xs @ zs\<rparr>) = (r, w1\<lparr>rx := rx w1 @ zs\<rparr>)"
proof -
  obtain es es' where es: "trace w1 = trace w @ es" "trace (snd (m (w\<lparr>rx := xs @ zs\<rparr>))) = trace w @ es'"
    "if EvClosed \<in> set es then prefix (upto_closed es) es' else m (w\<lparr>rx := xs @ zs\<rparr>) = (r, w1\<lparr>rx := rx w1 @ zs\<rparr>)"
    using assms unfolding causal_def by (metis fst_conv snd_conv)
  show thesis
  proof (cases "EvClosed \<in> set es")
    case True
    then show thesis using es by (intro closed [of es "fst (m (w\<lparr>rx := xs @ zs\<rparr>))" "snd (m (w\<lparr>rx := xs @ zs\<rparr>))" es']) simp_all
  qed (use es same in simp)
qed

lemma causalI:
  assumes "\<And>w xs zs. \<exists>es es'.
     trace (snd (m (w\<lparr>rx := xs\<rparr>))) = trace w @ es \<and> trace (snd (m (w\<lparr>rx := xs @ zs\<rparr>))) = trace w @ es' \<and>
     (if EvClosed \<in> set es then prefix (upto_closed es) es'
      else m (w\<lparr>rx := xs @ zs\<rparr>) =
        (fst (m (w\<lparr>rx := xs\<rparr>)), (snd (m (w\<lparr>rx := xs\<rparr>)))\<lparr>rx := rx (snd (m (w\<lparr>rx := xs\<rparr>))) @ zs\<rparr>))"
  shows "causal m"
  using assms unfolding causal_def by blast

lemma causal_silent:
  assumes "silent m"
  shows "causal m"
proof (rule causalI)
  fix w :: rtc_world and xs zs
  obtain es where "trace (snd (m w)) = trace w @ es" "EvClosed \<notin> set es" using assms by (rule silent_adds)
  then show "\<exists>es es'.
     trace (snd (m (w\<lparr>rx := xs\<rparr>))) = trace w @ es \<and> trace (snd (m (w\<lparr>rx := xs @ zs\<rparr>))) = trace w @ es' \<and>
     (if EvClosed \<in> set es then prefix (upto_closed es) es'
      else m (w\<lparr>rx := xs @ zs\<rparr>) =
        (fst (m (w\<lparr>rx := xs\<rparr>)), (snd (m (w\<lparr>rx := xs\<rparr>)))\<lparr>rx := rx (snd (m (w\<lparr>rx := xs\<rparr>))) @ zs\<rparr>))"
    by (intro exI [of _ es]) (simp add: silent_rx [OF assms])
qed

lemma causal_recv [causal]: "causal recv"
proof (rule causalI)
  fix w :: rtc_world and xs zs
  show "\<exists>es es'. trace (snd (recv (w\<lparr>rx := xs\<rparr>))) = trace w @ es \<and> trace (snd (recv (w\<lparr>rx := xs @ zs\<rparr>))) = trace w @ es' \<and>
     (if EvClosed \<in> set es then prefix (upto_closed es) es'
      else recv (w\<lparr>rx := xs @ zs\<rparr>) =
        (fst (recv (w\<lparr>rx := xs\<rparr>)), (snd (recv (w\<lparr>rx := xs\<rparr>)))\<lparr>rx := rx (snd (recv (w\<lparr>rx := xs\<rparr>))) @ zs\<rparr>))"
  proof (cases xs)
    case Nil
    then show ?thesis by (cases zs) (auto simp: recv_def)
  qed (simp add: recv_def)
qed

lemma take_chunks_more:
  "list_ex dm_is_string ms \<Longrightarrow> take_chunks b (ms @ zs) = (fst (take_chunks b ms), snd (take_chunks b ms) @ zs)"
  by (induction b ms rule: take_chunks.induct) auto

lemma causal_receive_string [causal]: "causal receive_string_from_chunks"
proof (rule causalI)
  fix w :: rtc_world and xs zs
  let ?m = receive_string_from_chunks
  show "\<exists>es es'. trace (snd (?m (w\<lparr>rx := xs\<rparr>))) = trace w @ es \<and> trace (snd (?m (w\<lparr>rx := xs @ zs\<rparr>))) = trace w @ es' \<and>
     (if EvClosed \<in> set es then prefix (upto_closed es) es'
      else ?m (w\<lparr>rx := xs @ zs\<rparr>) =
        (fst (?m (w\<lparr>rx := xs\<rparr>)), (snd (?m (w\<lparr>rx := xs\<rparr>)))\<lparr>rx := rx (snd (?m (w\<lparr>rx := xs\<rparr>))) @ zs\<rparr>))"
    using take_chunks_more [of xs "[]" zs]
    by (cases "list_ex dm_is_string xs") (simp_all add: receive_string_from_chunks_def Let_def split_beta)
qed

lemma causal_tbind [causal]:
  assumes m: "causal m" and f: "\<And>x. causal (f x)"
  shows "causal (tbind m f)"
proof (rule causalI)
  fix w :: rtc_world and xs zs
  let ?goal = "\<lambda>n. \<exists>es es'.
     trace (snd (n (w\<lparr>rx := xs\<rparr>))) = trace w @ es \<and> trace (snd (n (w\<lparr>rx := xs @ zs\<rparr>))) = trace w @ es' \<and>
     (if EvClosed \<in> set es then prefix (upto_closed es) es'
      else n (w\<lparr>rx := xs @ zs\<rparr>) =
        (fst (n (w\<lparr>rx := xs\<rparr>)), (snd (n (w\<lparr>rx := xs\<rparr>)))\<lparr>rx := rx (snd (n (w\<lparr>rx := xs\<rparr>))) @ zs\<rparr>))"
  have more: "\<exists>es. trace (snd (f x v)) = trace v @ es" for x and v :: rtc_world
    using f [of x] unfolding causal_def by (metis rtc_world.surjective rtc_world.update_convs(1))
  have tail: "\<exists>es. trace (snd (tbind m f v)) = trace v' @ es" if "m v = (r, v')" for v r v'
    using that more by (cases r) (auto simp: tbind_def)
  obtain r w1 where run: "m (w\<lparr>rx := xs\<rparr>) = (r, w1)" by fastforce
  from m run show "?goal (tbind m f)"
  proof (cases rule: causalE [where zs = zs])
    case (closed es es' r' w2)
    obtain es1 where "trace (snd (tbind m f (w\<lparr>rx := xs\<rparr>))) = trace w @ es @ es1" using tail [OF run] closed(1) by auto
    moreover obtain es2 where "trace (snd (tbind m f (w\<lparr>rx := xs @ zs\<rparr>))) = trace w @ es' @ es2"
      using tail [OF closed(3)] closed(4) by auto
    moreover have "prefix (upto_closed (es @ es1)) (es' @ es2)" using closed(2,5) by (simp add: prefix_prefix)
    ultimately show ?thesis using closed(2) by (intro exI [of _ "es @ es1"] exI [of _ "es' @ es2"]) simp
  next
    case (same es)
    show ?thesis
    proof (cases r)
      case (Ok x)
      obtain r3 w3 where run3: "f x (w1\<lparr>rx := rx w1\<rparr>) = (r3, w3)" by fastforce
      have b1: "tbind m f (w\<lparr>rx := xs\<rparr>) = (r3, w3)" using run run3 Ok by (simp add: tbind_def)
      have b2: "tbind m f (w\<lparr>rx := xs @ zs\<rparr>) = f x (w1\<lparr>rx := rx w1 @ zs\<rparr>)" using same(3) Ok by (simp add: tbind_def)
      from f [of x] run3 show ?thesis
      proof (cases rule: causalE [where zs = zs])
        case c: (closed es3 es4 r4 w4)
        then show ?thesis using same b1 b2 by (intro exI [of _ "es @ es3"] exI [of _ "es @ es4"]) simp
      next
        case c: (same es3)
        then show ?thesis using same b1 b2 by (intro exI [of _ "es @ es3"]) simp
      qed
    qed (use same run in \<open>auto simp: tbind_def\<close>)
  qed
qed

lemma causal_map: "causal m \<Longrightarrow> causal (\<lambda>w. (g (fst (m w)), snd (m w)))"
  unfolding causal_def by (simp only: fst_conv snd_conv) (metis (mono_tags, lifting) fst_conv snd_conv)

lemma causal_context [causal]: "causal m \<Longrightarrow> causal (context_err s m)"
proof -
  have "context_err s m = (\<lambda>w. (case fst (m w) of Err e \<Rightarrow> Err (Ctx s e) | r \<Rightarrow> r, snd (m w)))"
    by (auto simp: context_err_def fun_eq_iff split: prod.split tres.split)
  then show "causal m \<Longrightarrow> causal (context_err s m)" by (simp add: causal_map)
qed

lemma causal_read:
  fixes g :: "rtc_world \<Rightarrow> 'a"
  assumes f: "\<And>a. causal (f a)" and g: "\<And>w xs. g (w\<lparr>rx := xs\<rparr>) = g w"
  shows "causal (\<lambda>w. f (g w) w)"
  using f [unfolded causal_def] unfolding causal_def g by blast

lemma causal_if [causal]: "(b \<Longrightarrow> causal m) \<Longrightarrow> (\<not> b \<Longrightarrow> causal n) \<Longrightarrow> causal (if b then m else n)"
  by simp

lemma causal_option [causal]:
  "causal m \<Longrightarrow> (\<And>x. causal (f x)) \<Longrightarrow> causal (case y of None \<Rightarrow> m | Some x \<Rightarrow> f x)"
  by (cases y) simp_all

subsection \<open>The stages of the two tasks\<close>

lemma silent_parse [silent]: "silent (parse_json W d b)"
  unfolding parse_json_def by (rule silent)

lemma silent_offer_stages [silent]:
  "silent (send_nonce W n)" "silent (make_token W C P nonce)" "silent (check_expected W C k t n)"
  "silent (receiver_notice W v)" "silent (sender_notice W v)"
  unfolding send_nonce_def make_token_def check_expected_def receiver_notice_def sender_notice_def
  by (intro silent)+

lemma silent_offer_files [silent]: "silent (offer_files W files)" "silent (send_file_list W r)"
  unfolding offer_files_def report_list_failure_def send_file_list_def by (intro silent)+

lemma silent_ask_pair [silent]: "silent ask_pair"
  by (rule silentI; auto simp: ask_pair_def tbind_def emit_def ret_def fail_def split: pair_answer.split)

lemma silent_publish [silent]: "silent (publish_selection m)" "silent (publish_files fs)"
  by (rule silentI; auto simp: publish_selection_def publish_files_def emit_def fail_def)+

lemma silent_send_file [silent]: "silent (send_file W m f)"
  unfolding send_file_def Let_def by (intro silent)

lemma silent_send_files [silent]: "silent (send_files W m fs)"
  by (induction fs) (auto intro: silent)

lemma silent_send_outgoing [silent]: "silent (send_outgoing W m)"
proof -
  have "send_outgoing W m = (\<lambda>w. send_files W m (outgoing w) w)" by (simp add: fun_eq_iff send_outgoing_def)
  moreover have "silent (\<lambda>w. send_files W m (outgoing w) w)" by (rule silent_read) (simp_all add: silent)
  ultimately show ?thesis by simp
qed

text \<open>The tasks that do not receive are the leaves of the rules.\<close>

lemmas causal_leaves [causal] =
  silent_basic [THEN causal_silent] silent_emit [THEN causal_silent] silent_sends [THEN causal_silent]
  silent_steps [THEN causal_silent] silent_parse [THEN causal_silent] silent_outcome [THEN causal_silent]
  silent_offer_stages [THEN causal_silent] silent_offer_files [THEN causal_silent]
  silent_ask_pair [THEN causal_silent] silent_publish [THEN causal_silent] silent_send_outgoing [THEN causal_silent]

lemma causal_receives [causal]:
  "causal (recv_string c)" "causal (receive_nonce W)" "causal (recv_pin W)" "causal (receive_pin_response b)"
  "causal (receive_file_list W)"
proof -
  show string: "causal (recv_string c)" for c
    unfolding recv_string_def by (intro causal)
  show "causal (receive_nonce W)"
    unfolding receive_nonce_def by (intro causal string)
  show "causal (recv_pin W)"
    unfolding recv_pin_def by (intro causal)
  show "causal (receive_pin_response b)"
    unfolding receive_pin_response_def by (intro causal string)
  show "causal (receive_file_list W)"
    unfolding receive_file_list_def by (intro causal)
qed

lemma causal_handle_pin_loop: "causal (handle_pin_loop W c parse answers)"
proof (induction answers)
  case Nil
  show ?case by (auto intro!: causal)
next
  case (Cons a as)
  have "causal (case parse data of ChalOk result \<Rightarrow> ret result
      | ChalPinRequired \<Rightarrow> handle_pin_loop W c parse as
      | ChalTooManyAttempts \<Rightarrow>
          tbind (send_status StatusTooManyAttempts) (\<lambda>_. fail (Msg ''Too many requests''))
      | ChalParseError e \<Rightarrow> fail e)" for data
    using Cons by (auto intro!: causal split: challenge_pin_result.split)
  then show ?case by (cases a) (auto intro!: causal)
qed

lemma causal_handle_pin [causal]: "causal (handle_pin W c parse)"
proof -
  have "handle_pin W c parse = (\<lambda>w. handle_pin_loop W c parse (pin_answers w) w)"
    by (simp add: fun_eq_iff handle_pin_def)
  moreover have "causal (\<lambda>w. handle_pin_loop W c parse (pin_answers w) w)"
    by (rule causal_read) (simp_all add: causal_handle_pin_loop)
  ultimately show ?thesis by simp
qed

lemma causal_verify_pin_loop:
  assumes notice: "\<And>r. silent (send_result r)"
  shows "causal (verify_pin_loop W cfg send_result send_notice remote_pin pin_try)"
proof (induction "unat (pc_max_tries cfg) - unat pin_try" arbitrary: send_notice remote_pin pin_try rule: less_induct)
  case less
  have too_many: "causal (within_limit (tbind (ignore (send_result VerTooManyAttempts)) (\<lambda>_. wait_buffer_empty)))"
    by (intro causal_silent silent notice)
  have first: "causal (if b then send_result VerPinRequired else ret ())" for b
    by (intro causal_silent silent notice)
  show ?case
  proof (cases "pc_max_tries cfg \<le> pin_try")
    case True
    then show ?thesis
      by (subst verify_pin_loop.simps) (auto intro!: causal too_many)
  next
    case False
    then have lt: "pin_try < pc_max_tries cfg" by simp
    have "unat (pc_max_tries cfg) - unat (pin_try + 1) < unat (pc_max_tries cfg) - unat pin_try"
      using unat_succ_below [OF lt] lt by (simp add: word_less_nat_alt)
    from less [OF this] have step: "causal (verify_pin_loop W cfg send_result False pin (pin_try + 1))" for pin .
    show ?thesis
      by (subst verify_pin_loop.simps) (simp only: False if_False, intro causal first step)
  qed
qed

lemma causal_verify_pin [causal]:
  "causal (verify_pin W cfg b (receiver_notice W))" "causal (verify_pin W cfg b (sender_notice W))"
  unfolding verify_pin_def by (intro causal causal_verify_pin_loop silent)+

lemma causal_and_then [causal]: "causal m \<Longrightarrow> (\<And>x. causal (f x)) \<Longrightarrow> causal (and_then m f)"
  unfolding and_then_def by (auto intro!: causal split: stage.split)

text \<open>The sending task.\<close>

lemma causal_offer_pair [causal]: "causal (offer_pair W C k t n)"
  unfolding offer_pair_def
  by (auto intro!: causal simp: stop_declined_def list_error_def causal_silent silent split: rtc_file_list_response.split)

lemma causal_offer_selection [causal]: "causal (offer_selection W C t n)"
  unfolding offer_selection_def
  by (auto intro!: causal simp: stop_declined_def list_error_def causal_silent silent split: rtc_file_list_response.split)

lemma causal_offer_handshake [causal]: "causal (offer_handshake W C P)"
proof -
  have "causal (offer_nonce W P)" unfolding offer_nonce_def Let_def by (intro causal)
  moreover have "causal (offer_token W C P n)" for n
    unfolding offer_token_def by (auto intro!: causal split: rtc_token_response.split)
  moreover have "causal (offer_answer_pin W b)" for b unfolding offer_answer_pin_def by (intro causal)
  moreover have "causal (offer_verify_pin W P)" unfolding offer_verify_pin_def by (intro causal)
  ultimately show ?thesis unfolding offer_handshake_def by (auto intro!: causal)
qed

lemma causal_offer_task: "causal (offer_task W C P files)"
  unfolding offer_task_def finish_sending_def by (auto intro!: causal)

text \<open>The receiving task.\<close>

lemma silent_receive_message: "silent (receive_message W ft fl st msg)"
proof -
  have result: "silent (file_result i)" for i
    by (rule silentI) (auto simp: file_result_def split: list.split)
  have drop: "silent (drop_state st)" for st unfolding drop_state_def by (auto intro!: silent split: option.split)
  have report: "silent (report_last W i)" for i
    unfolding report_last_def Let_def by (intro silent result)
  have bin: "silent (binary_send i b)" for i b
    by (rule silentI) (auto simp: binary_send_def emit_def split: list.split bool.split)
  have opens: "silent (open_file W ft fl d)" for d
    unfolding open_file_def by (auto intro!: silent split: option.split)
  show ?thesis
    unfolding receive_message_def by (auto intro!: silent drop report bin opens split: option.split)
qed

lemma causal_receive_files [causal]: "causal (receive_files W ft fl)"
proof -
  have adds: "\<exists>es. trace (snd (receive_loop W ft fl st ms w)) = trace w @ es" for st ms w
    using receive_loop_safe [of W ft fl st ms w "fst (receive_loop W ft fl st ms w)" "snd (receive_loop W ft fl st ms w)"]
    by (fastforce simp: adds_def)
  have loop: "\<exists>es es'. trace (snd (receive_loop W ft fl st xs w)) = trace w @ es \<and>
      trace (snd (receive_loop W ft fl st (xs @ zs) (w\<lparr>rx := us\<rparr>))) = trace w @ es' \<and>
     (if EvClosed \<in> set es then prefix (upto_closed es) es'
      else receive_loop W ft fl st (xs @ zs) (w\<lparr>rx := us\<rparr>) =
        (fst (receive_loop W ft fl st xs w),
         (snd (receive_loop W ft fl st xs w))\<lparr>rx := rx (snd (receive_loop W ft fl st xs w)) @ zs\<rparr>))"
    for xs zs st us and w :: rtc_world
  proof (induction xs arbitrary: st w us)
    case Nil
    obtain es' where "trace (snd (receive_loop W ft fl st zs (w\<lparr>rx := us\<rparr>))) = trace w @ es'"
      using adds [of st zs "w\<lparr>rx := us\<rparr>"] by auto
    then show ?case by (intro exI exI [of _ es'] conjI) (auto simp: drop_state_run)
  next
    case (Cons x xs)
    let ?m = "receive_message W ft fl st x"
    obtain r w1 where run: "?m w = (r, w1)" by fastforce
    have two: "?m (w\<lparr>rx := vs\<rparr>) = (r, w1\<lparr>rx := vs\<rparr>)" for vs
      using silent_rx [OF silent_receive_message, of W ft fl st x vs w] run by simp
    obtain es where es: "trace w1 = trace w @ es" "EvClosed \<notin> set es"
      using silent_adds [OF silent_receive_message, of W ft fl st x w] run by auto
    show ?case
    proof (cases "\<exists>st'. r = Ok (Some st')")
      case True
      then obtain st' where r: "r = Ok (Some st')" by blast
      obtain es3 es4 where "trace (snd (receive_loop W ft fl st' xs (w1\<lparr>rx := xs\<rparr>))) = trace w1 @ es3"
        "trace (snd (receive_loop W ft fl st' (xs @ zs) (w1\<lparr>rx := xs @ zs\<rparr>))) = trace w1 @ es4"
        "if EvClosed \<in> set es3 then prefix (upto_closed es3) es4
         else receive_loop W ft fl st' (xs @ zs) (w1\<lparr>rx := xs @ zs\<rparr>) =
          (fst (receive_loop W ft fl st' xs (w1\<lparr>rx := xs\<rparr>)), (snd (receive_loop W ft fl st' xs (w1\<lparr>rx := xs\<rparr>)))
            \<lparr>rx := rx (snd (receive_loop W ft fl st' xs (w1\<lparr>rx := xs\<rparr>))) @ zs\<rparr>)"
        using Cons.IH [of st' "w1\<lparr>rx := xs\<rparr>" "xs @ zs"] by (simp cong: if_cong, blast)
      then show ?thesis using es r
        by (intro exI [of _ "es @ es3"] exI [of _ "es @ es4"]) (simp add: tbind_def two)
    next
      case False
      then show ?thesis using es
        by (cases r; intro exI [of _ es]; auto simp: tbind_def two ret_def split: option.split)
    qed
  qed
  show ?thesis
    unfolding causal_def receive_files_def
  proof (intro allI)
    fix w :: rtc_world and xs zs
    show "\<exists>es es'.
       trace (snd (receive_loop W ft fl None (rx (w\<lparr>rx := xs\<rparr>)) (w\<lparr>rx := xs\<rparr>))) = trace w @ es \<and>
       trace (snd (receive_loop W ft fl None (rx (w\<lparr>rx := xs @ zs\<rparr>)) (w\<lparr>rx := xs @ zs\<rparr>))) = trace w @ es' \<and>
       (if EvClosed \<in> set es then prefix (upto_closed es) es'
        else receive_loop W ft fl None (rx (w\<lparr>rx := xs @ zs\<rparr>)) (w\<lparr>rx := xs @ zs\<rparr>) =
          (fst (receive_loop W ft fl None (rx (w\<lparr>rx := xs\<rparr>)) (w\<lparr>rx := xs\<rparr>)),
           (snd (receive_loop W ft fl None (rx (w\<lparr>rx := xs\<rparr>)) (w\<lparr>rx := xs\<rparr>)))
             \<lparr>rx := rx (snd (receive_loop W ft fl None (rx (w\<lparr>rx := xs\<rparr>)) (w\<lparr>rx := xs\<rparr>))) @ zs\<rparr>))"
      using loop [of None xs "w\<lparr>rx := xs\<rparr>" zs "xs @ zs"] by (simp cong: if_cong)
  qed
qed

lemma causal_accept_selection [causal]: "causal (accept_selection W nt files)"
proof -
  have "accept_selection W nt files = (\<lambda>w. (\<lambda>c. case c of
        SelectionDropped \<Rightarrow> ret Stop
      | SelectionDeclined \<Rightarrow> tbind (send_file_list W ListDeclined) (\<lambda>_. ret Stop)
      | SelectionFiles ids \<Rightarrow> tbind (send_file_list W (ListOk (file_tokens_of nt ids))) (\<lambda>_. ret (Go (file_tokens_of nt ids))))
      (choice w files) w)"
    by (auto simp: fun_eq_iff accept_selection_def Let_def split: selection.split)
  moreover have "causal \<dots>"
    by (rule causal_read [where g = "\<lambda>w. choice w files"]) (auto intro!: causal split: selection.split)
  ultimately show ?thesis by simp
qed

lemma causal_accept_handshake [causal]: "causal (accept_handshake W C P)"
proof -
  have "causal (accept_nonce W P)" unfolding accept_nonce_def Let_def by (intro causal)
  moreover have "causal (accept_token W C P n)" for n
    unfolding accept_token_def by (intro causal)
  moreover have "causal (accept_verify_pin W P)" unfolding accept_verify_pin_def by (intro causal)
  moreover have "causal (accept_file_list W)"
    unfolding accept_file_list_def
    by (auto intro!: causal simp: causal_silent silent split: rtc_pin_sending_response.split)
  ultimately show ?thesis unfolding accept_handshake_def by (auto intro!: causal)
qed

lemma causal_accept_task: "causal (accept_task W C P nt)"
  unfolding accept_task_def by (auto intro!: causal)

end
