(* ===== verification/Rtc_Schedule.thy ===== *)
theory Rtc_Schedule
  imports Rtc_Causal
begin

section \<open>The two tasks under every order of delivery\<close>

text \<open>
  Between the two tasks lie two queues. The network delivers the messages of either queue
  one by one, and in which order the two directions take turns is up to it. A state is what
  each side has been given so far; what a side has sent by then is a function of it.
\<close>

inductive exchange :: "('m list \<Rightarrow> 'm list) \<Rightarrow> ('m list \<Rightarrow> 'm list) \<Rightarrow> 'm list \<Rightarrow> 'm list \<Rightarrow> bool"
  for S R where
  start: "exchange S R [] []"
| to_sender: "exchange S R xs ys \<Longrightarrow> prefix (xs @ [m]) (R ys) \<Longrightarrow> exchange S R (xs @ [m]) ys"
| to_receiver: "exchange S R xs ys \<Longrightarrow> prefix (ys @ [m]) (S xs) \<Longrightarrow> exchange S R xs (ys @ [m])"

text \<open>All that is asked of the two sides: more input never takes back what has been sent.\<close>

locale network =
  fixes S :: "'m list \<Rightarrow> 'm list" and R :: "'m list \<Rightarrow> 'm list"
  assumes mono_S: "prefix xs xs' \<Longrightarrow> prefix (S xs) (S xs')"
    and mono_R: "prefix ys ys' \<Longrightarrow> prefix (R ys) (R ys')"
begin

lemma bounds: "exchange S R xs ys \<Longrightarrow> prefix xs (R ys) \<and> prefix ys (S xs)"
proof (induction rule: exchange.induct)
  case (to_sender xs ys m)
  then show ?case using mono_S [of xs "xs @ [m]"] by (auto intro: prefix_order.trans)
next
  case (to_receiver xs ys m)
  then show ?case using mono_R [of ys "ys @ [m]"] by (auto intro: prefix_order.trans)
qed simp

lemma burst_receiver:
  assumes "exchange S R xs ys" "prefix ys ys'" "prefix ys' (S xs)"
  shows "exchange S R xs ys'"
proof -
  have "prefix (ys @ zs) (S xs) \<Longrightarrow> exchange S R xs (ys @ zs)" for zs
  proof (induction zs rule: rev_induct)
    case (snoc z zs)
    then have "exchange S R xs (ys @ zs)" by (metis append.assoc append_prefixD)
    then show ?case using exchange.to_receiver [of S R xs "ys @ zs" z] snoc.prems by simp
  qed (simp add: assms(1))
  then show ?thesis using assms(2,3) by (auto elim: prefixE)
qed

lemma burst_sender:
  assumes "exchange S R xs ys" "prefix xs xs'" "prefix xs' (R ys)"
  shows "exchange S R xs' ys"
proof -
  have "prefix (xs @ zs) (R ys) \<Longrightarrow> exchange S R (xs @ zs) ys" for zs
  proof (induction zs rule: rev_induct)
    case (snoc z zs)
    then have "exchange S R (xs @ zs) ys" by (metis append.assoc append_prefixD)
    then show ?case using exchange.to_sender [of S R "xs @ zs" ys z] snoc.prems by simp
  qed (simp add: assms(1))
  then show ?thesis using assms(2,3) by (auto elim: prefixE)
qed

text \<open>A schedule in rounds: what the sender has said brings the receiver further, and back.\<close>

lemma climb:
  assumes "exchange S R (a 0) (b 0)"
    and "\<And>i. i < n \<Longrightarrow> prefix (b i) (b (Suc i)) \<and> prefix (b (Suc i)) (S (a i))"
    and "\<And>i. i < n \<Longrightarrow> prefix (a i) (a (Suc i)) \<and> prefix (a (Suc i)) (R (b (Suc i)))"
  shows "exchange S R (a n) (b n)"
  using assms(2,3)
proof (induction n)
  case (Suc n)
  then have "exchange S R (a n) (b n)" by simp
  then have "exchange S R (a n) (b (Suc n))" using Suc.prems(1) [of n] burst_receiver by blast
  then show ?case using Suc.prems(2) [of n] burst_sender by blast
qed (simp add: assms(1))

text \<open>Every state stays below a pair of lists that neither side goes beyond.\<close>

lemma below_closed:
  assumes "S xf = yf" "R yf = xf" "exchange S R xs ys"
  shows "prefix xs xf \<and> prefix ys yf"
  using assms(3)
proof (induction rule: exchange.induct)
  case (to_sender xs ys m)
  then show ?case using mono_R [of ys yf] assms(2) by (metis prefix_order.trans)
next
  case (to_receiver xs ys m)
  then show ?case using mono_S [of xs xf] assms(1) by (metis prefix_order.trans)
qed simp

lemma undelivered: "prefix xs zs \<Longrightarrow> xs \<noteq> zs \<Longrightarrow> \<exists>m. prefix (xs @ [m]) zs"
  by (metis append_one_prefix prefix_length_less strict_prefixI)

text \<open>
  A state in which nothing is under way would be passed by no schedule: the complete one
  would have to leave it.
\<close>

lemma stuck_is_top:
  assumes stuck: "S xs = ys" "R ys = xs" and run: "exchange S R xf yf"
  shows "prefix xf xs \<and> prefix yf ys"
  using below_closed [OF stuck run] .

lemma no_deadlock:
  assumes top: "S xf = yf" "R yf = xf" and complete: "exchange S R xf yf" and here: "exchange S R xs ys"
  shows "(xs = xf \<and> ys = yf) \<or> (\<exists>m. exchange S R (xs @ [m]) ys) \<or> (\<exists>m. exchange S R xs (ys @ [m]))"
proof -
  have b: "prefix xs (R ys)" "prefix ys (S xs)" using bounds [OF here] by auto
  have below: "prefix xs xf" "prefix ys yf" using below_closed [OF top here] by auto
  show ?thesis
  proof (cases "xs = R ys \<and> ys = S xs")
    case True
    from stuck_is_top [OF conjunct2 [OF True, symmetric] conjunct1 [OF True, symmetric] complete]
    show ?thesis using below prefix_order.antisym by blast
  next
    case False
    then consider "xs \<noteq> R ys" | "ys \<noteq> S xs" by auto
    then show ?thesis
    proof cases
      case 1
      with b(1) show ?thesis using exchange.to_sender [OF here] undelivered by blast
    next
      case 2
      with b(2) show ?thesis using exchange.to_receiver [OF here] undelivered by blast
    qed
  qed
qed

end

subsection \<open>The tasks as the two sides\<close>

lemma causal_mono:
  assumes "causal m" "prefix xs xs'"
  shows "prefix (sent_by m w xs) (sent_by m w xs')"
proof -
  obtain zs where zs: "xs' = xs @ zs" using assms(2) by (auto elim: prefixE)
  obtain r w1 where run: "m (w\<lparr>rx := xs\<rparr>) = (r, w1)" by fastforce
  from assms(1) run show ?thesis
  proof (cases rule: causalE [where zs = zs])
    case (closed es es' r' w2)
    show ?thesis
    proof (cases "EvClosed \<in> set (trace w)")
      case True
      then show ?thesis using closed run zs by (simp add: sent_by_def)
    next
      case False
      have "prefix (trace w @ upto_closed es) (trace w @ upto_closed es')"
        using prefix_upto_closed [OF closed(5)] by simp
      then show ?thesis using closed run zs dc_out_prefix False by (simp add: sent_by_def)
    qed
  next
    case (same es)
    then show ?thesis using run zs by (simp add: sent_by_def)
  qed
qed

interpretation tasks: network "sent_by (offer_task W C P files) ws" "sent_by (accept_task W C Q nt) wr"
  for W C P files ws Q nt wr
  by unfold_locales (rule causal_mono [OF causal_offer_task], assumption, rule causal_mono [OF causal_accept_task])

end
