(* ===== verification/Rtc_Rounds.thy ===== *)
theory Rtc_Rounds
  imports Rtc_Schedule
begin

section \<open>What each side has sent when it waits for the next message\<close>

text \<open>
  One lemma per point where a task waits: given the messages up to there and no more, it
  has sent at least what the other side needs to go on.
\<close>

definition says :: "'a rtc \<Rightarrow> rtc_world \<Rightarrow> dc_msg list \<Rightarrow> bool" where
  "says m w os \<longleftrightarrow> (\<exists>es. trace (snd (m w)) = trace w @ es \<and> prefix os (dc_out (upto_closed es)))"

lemma says_sent: "says m (w\<lparr>rx := xs\<rparr>) os \<Longrightarrow> trace w = [] \<Longrightarrow> prefix os (sent_by m w xs)"
  by (auto simp: says_def sent_by_def)

lemma causal_adds:
  assumes "causal m"
  obtains es where "trace (snd (m w)) = trace w @ es"
proof -
  have "w\<lparr>rx := rx w\<rparr> = w" by simp
  then show thesis using assms that unfolding causal_def by metis
qed

lemma says_nothing: "causal m \<Longrightarrow> says m w []"
  unfolding says_def by (erule causal_adds) auto

lemma says_first:
  assumes m: "says m w os" and f: "\<And>x. causal (f x)"
  shows "says (tbind m f) w os"
proof -
  obtain es where es: "trace (snd (m w)) = trace w @ es" "prefix os (dc_out (upto_closed es))"
    using m by (auto simp: says_def)
  obtain es' where "trace (snd (tbind m f w)) = trace w @ es @ es'"
  proof (cases "fst (m w)")
    case (Ok x)
    obtain es' where "trace (snd (f x (snd (m w)))) = trace (snd (m w)) @ es'" using f by (rule causal_adds)
    then show thesis using that es(1) Ok by (cases "m w") (simp add: tbind_def)
  qed (use that [of "[]"] es(1) in \<open>cases "m w"; simp add: tbind_def\<close>)+
  moreover have "prefix (upto_closed es) (upto_closed (es @ es'))"
    by (cases "EvClosed \<in> set es") simp_all
  ultimately show ?thesis
    using es(2) dc_out_prefix unfolding says_def by (metis prefix_order.trans)
qed

lemma says_step:
  assumes "m w = m' w'" "trace w' = trace w @ es" "EvClosed \<notin> set es" "says m' w' os"
  shows "says m w (dc_out es @ os)"
  using assms by (auto simp: says_def)

lemma says_after:
  "m w = (Ok x, w') \<Longrightarrow> trace w' = trace w @ es \<Longrightarrow> EvClosed \<notin> set es \<Longrightarrow> says (f x) w' os \<Longrightarrow>
   says (tbind m f) w (dc_out es @ os)"
  by (rule says_step [where m' = "f x" and w' = w']) (simp_all add: tbind_def)

lemma says_run: "m w = (r, w') \<Longrightarrow> trace w' = trace w @ es \<Longrightarrow> EvClosed \<notin> set es \<Longrightarrow> says m w (dc_out es)"
  by (auto simp: says_def)

lemma open_evs [simp]:
  "nonce_ev W P \<noteq> EvClosed" "token_ev W t \<noteq> EvClosed" "reply_ev W P t \<noteq> EvClosed"
  "EvClosed \<noteq> nonce_ev W P" "EvClosed \<noteq> token_ev W t" "EvClosed \<noteq> reply_ev W P t"
  "EvClosed \<notin> set (accept_pin_evs W c ps)" "EvClosed \<notin> set (offer_pin_evs W c ps)"
  "EvClosed \<notin> set (pin_events W p)" "EvClosed \<notin> set (chunk_evs s)" "EvClosed \<notin> set (file_evs W tokens f)"
  by (auto simp: nonce_ev_def token_ev_def reply_ev_def accept_pin_evs_def offer_pin_evs_def recv_required_def
      recv_ok_def pin_events_def chunk_evs_def file_evs_def split: option.split)

lemma open_transfer [simp]: "EvClosed \<notin> set (transfer_evs W cur rs fs)"
  by (induction W cur rs fs rule: transfer_evs.induct) auto

subsection \<open>PIN challenges\<close>

lemma handle_pin_says:
  assumes retry: "\<And>w ms. rx w = retry @ ms \<Longrightarrow> receive_pin_response c w = (Ok d, w\<lparr>rx := ms\<rparr>)"
      "parse d = ChalPinRequired"
    and run: "healthy w" "rx w = concat (replicate (length qs) retry)"
  shows "says (handle_pin_loop W c parse (map PinGiven qs @ PinGiven q # later)) w (map (pin_msg W) (qs @ [q]))"
proof -
  let ?loop = "handle_pin_loop W c parse (PinGiven q # later)"
  let ?w = "w\<lparr>rx := [], trace := trace w @ concat (map (pin_events W) qs)\<rparr>"
  have ask: "says ?loop v [pin_msg W q]" if "healthy v" for v
  proof -
    let ?send = "tbind (send_status StatusPinRequired) (\<lambda>_. tbind (emit EvPinRequest) (\<lambda>_.
        send_json W enc_rtc_pin_message \<lparr>pm_pin = q\<rparr>))"
    have "?send v = (Ok (), v\<lparr>trace := trace v @ pin_events W q\<rparr>)"
      using that by (simp add: tbind_def task pin_events_def)
    then have "says (tbind ?send (\<lambda>_. tbind (receive_pin_response c) (\<lambda>data.
        case parse data of ChalOk result \<Rightarrow> ret result | ChalPinRequired \<Rightarrow> handle_pin_loop W c parse later
        | ChalTooManyAttempts \<Rightarrow> tbind (send_status StatusTooManyAttempts) (\<lambda>_. fail (Msg ''Too many requests''))
        | ChalParseError e \<Rightarrow> fail e))) v (dc_out (pin_events W q) @ [])"
      by (rule says_after) (auto intro!: says_nothing causal causal_handle_pin_loop split: challenge_pin_result.split)
    then show ?thesis by (simp add: tbind_assoc pin_events_def pin_msg_def json_msg_def)
  qed
  have "handle_pin_loop W c parse (map PinGiven qs @ PinGiven q # later) w = ?loop ?w"
    using run by (intro handle_pin_loop_retries [where retry = retry and d = d and ms = "[]"] retry) simp_all
  from says_step [where m' = "?loop" and w' = ?w and w = w
      and m = "handle_pin_loop W c parse (map PinGiven qs @ PinGiven q # later)", OF this _ _ ask] run(1)
  have "says (handle_pin_loop W c parse (map PinGiven qs @ PinGiven q # later)) w
      (dc_out (concat (map (pin_events W) qs)) @ [pin_msg W q])" by simp
  then show ?thesis by simp
qed

lemma verify_pin_loop_says:
  assumes W: "wire_format W" and quiet: "\<And>r. silent (send_result r)"
    and notice: "\<And>r w. healthy w \<Longrightarrow> send_result r w = (Ok (), w\<lparr>trace := trace w @ evs r\<rparr>)"
    and opn: "EvClosed \<notin> set (evs VerPinRequired)"
  shows "\<lbrakk>healthy w; remote_pin \<noteq> pc_pin cfg; pc_pin cfg \<notin> set ps;
      unat pin_try + length ps < unat (pc_max_tries cfg); rx w = map (pin_msg W) ps\<rbrakk> \<Longrightarrow>
    says (verify_pin_loop W cfg send_result n remote_pin pin_try) w
      (dc_out (if n \<or> 0 < pin_try then evs VerPinRequired else []) @
       concat (replicate (length ps) (dc_out (evs VerPinRequired))))"
proof (induction ps arbitrary: n remote_pin pin_try w)
  case Nil
  then have nle: "\<not> pc_max_tries cfg \<le> pin_try" by (simp add: word_le_nat_alt)
  let ?note = "if n \<or> 0 < pin_try then send_result VerPinRequired else ret ()"
  let ?evs = "if n \<or> 0 < pin_try then evs VerPinRequired else []"
  have "?note w = (Ok (), w\<lparr>trace := trace w @ ?evs\<rparr>)" using Nil by (simp add: notice ret_def)
  then have "says (tbind ?note (\<lambda>_. tbind (recv_pin W) (\<lambda>pin. verify_pin_loop W cfg send_result False pin (pin_try + 1))))
      w (dc_out ?evs @ [])"
    by (rule says_after) (auto intro!: says_nothing causal causal_verify_pin_loop quiet simp: opn)
  then show ?case
    using Nil nle by (subst verify_pin_loop.simps) simp
next
  case (Cons p ps)
  then have lt: "pin_try < pc_max_tries cfg" by (simp add: word_less_nat_alt)
  then have nle: "\<not> pc_max_tries cfg \<le> pin_try" by simp
  have inc: "unat (pin_try + 1) = unat pin_try + 1" by (rule unat_succ_below [OF lt])
  then have pos: "0 < pin_try + 1" by (simp add: word_less_nat_alt)
  have more: "unat (pin_try + 1) + length ps < unat (pc_max_tries cfg)"
    using Cons.prems inc by simp
  define before where "before = (if n \<or> 0 < pin_try then evs VerPinRequired else [])"
  define w1 where "w1 = w\<lparr>trace := trace w @ before, rx := map (pin_msg W) ps\<rparr>"
  have run: "verify_pin_loop W cfg send_result n remote_pin pin_try w =
      verify_pin_loop W cfg send_result False p (pin_try + 1) w1"
    using Cons.prems W nle
    by (simp add: verify_pin_loop.simps [of W cfg send_result n remote_pin pin_try] notice task before_def w1_def)
  have "says (verify_pin_loop W cfg send_result n remote_pin pin_try) w
      (dc_out before @ dc_out (if False \<or> 0 < pin_try + 1 then evs VerPinRequired else []) @
       concat (replicate (length ps) (dc_out (evs VerPinRequired))))"
    using Cons.prems more opn
    by (intro says_step [where w' = w1 and w = w and m' = "verify_pin_loop W cfg send_result False p (pin_try + 1)"]
        run Cons.IH) (auto simp: w1_def before_def)
  then show ?case using pos by (simp add: before_def)
qed

text \<open>A challenge that is still waiting after some wrong PINs.\<close>

lemma verify_pin_says:
  assumes "wire_format W" and quiet: "\<And>r. silent (send_result r)"
    and "\<And>r w. healthy w \<Longrightarrow> send_result r w = (Ok (), w\<lparr>trace := trace w @ evs r\<rparr>)"
    and "EvClosed \<notin> set (evs VerPinRequired)"
    and w: "healthy w" "pc_pin cfg \<noteq> []" "pc_pin cfg \<notin> set ps" "length ps < unat (pc_max_tries cfg)"
      "rx w = map (pin_msg W) ps"
  shows "says (verify_pin W cfg n send_result) w
    (concat (replicate (length ps + (if n then 1 else 0)) (dc_out (evs VerPinRequired))))"
proof -
  let ?w = "w\<lparr>trace := trace w @ [EvStatus StatusPinRequired]\<rparr>"
  have "says (verify_pin_loop W cfg send_result n [] 0) ?w
      (dc_out (if n \<or> (0::u8) < 0 then evs VerPinRequired else []) @ concat (replicate (length ps) (dc_out (evs VerPinRequired))))"
    using assms w by (intro verify_pin_loop_says) auto
  then have "says (verify_pin W cfg n send_result) w (dc_out [EvStatus StatusPinRequired] @
      (dc_out (if n \<or> (0::u8) < 0 then evs VerPinRequired else []) @ concat (replicate (length ps) (dc_out (evs VerPinRequired)))))"
    unfolding verify_pin_def using w(1) by (intro says_after) (auto simp: task)
  then show ?thesis by (cases n) simp_all
qed

lemma take_split:
  assumes "i < length xs"
  obtains q zs where "xs = take i xs @ q # zs" "take (Suc i) xs = take i xs @ [q]" "length (take i xs) = i"
  using assms that [of "xs ! i" "drop (Suc i) xs"] by (simp add: id_take_nth_drop [symmetric] take_Suc_conv_app_nth)

lemma answers_split:
  assumes "passes cfg ps answers" "i < length (guesses cfg ps)"
  obtains q later where "answers = map PinGiven (take i (guesses cfg ps)) @ PinGiven q # later"
    "take (Suc i) (guesses cfg ps) = take i (guesses cfg ps) @ [q]"
proof -
  obtain c where c: "cfg = Some c" using assms(2) by (cases cfg) (auto simp: guesses_def)
  obtain others where ans: "answers = map PinGiven (guesses cfg ps) @ others"
    using assms(1) c by (auto simp: guesses_def elim: passes_answers)
  obtain q zs where "guesses cfg ps = take i (guesses cfg ps) @ q # zs"
      "take (Suc i) (guesses cfg ps) = take i (guesses cfg ps) @ [q]"
    using assms(2) by (rule take_split)
  then show thesis using that [of q "map PinGiven zs @ others"] ans
    by (metis append.assoc append_Cons list.simps(9) map_append)
qed

lemma accept_pins_out:
  "dc_out (accept_pin_evs W (Some c) ps) =
    replicate (length ps) (json_msg W enc_rtc_pin_receiving_response PinRecvRequired) @
    [json_msg W enc_rtc_pin_receiving_response PinRecvOk]"
proof -
  have "dc_out (replicate n (recv_required W)) = replicate n (json_msg W enc_rtc_pin_receiving_response PinRecvRequired)" for n
    by (induction n) (simp_all add: recv_required_def json_msg_def)
  then show ?thesis by (simp add: accept_pin_evs_def recv_ok_def json_msg_def)
qed

lemma offer_answer_pin_says:
  assumes "wire_format W" "healthy w" and p: "passes cfg ps (pin_answers w)" and i: "i < length (guesses cfg ps)"
    and rx: "rx w = take i (dc_out (accept_pin_evs W cfg ps))"
  shows "says (offer_answer_pin W (cfg \<noteq> None)) w (map (pin_msg W) (take (Suc i) (guesses cfg ps)))"
proof -
  obtain c where c: "cfg = Some c" "i \<le> length ps" using i by (cases cfg) (auto simp: guesses_def)
  obtain q later where q: "pin_answers w = map PinGiven (take i (guesses cfg ps)) @ PinGiven q # later"
    "take (Suc i) (guesses cfg ps) = take i (guesses cfg ps) @ [q]" using p i by (rule answers_split)
  let ?req = "json_msg W enc_rtc_pin_receiving_response PinRecvRequired"
  have "rx w = concat (replicate (length (take i (guesses cfg ps))) [?req])"
    using rx c i by (simp add: accept_pins_out concat_replicate_single)
  then have "says (handle_pin_loop W False (parse_receiving_response W)
      (map PinGiven (take i (guesses cfg ps)) @ PinGiven q # later)) w (map (pin_msg W) (take i (guesses cfg ps) @ [q]))"
    using assms(1,2)
    by (intro handle_pin_says [where retry = "[?req]" and d = "to_json_string W enc_rtc_pin_receiving_response PinRecvRequired"])
      (simp_all add: receive_pin_response_def task)
  then show ?thesis using c q by (simp add: offer_answer_pin_def says_def handle_pin_def)
qed

lemma accept_file_list_says:
  assumes "wire_format W" "healthy w" and p: "passes cfg ps (pin_answers w)" and i: "i < length (guesses cfg ps)"
    and rx: "rx w = concat (replicate (Suc i) (chunked (send_required W)))"
  shows "says (accept_file_list W) w (map (pin_msg W) (take (Suc i) (guesses cfg ps)))"
proof -
  let ?req = "chunked (send_required W)"
  obtain q later where q: "pin_answers w = map PinGiven (take i (guesses cfg ps)) @ PinGiven q # later"
    "take (Suc i) (guesses cfg ps) = take i (guesses cfg ps) @ [q]" using p i by (rule answers_split)
  define w1 where "w1 = w\<lparr>rx := concat (replicate i ?req)\<rparr>"
  have "receive_string_from_chunks w = (Ok (send_required W), w1)"
    using rx by (intro receive_chunked [THEN trans]) (simp_all add: w1_def)
  then have "accept_file_list W w = handle_pin W True (parse_sending_response W) w1"
    using assms(1) by (simp add: accept_file_list_def tbind_def parses send_required_def task)
  also have "\<dots> = handle_pin_loop W True (parse_sending_response W)
      (map PinGiven (take i (guesses cfg ps)) @ PinGiven q # later) w1"
    using q(1) by (simp add: handle_pin_def w1_def)
  finally have run: "accept_file_list W w = handle_pin_loop W True (parse_sending_response W)
      (map PinGiven (take i (guesses cfg ps)) @ PinGiven q # later) w1" .
  have "says (handle_pin_loop W True (parse_sending_response W)
      (map PinGiven (take i (guesses cfg ps)) @ PinGiven q # later)) w1 (map (pin_msg W) (take i (guesses cfg ps) @ [q]))"
    using assms(1,2) i
    by (intro handle_pin_says [where retry = ?req and d = "send_required W"])
      (simp_all add: receive_pin_response_def task send_required_def w1_def)
  then show ?thesis using q run by (simp add: says_def w1_def)
qed

lemma passes_wrong:
  assumes "passes (Some c) ps answers" "k \<le> length ps"
  shows "pc_pin c \<noteq> []" "pc_pin c \<notin> set (take k ps)" "length (take k ps) < unat (pc_max_tries c)"
  using assms by (auto simp: passes_def dest: in_set_takeD)

lemma accept_verify_pin_says:
  assumes W: "wire_format W" and w: "healthy w" and p: "passes (rp_pin P) ps answers"
    and i: "i < length (guesses (rp_pin P) ps)" and rx: "rx w = map (pin_msg W) (take (Suc i) (guesses (rp_pin P) ps))"
  shows "says (accept_verify_pin W P) w (take (Suc i) (dc_out (accept_pin_evs W (rp_pin P) ps)))"
proof -
  obtain c where c: "rp_pin P = Some c" "i \<le> length ps" using i by (cases "rp_pin P") (auto simp: guesses_def)
  show ?thesis
  proof (cases "i = length ps")
    case True
    then have "rx w = map (pin_msg W) (guesses (rp_pin P) ps) @ []" using rx c by (simp add: guesses_def)
    from accept_verify_pin_run [OF W w p this]
    have "says (accept_verify_pin W P) w (dc_out (accept_pin_evs W (rp_pin P) ps))"
      by (rule says_run) (simp_all add: moved_def)
    then show ?thesis using True c by (simp add: accept_pins_out)
  next
    case False
    then have le: "Suc i \<le> length ps" using c by simp
    define evs where "evs r = [EvText (to_json_string W enc_rtc_pin_receiving_response
        (case r of VerPinRequired \<Rightarrow> PinRecvRequired | VerTooManyAttempts \<Rightarrow> PinRecvTooManyAttempts))]" for r
    have "receiver_notice W r v = (Ok (), v\<lparr>trace := trace v @ evs r\<rparr>)" if "healthy v" for r v
      using that by (simp add: receiver_notice_def evs_def task)
    then have "says (verify_pin W c False (receiver_notice W)) w
        (concat (replicate (length (take (Suc i) ps) + (if False then 1 else 0)) (dc_out (evs VerPinRequired))))"
      using W w rx c le passes_wrong [OF p [unfolded c(1)] le]
      by (intro verify_pin_says) (auto simp: guesses_def silent evs_def)
    then have "says (accept_verify_pin W P) w
        (concat (replicate (length (take (Suc i) ps) + (if False then 1 else 0)) (dc_out (evs VerPinRequired))))"
      unfolding accept_verify_pin_def c(1) option.case by (rule says_first) (intro causal)
    then show ?thesis using c le by (simp add: accept_pins_out concat_replicate_single evs_def json_msg_def del: replicate_Suc)
  qed
qed

lemma offer_verify_pin_says:
  assumes W: "wire_format W" and w: "healthy w" and p: "passes (rp_pin P) ps answers"
    and i: "i < length (guesses (rp_pin P) ps)" and rx: "rx w = map (pin_msg W) (take i (guesses (rp_pin P) ps))"
  shows "says (offer_verify_pin W P) w (concat (replicate (Suc i) (chunked (send_required W))))"
proof -
  obtain c where c: "rp_pin P = Some c" "i \<le> length ps" using i by (cases "rp_pin P") (auto simp: guesses_def)
  define evs where "evs r = chunk_evs (to_json_string W enc_rtc_pin_sending_response
      (case r of VerPinRequired \<Rightarrow> PinSendRequired | VerTooManyAttempts \<Rightarrow> PinSendTooManyAttempts))" for r
  have "sender_notice W r v = (Ok (), v\<lparr>trace := trace v @ evs r\<rparr>)" if "healthy v" for r v
    using that by (simp add: sender_notice_def evs_def chunk_evs_def task tbind_def)
  then have "says (verify_pin W c True (sender_notice W)) w
      (concat (replicate (length (take i ps) + (if True then 1 else 0)) (dc_out (evs VerPinRequired))))"
    using W w rx c passes_wrong [OF p [unfolded c(1)] c(2)]
    by (intro verify_pin_says) (auto simp: guesses_def silent evs_def)
  then show ?thesis using c
    by (simp add: offer_verify_pin_def evs_def send_required_def min.absorb2)
qed

subsection \<open>The sending task\<close>

text \<open>The part of a handshake before the PINs.\<close>

definition offer_greeting :: "wire \<Rightarrow> rtc_params \<Rightarrow> string \<Rightarrow> event list" where
  "offer_greeting W S ts = [nonce_ev W S, token_ev W ts]"

definition accept_greeting :: "wire \<Rightarrow> rtc_params \<Rightarrow> string \<Rightarrow> event list" where
  "accept_greeting W R tr = [nonce_ev W R, reply_ev W R tr]"

definition file_list_msgs :: "wire \<Rightarrow> file_dto list \<Rightarrow> dc_msg list" where
  "file_list_msgs W files = chunked (to_json_string W enc_rtc_pin_sending_response (PinSendOk files))"

definition selection_msgs :: "wire \<Rightarrow> (string, string) hashmap \<Rightarrow> dc_msg list" where
  "selection_msgs W tokens = chunked (to_json_string W enc_rtc_file_list_response (ListOk tokens))"

lemma offer_task_says:
  assumes "says (offer_handshake W C S) (moved w (rx w) [EvDrained]) os"
  shows "says (offer_task W C S files) w os"
proof -
  have "says (offer_task W C S files) w (dc_out [EvDrained] @ os)"
    unfolding offer_task_def finish_sending_def
    by (rule says_after [OF drained_moved], simp, simp, rule says_first [OF assms]) (auto intro!: causal)
  then show ?thesis by simp
qed

lemma causal_offer_stages [causal]:
  "causal (offer_nonce W P)" "causal (offer_token W C P n)" "causal (offer_answer_pin W b)" "causal (offer_verify_pin W P)"
  unfolding offer_nonce_def Let_def offer_token_def offer_answer_pin_def offer_verify_pin_def
  by (auto intro!: causal split: rtc_token_response.split)

lemma offer_says_nonce:
  assumes "healthy w"
  shows "says (offer_task W C S files) w (dc_out [nonce_ev W S])"
proof (rule offer_task_says)
  let ?w = "moved w (rx w) [EvDrained]"
  have "says (offer_nonce W S) ?w (dc_out [nonce_ev W S] @ [])"
    unfolding offer_nonce_def Let_def using assms
    by (intro says_after [OF send_nonce_run] says_nothing causal) simp_all
  then have "says (offer_nonce W S) ?w (dc_out [nonce_ev W S])" by simp
  then show "says (offer_handshake W C S) ?w (dc_out [nonce_ev W S])"
    unfolding offer_handshake_def by (rule says_first) (auto intro!: causal)
qed

text \<open>A handshake that has come through the nonces, and one that has come through the tokens.\<close>

lemma offer_handshake_greeted:
  assumes W: "wire_format W" and w: "healthy w" and c: "compatible W C S R nonce ts tr"
    and rx: "rx w = nonce_msg W (local_nonce_of R) # ms" and later: "says (offer_token W C S nonce) (moved w ms [nonce_ev W S]) os"
  shows "says (offer_handshake W C S) w (dc_out [nonce_ev W S] @ os)"
proof -
  have "offer_nonce W S w = (Ok nonce, moved w ms [nonce_ev W S])"
    using offer_nonce_run [OF W w _ rx] c by (simp add: compatible_def)
  then show ?thesis
    unfolding offer_handshake_def
    by (rule says_after) (simp, simp, rule says_first [OF later], auto intro!: causal)
qed

lemma offer_handshake_known:
  assumes W: "wire_format W" and w: "healthy w" and c: "compatible W C S R nonce ts tr"
    and rx: "rx w = dc_out (accept_greeting W R tr) @ ms"
    and later: "says (tbind (offer_answer_pin W (rp_pin R \<noteq> None)) (\<lambda>_. offer_verify_pin W S))
      (moved w ms (offer_greeting W S ts)) os"
  shows "says (offer_handshake W C S) w (dc_out (offer_greeting W S ts) @ os)"
proof -
  let ?m1 = "dc_out [reply_ev W R tr] @ ms"
  let ?stage = "tbind (offer_nonce W S) (offer_token W C S)"
  have known: "generate_token_nonce W C (rp_signing_key S) nonce = Some ts" "peer_verified W C S nonce tr"
    using c unfolding compatible_def by blast+
  have s1: "offer_nonce W S w = (Ok nonce, moved w ?m1 [nonce_ev W S])"
    using offer_nonce_run [OF W w, of "local_nonce_of R" ?m1] c rx by (simp add: compatible_def accept_greeting_def hello_out)
  have s2: "offer_token W C S nonce (moved w ?m1 [nonce_ev W S]) = (Ok (rp_pin R \<noteq> None, tr), moved w ms (offer_greeting W S ts))"
    using offer_token_run [OF W, of "moved w ?m1 [nonce_ev W S]" C S nonce tr ts R ms] known w
    by (simp add: hello_out offer_greeting_def)
  have "?stage w = (Ok (rp_pin R \<noteq> None, tr), moved w ms (offer_greeting W S ts))"
    using s1 s2 by (simp add: tbind_def)
  then have "says (tbind ?stage (\<lambda>(pin, tok). tbind (tbind (offer_answer_pin W pin) (\<lambda>_. offer_verify_pin W S))
      (\<lambda>_. tbind (send_status Connected) (\<lambda>_. ret (nonce, tok))))) w (dc_out (offer_greeting W S ts) @ os)"
    by (rule says_after) (simp, simp add: offer_greeting_def, simp only: prod.case, rule says_first [OF later], intro causal)
  moreover have "offer_handshake W C S w = tbind ?stage (\<lambda>(pin, tok). tbind (tbind (offer_answer_pin W pin) (\<lambda>_. offer_verify_pin W S))
      (\<lambda>_. tbind (send_status Connected) (\<lambda>_. ret (nonce, tok)))) w"
    using s1 s2 by (simp add: offer_handshake_def tbind_assoc) (simp add: tbind_def)
  ultimately show ?thesis by (simp add: says_def)
qed

lemma offer_says_token:
  assumes W: "wire_format W" and w: "healthy w" and c: "compatible W C S R nonce ts tr" and rx: "rx w = dc_out [nonce_ev W R]"
  shows "says (offer_task W C S files) w (dc_out (offer_greeting W S ts))"
proof (rule offer_task_says)
  let ?w = "moved w (rx w) [EvDrained]" and ?v = "moved (moved w (rx w) [EvDrained]) [] [nonce_ev W S]"
  have "generate_token_nonce W C (rp_signing_key S) nonce = Some ts" using c unfolding compatible_def by blast
  then have make: "make_token W C S nonce ?v = (Ok ts, ?v)" by (simp add: make_token_def task)
  have send: "context_err ''Failed to send token'' (send_json W enc_rtc_token_request \<lparr>tr_token = ts\<rparr>) ?v =
      (Ok (), moved ?v [] [token_ev W ts])"
    using w by (simp add: task token_ev_def) (simp add: moved_def)
  have "says (offer_token W C S nonce) ?v (dc_out [] @ dc_out [token_ev W ts] @ [])"
    unfolding offer_token_def
    by (rule says_after, rule make, simp, simp, rule says_after, rule send, simp, simp, rule says_nothing)
      (auto intro!: causal split: rtc_token_response.split)
  then have "says (offer_token W C S nonce) ?v (dc_out [token_ev W ts])" by simp
  then have "says (offer_handshake W C S) ?w (dc_out [nonce_ev W S] @ dc_out [token_ev W ts])"
    using w rx by (intro offer_handshake_greeted [OF W _ c]) (simp_all add: hello_out)
  then show "says (offer_handshake W C S) ?w (dc_out (offer_greeting W S ts))"
    by (simp add: offer_greeting_def hello_out)
qed

lemma offer_says_pin:
  assumes W: "wire_format W" and w: "healthy w" and c: "compatible W C S R nonce ts tr"
    and p: "passes (rp_pin R) psR (pin_answers w)" and i: "i < length (guesses (rp_pin R) psR)"
    and rx: "rx w = dc_out (accept_greeting W R tr) @ take i (dc_out (accept_pin_evs W (rp_pin R) psR))"
  shows "says (offer_task W C S files) w
    (dc_out (offer_greeting W S ts) @ map (pin_msg W) (take (Suc i) (guesses (rp_pin R) psR)))"
  using w p i rx
  by (intro offer_task_says offer_handshake_known [OF W _ c] says_first offer_answer_pin_says [OF W]) (simp_all add: causal)

lemma offer_says_notice:
  assumes W: "wire_format W" and w: "healthy w" and c: "compatible W C S R nonce ts tr"
    and p: "passes (rp_pin R) psR (pin_answers w)" "passes (rp_pin S) psS answers" and i: "i < length (guesses (rp_pin S) psS)"
    and rx: "rx w = dc_out (accept_greeting W R tr) @ dc_out (accept_pin_evs W (rp_pin R) psR) @
      map (pin_msg W) (take i (guesses (rp_pin S) psS))"
  shows "says (offer_task W C S files) w (dc_out (offer_greeting W S ts) @
    map (pin_msg W) (guesses (rp_pin R) psR) @ concat (replicate (Suc i) (chunked (send_required W))))"
proof -
  let ?ms = "map (pin_msg W) (take i (guesses (rp_pin S) psS))"
  let ?w = "moved (moved w (rx w) [EvDrained]) (dc_out (accept_pin_evs W (rp_pin R) psR) @ ?ms) (offer_greeting W S ts)"
  have "offer_answer_pin W (rp_pin R \<noteq> None) ?w = (Ok (), moved ?w ?ms (concat (map (pin_events W) (guesses (rp_pin R) psR))))"
    using w p by (intro offer_answer_pin_run [OF W]) simp_all
  then have "says (tbind (offer_answer_pin W (rp_pin R \<noteq> None)) (\<lambda>_. offer_verify_pin W S)) ?w
      (dc_out (concat (map (pin_events W) (guesses (rp_pin R) psR))) @ concat (replicate (Suc i) (chunked (send_required W))))"
    by (rule says_after) (simp, simp, rule offer_verify_pin_says [OF W _ p(2) i], simp_all add: w)
  then show ?thesis
    using w rx by (intro offer_task_says offer_handshake_known [OF W _ c]) (simp_all del: replicate_Suc)
qed

lemma offer_says_list:
  assumes W: "wire_format W" and w: "healthy w" and c: "compatible W C S R nonce ts tr"
    and p: "passes (rp_pin R) psR (pin_answers w)" "passes (rp_pin S) psS answers"
    and rx: "rx w = dc_out (accept_hello W S R tr psR psS)"
  shows "says (offer_task W C S files) w (dc_out (offer_hello W S R ts psR psS) @ file_list_msgs W files)"
proof -
  let ?w = "moved w (rx w) [EvDrained]"
  let ?list = "chunk_evs (to_json_string W enc_rtc_pin_sending_response (PinSendOk files))"
  have hello: "offer_handshake W C S ?w = (Ok (nonce, tr), moved ?w [] (offer_hello W S R ts psR psS))"
    using w p(1) rx by (intro offer_handshake_run [OF W _ c _ p(2)]) simp_all
  have opn: "EvClosed \<notin> set (offer_hello W S R ts psR psS)" by (simp add: offer_hello_def)
  have "offer_files W files v = (Ok (), moved v (rx v) ?list)" if "healthy v" for v
    using that by (rule offer_files_run)
  then have list: "says (offer_files W files) v (dc_out ?list)" if "healthy v" for v
    using that by (intro says_run) auto
  have "says (offer_task W C S files) w (dc_out [EvDrained] @ dc_out (offer_hello W S R ts psR psS) @ dc_out ?list)"
    unfolding offer_task_def finish_sending_def
    by (rule says_after, rule drained_moved, simp, simp, rule says_after, rule hello, simp, rule opn,
        simp only: prod.case, rule says_first, rule list) (auto intro!: causal simp: w)
  then show ?thesis by (simp add: file_list_msgs_def)
qed

lemma offer_says_all:
  assumes W: "wire_format W" and w: "healthy w" and c: "compatible W C S R nonce ts tr"
    and p: "passes (rp_pin R) psR (pin_answers w)" "passes (rp_pin S) psS answers" and wf: "hm_wf tokens"
    and rx: "rx w = dc_out (accept_hello W S R tr psR psS) @ selection_msgs W tokens"
  shows "says (offer_task W C S files) w (dc_out (offer_evs W S R ts psR psS files tokens (outgoing w)))"
proof -
  let ?evs = "offer_evs W S R ts psR psS files tokens (outgoing w)"
  have "offer_task W C S files w = (Ok (Go ()), moved w [] (?evs @ [EvClosed]))"
    using offer_task_run [OF W w c p wf, of "[]" files] rx by (simp add: selection_msgs_def closed_evs_def)
  moreover have "EvClosed \<notin> set ?evs" by (simp add: offer_evs_def offer_hello_def)
  ultimately show ?thesis by (simp add: says_def)
qed

subsection \<open>The receiving task\<close>

lemma causal_accept_stages [causal]:
  "causal (accept_nonce W P)" "causal (accept_token W C P n)" "causal (accept_verify_pin W P)" "causal (accept_file_list W)"
  unfolding accept_nonce_def Let_def accept_token_def accept_verify_pin_def accept_file_list_def
  by (auto intro!: causal simp: causal_silent silent split: rtc_pin_sending_response.split)

lemma accept_task_says:
  assumes "says (accept_handshake W C R) w os"
  shows "says (accept_task W C R nt) w os"
  unfolding accept_task_def by (rule says_first [OF assms]) (auto intro!: causal)

lemma accept_says_nonce:
  assumes W: "wire_format W" and w: "healthy w" and c: "compatible W C S R nonce ts tr" and rx: "rx w = dc_out [nonce_ev W S]"
  shows "says (accept_task W C R nt) w (dc_out [nonce_ev W R])"
proof (rule accept_task_says)
  have "accept_nonce W R w = (Ok nonce, moved w [] [nonce_ev W R])"
    using accept_nonce_run [OF W w, of "local_nonce_of S" "[]"] c rx by (simp add: compatible_def hello_out)
  then have "says (accept_nonce W R) w (dc_out [nonce_ev W R])" by (rule says_run) simp_all
  then show "says (accept_handshake W C R) w (dc_out [nonce_ev W R])"
    unfolding accept_handshake_def by (rule says_first) (intro causal)
qed

lemma accept_handshake_known:
  assumes W: "wire_format W" and w: "healthy w" and c: "compatible W C S R nonce ts tr"
    and rx: "rx w = dc_out (offer_greeting W S ts) @ ms"
    and later: "says (tbind (accept_verify_pin W R) (\<lambda>_. accept_file_list W)) (moved w ms (accept_greeting W R tr)) os"
  shows "says (accept_handshake W C R) w (dc_out (accept_greeting W R tr) @ os)"
proof -
  let ?m1 = "dc_out [token_ev W ts] @ ms"
  let ?stage = "tbind (accept_nonce W R) (\<lambda>n. tbind (accept_token W C R n) (\<lambda>_. ret n))"
  let ?rest = "\<lambda>n. tbind (tbind (accept_verify_pin W R) (\<lambda>_. accept_file_list W))
      (\<lambda>files. tbind (send_status Connected) (\<lambda>_. ret (n, files)))"
  have known: "generate_token_nonce W C (rp_signing_key R) nonce = Some tr" "peer_verified W C R nonce ts"
    using c unfolding compatible_def by blast+
  have s1: "accept_nonce W R w = (Ok nonce, moved w ?m1 [nonce_ev W R])"
    using accept_nonce_run [OF W w, of "local_nonce_of S" ?m1] c rx by (simp add: compatible_def offer_greeting_def hello_out)
  have s2: "accept_token W C R nonce (moved w ?m1 [nonce_ev W R]) = (Ok (), moved w ms (accept_greeting W R tr))"
    using accept_token_run [OF W, of "moved w ?m1 [nonce_ev W R]" C R nonce ts tr ms] known w
    by (simp add: hello_out accept_greeting_def)
  have "?stage w = (Ok nonce, moved w ms (accept_greeting W R tr))"
    using s1 s2 by (simp add: tbind_def ret_def)
  then have "says (tbind ?stage ?rest) w (dc_out (accept_greeting W R tr) @ os)"
    by (rule says_after) (simp, simp add: accept_greeting_def, rule says_first [OF later], intro causal)
  moreover have "accept_handshake W C R w = tbind ?stage ?rest w"
    using s1 s2 by (simp add: accept_handshake_def tbind_assoc tbind_ret)
  ultimately show ?thesis by (simp add: says_def)
qed

lemma accept_says_reply:
  assumes W: "wire_format W" and w: "healthy w" and c: "compatible W C S R nonce ts tr"
    and rx: "rx w = dc_out (offer_greeting W S ts)"
  shows "says (accept_task W C R nt) w (dc_out (accept_greeting W R tr))"
proof -
  have "says (accept_handshake W C R) w (dc_out (accept_greeting W R tr) @ [])"
    using rx by (intro accept_handshake_known [OF W w c] says_nothing causal) simp
  then show ?thesis by (intro accept_task_says) simp
qed

lemma accept_says_notice:
  assumes W: "wire_format W" and w: "healthy w" and c: "compatible W C S R nonce ts tr"
    and p: "passes (rp_pin R) psR answers" and i: "i < length (guesses (rp_pin R) psR)"
    and rx: "rx w = dc_out (offer_greeting W S ts) @ map (pin_msg W) (take (Suc i) (guesses (rp_pin R) psR))"
  shows "says (accept_task W C R nt) w
    (dc_out (accept_greeting W R tr) @ take (Suc i) (dc_out (accept_pin_evs W (rp_pin R) psR)))"
  using w
  by (intro accept_task_says accept_handshake_known [OF W w c rx] says_first accept_verify_pin_says [OF W _ p i])
    (simp_all add: causal)

lemma accept_says_pin:
  assumes W: "wire_format W" and w: "healthy w" and c: "compatible W C S R nonce ts tr"
    and p: "passes (rp_pin S) psS (pin_answers w)" "passes (rp_pin R) psR answers" and i: "i < length (guesses (rp_pin S) psS)"
    and rx: "rx w = dc_out (offer_greeting W S ts) @ map (pin_msg W) (guesses (rp_pin R) psR) @
      concat (replicate (Suc i) (chunked (send_required W)))"
  shows "says (accept_task W C R nt) w (dc_out (accept_greeting W R tr) @
    dc_out (accept_pin_evs W (rp_pin R) psR) @ map (pin_msg W) (take (Suc i) (guesses (rp_pin S) psS)))"
proof -
  let ?ms = "concat (replicate (Suc i) (chunked (send_required W)))"
  let ?w = "moved w (map (pin_msg W) (guesses (rp_pin R) psR) @ ?ms) (accept_greeting W R tr)"
  have "accept_verify_pin W R ?w = (Ok (), moved ?w ?ms (accept_pin_evs W (rp_pin R) psR))"
    using w p by (intro accept_verify_pin_run [OF W]) simp_all
  then have "says (tbind (accept_verify_pin W R) (\<lambda>_. accept_file_list W)) ?w
      (dc_out (accept_pin_evs W (rp_pin R) psR) @ map (pin_msg W) (take (Suc i) (guesses (rp_pin S) psS)))"
    by (rule says_after) (simp, simp, rule accept_file_list_says [OF W _ _ i], simp_all add: w p)
  then show ?thesis
    by (intro accept_task_says accept_handshake_known [OF W w c rx])
qed

lemma accept_says_selection:
  assumes W: "wire_format W" and w: "healthy w" and c: "compatible W C S R nonce ts tr"
    and p: "passes (rp_pin S) psS (pin_answers w)" "passes (rp_pin R) psR answers"
    and sel: "choice w files = SelectionFiles ids" "tokens = file_tokens_of nt ids"
    and rx: "rx w = dc_out (offer_hello W S R ts psR psS) @ file_list_msgs W files"
  shows "says (accept_task W C R nt) w (dc_out (accept_hello W S R tr psR psS) @ selection_msgs W tokens)"
proof -
  let ?hello = "accept_hello W S R tr psR psS" and ?list = "chunk_evs (to_json_string W enc_rtc_file_list_response (ListOk tokens))"
  let ?v = "moved (moved w [] ?hello) [] [EvFiles files]"
  have hello: "accept_handshake W C R w = (Ok (nonce, files), moved w [] ?hello)"
    using accept_handshake_run [OF W w c p, of files "[]"] rx by (simp add: file_list_msgs_def)
  have opn: "EvClosed \<notin> set ?hello" by (simp add: accept_hello_def)
  have shown: "publish_files files (moved w [] ?hello) = (Ok (), ?v)"
    using w by (simp add: publish_files_def healthy_def emit_def moved_def)
  have "send_file_list W (ListOk tokens) ?v = (Ok (), moved ?v [] ?list)"
    using chunk_evs_run [of ?v] w by (simp add: send_file_list_def)
  then have "accept_selection W nt files ?v = (Ok (Go tokens), moved ?v [] ?list)"
    using sel by (simp add: accept_selection_def Let_def tbind_def ret_def del: moved_moved)
  then have chosen: "says (accept_selection W nt files) ?v (dc_out ?list)" by (rule says_run) simp_all
  have "says (accept_task W C R nt) w (dc_out ?hello @ dc_out [EvFiles files] @ dc_out ?list)"
    unfolding accept_task_def and_then_def
    by (rule says_after, rule hello, simp, rule opn, simp only: prod.case,
        rule says_after, rule shown, simp, simp, rule says_first, rule chosen)
      (auto intro!: causal split: stage.split)
  then show ?thesis by (simp add: selection_msgs_def)
qed

lemma accept_says_all:
  assumes W: "wire_format W" and w: "healthy w" and c: "compatible W C S R nonce ts tr"
    and p: "passes (rp_pin S) psS (pin_answers w)" "passes (rp_pin R) psR answers"
    and sel: "choice w files = SelectionFiles ids" "tokens = file_tokens_of nt ids"
    and out: "sent_files tokens out \<noteq> []" "\<forall>f \<in> set (sent_files tokens out). authorised tokens files (fst f)"
    and rx: "rx w = dc_out (offer_evs W S R ts psR psS files tokens out)"
  shows "says (accept_task W C R nt) w
    (dc_out (accept_evs W S R tr psR psS files tokens (file_results w) (sent_files tokens out)))"
proof -
  have "rx w = dc_out (offer_hello W S R ts psR psS) @
      chunked (to_json_string W enc_rtc_pin_sending_response (PinSendOk files)) @
      concat (map (file_frames W tokens) (sent_files tokens out)) @ [text_msg ''0'']"
    using rx by (simp add: offer_evs_def file_evs_out)
  from accept_task_run [OF W w c p sel out this] obtain w' where
    "accept_task W C R nt w = (Ok (Go ()), w')"
    "trace w' = trace w @ accept_evs W S R tr psR psS files tokens (file_results w) (sent_files tokens out)" by blast
  then show ?thesis by (rule says_run) (simp add: accept_evs_def accept_hello_def)
qed

end
