(* ===== verification/Rtc_Orders.thy ===== *)
theory Rtc_Orders
  imports Rtc_Rounds
begin

section \<open>A session ends in every order of delivery\<close>

text \<open>
  The rounds of a session as one schedule: it reaches the end, so by the lemmas of the
  locale \<open>network\<close> every other order of delivery reaches it too.
\<close>

lemma accept_pins_length: "length (dc_out (accept_pin_evs W cfg ps)) = length (guesses cfg ps)"
proof (cases cfg)
  case None
  then show ?thesis by (simp add: accept_pin_evs_def guesses_def)
qed (simp add: accept_pins_out guesses_def)

lemma offer_pins_out:
  "dc_out (offer_pin_evs W cfg ps) = concat (replicate (length (guesses cfg ps)) (chunked (send_required W)))"
proof -
  have "dc_out (concat (replicate n (chunk_evs s))) = concat (replicate n (chunked s))" for n s
    by (induction n) simp_all
  then show ?thesis by (cases cfg) (simp_all add: offer_pin_evs_def guesses_def)
qed

lemma offer_hello_out:
  "dc_out (offer_hello W S R ts psR psS) = dc_out (offer_greeting W S ts) @ map (pin_msg W) (guesses (rp_pin R) psR) @
     concat (replicate (length (guesses (rp_pin S) psS)) (chunked (send_required W)))"
  by (simp add: offer_hello_def offer_greeting_def hello_out offer_pins_out)

lemma accept_hello_out:
  "dc_out (accept_hello W S R tr psR psS) = dc_out (accept_greeting W R tr) @ dc_out (accept_pin_evs W (rp_pin R) psR) @
     map (pin_msg W) (guesses (rp_pin S) psS)"
  by (simp add: accept_hello_def accept_greeting_def hello_out)

lemma prefix_take_Suc: "prefix (take i xs) (take (Suc i) xs)"
  using take_is_prefix [of i "take (Suc i) xs"] by (simp add: min_def)

lemma prefix_replicate_Suc: "prefix (concat (replicate i x)) (concat (replicate (Suc i) x))"
  by (metis concat_append concat.simps(1,2) prefixI replicate_Suc replicate_app_Cons_same replicate_append_same append_Nil2)

lemma handshake_schedule:
  assumes W: "wire_format W" and c: "compatible W C S R nonce ts tr"
    and p: "passes (rp_pin R) psR (pin_answers ws)" "passes (rp_pin S) psS (pin_answers wr)"
    and w: "healthy ws" "healthy wr" "trace ws = []" "trace wr = []"
  shows "exchange (sent_by (offer_task W C S files) ws) (sent_by (accept_task W C R nt) wr)
    (dc_out (accept_hello W S R tr psR psS)) (dc_out (offer_hello W S R ts psR psS))"
proof -
  let ?S = "sent_by (offer_task W C S files) ws" and ?R = "sent_by (accept_task W C R nt) wr"
  let ?og = "dc_out (offer_greeting W S ts)" and ?ag = "dc_out (accept_greeting W R tr)"
  let ?gR = "guesses (rp_pin R) psR" and ?gS = "guesses (rp_pin S) psS"
  let ?ap = "dc_out (accept_pin_evs W (rp_pin R) psR)"
  note S = says_sent [OF _ w(3)] and R = says_sent [OF _ w(4)]
  have "exchange ?S ?R [] []" by (rule exchange.start)
  then have "exchange ?S ?R [] (dc_out [nonce_ev W S])"
    by (rule tasks.burst_receiver) (simp, rule S, rule offer_says_nonce, simp add: w)
  then have "exchange ?S ?R (dc_out [nonce_ev W R]) (dc_out [nonce_ev W S])"
    by (rule tasks.burst_sender) (simp, rule R, rule accept_says_nonce [OF W _ c], simp_all add: w)
  then have "exchange ?S ?R (dc_out [nonce_ev W R]) ?og"
    by (rule tasks.burst_receiver)
      (simp add: offer_greeting_def hello_out, rule S, rule offer_says_token [OF W _ c], simp_all add: w)
  then have "exchange ?S ?R ?ag ?og"
    by (rule tasks.burst_sender)
      (simp add: accept_greeting_def hello_out, rule R, rule accept_says_reply [OF W _ c], simp_all add: w)
  then have greeted: "exchange ?S ?R (?ag @ take 0 ?ap) (?og @ map (pin_msg W) (take 0 ?gR))" by simp
  have "prefix (?og @ map (pin_msg W) (take (Suc i) ?gR)) (?S (?ag @ take i ?ap))"
    and "prefix (?ag @ take (Suc i) ?ap) (?R (?og @ map (pin_msg W) (take (Suc i) ?gR)))" if "i < length ?gR" for i
    by (rule S, rule offer_says_pin [OF W _ c _ that], simp_all add: w p)
      (rule R, rule accept_says_notice [OF W _ c p(1) that], simp_all add: w)
  then have "exchange ?S ?R (?ag @ take (length ?gR) ?ap) (?og @ map (pin_msg W) (take (length ?gR) ?gR))"
    by (intro tasks.climb [where a = "\<lambda>i. ?ag @ take i ?ap" and b = "\<lambda>i. ?og @ map (pin_msg W) (take i ?gR)", OF greeted] conjI)
      (simp_all add: prefix_take_Suc map_mono_prefix)
  then have known: "exchange ?S ?R (?ag @ ?ap @ map (pin_msg W) (take 0 ?gS))
      (?og @ map (pin_msg W) ?gR @ concat (replicate 0 (chunked (send_required W))))"
    by (simp add: accept_pins_length [symmetric, where W = W])
  have "prefix (?og @ map (pin_msg W) ?gR @ concat (replicate (Suc i) (chunked (send_required W))))
        (?S (?ag @ ?ap @ map (pin_msg W) (take i ?gS)))" if "i < length ?gS" for i
    by (rule S, rule offer_says_notice [OF W _ c _ p(2) that], simp_all add: w p)
  moreover have "prefix (?ag @ ?ap @ map (pin_msg W) (take (Suc i) ?gS))
        (?R (?og @ map (pin_msg W) ?gR @ concat (replicate (Suc i) (chunked (send_required W)))))" if "i < length ?gS" for i
    by (rule R, rule accept_says_pin [OF W _ c _ p(1) that], simp_all add: w p)
  ultimately have "exchange ?S ?R (?ag @ ?ap @ map (pin_msg W) (take (length ?gS) ?gS))
      (?og @ map (pin_msg W) ?gR @ concat (replicate (length ?gS) (chunked (send_required W))))"
    by (intro tasks.climb [where a = "\<lambda>i. ?ag @ ?ap @ map (pin_msg W) (take i ?gS)"
        and b = "\<lambda>i. ?og @ map (pin_msg W) ?gR @ concat (replicate i (chunked (send_required W)))", OF known] conjI)
      (simp_all add: prefix_take_Suc map_mono_prefix prefix_replicate_Suc del: replicate_Suc)
  then show ?thesis by (simp add: offer_hello_out accept_hello_out)
qed

lemma session_schedule:
  assumes W: "wire_format W" and c: "compatible W C S R nonce ts tr"
    and p: "passes (rp_pin R) psR (pin_answers ws)" "passes (rp_pin S) psS (pin_answers wr)"
    and w: "healthy ws" "healthy wr" "trace ws = []" "trace wr = []"
    and sel: "choice wr files = SelectionFiles ids" "set ids \<subseteq> fd_id ` set files"
    and some: "\<exists>f \<in> set (outgoing ws). fst f \<in> set ids"
    and tokens: "tokens = file_tokens_of nt ids" and out: "out = sent_files tokens (outgoing ws)"
    and evs: "evs_s = offer_evs W S R ts psR psS files tokens (outgoing ws)"
      "evs_r = accept_evs W S R tr psR psS files tokens (file_results wr) out"
  shows "sent_by (offer_task W C S files) ws (dc_out evs_r) = dc_out evs_s"
    "sent_by (accept_task W C R nt) wr (dc_out evs_s) = dc_out evs_r"
    "exchange (sent_by (offer_task W C S files) ws) (sent_by (accept_task W C R nt) wr) (dc_out evs_r) (dc_out evs_s)"
proof -
  let ?S = "sent_by (offer_task W C S files) ws" and ?R = "sent_by (accept_task W C R nt) wr"
  let ?ah = "dc_out (accept_hello W S R tr psR psS)" and ?oh = "dc_out (offer_hello W S R ts psR psS)"
  note files = chosen_files [OF sel(2) some tokens]
  note S = says_sent [OF _ w(3)] and R = says_sent [OF _ w(4)]
  have opn: "EvClosed \<notin> set evs_s" "EvClosed \<notin> set evs_r"
    by (simp_all add: evs offer_evs_def offer_hello_def accept_evs_def accept_hello_def)
  then show "?S (dc_out evs_r) = dc_out evs_s" "?R (dc_out evs_s) = dc_out evs_r"
    using session_runs [OF W c p w sel some tokens out evs] by (auto simp: sent_by_def)
  have s_all: "says (offer_task W C S files) (ws\<lparr>rx := ?ah @ selection_msgs W tokens\<rparr>) (dc_out evs_s)"
    using offer_says_all [OF W _ c _ p(2) files(1), of "ws\<lparr>rx := ?ah @ selection_msgs W tokens\<rparr>" psR files] w p
    by (simp add: evs)
  have r_all: "says (accept_task W C R nt) (wr\<lparr>rx := dc_out evs_s\<rparr>) (dc_out evs_r)"
    using accept_says_all [OF W _ c _ p(1) _ tokens files(4,5), of "wr\<lparr>rx := dc_out evs_s\<rparr>" psS] w p sel
    by (simp add: evs out)
  have "exchange ?S ?R ?ah ?oh" by (rule handshake_schedule [OF W c p w])
  then have "exchange ?S ?R ?ah (?oh @ file_list_msgs W files)"
    by (rule tasks.burst_receiver) (simp, rule S, rule offer_says_list [OF W _ c _ p(2)], simp_all add: w p)
  then have "exchange ?S ?R (?ah @ selection_msgs W tokens) (?oh @ file_list_msgs W files)"
    by (rule tasks.burst_sender)
      (simp, rule R, rule accept_says_selection [OF W _ c _ p(1) _ tokens], simp_all add: w p sel)
  then have "exchange ?S ?R (?ah @ selection_msgs W tokens) (dc_out evs_s)"
    by (rule tasks.burst_receiver) (simp add: evs offer_evs_def file_list_msgs_def, rule S, rule s_all)
  then show "exchange ?S ?R (dc_out evs_r) (dc_out evs_s)"
    by (rule tasks.burst_sender) (simp add: evs accept_evs_def selection_msgs_def, rule R, rule r_all)
qed

text \<open>What the network may have delivered to the two tasks of a session at some moment.\<close>

definition delivered ::
    "wire \<Rightarrow> crypto \<Rightarrow> rtc_params \<Rightarrow> rtc_params \<Rightarrow> (nat \<Rightarrow> string) \<Rightarrow> file_dto list \<Rightarrow> rtc_world \<Rightarrow> rtc_world \<Rightarrow>
       dc_msg list \<Rightarrow> dc_msg list \<Rightarrow> bool" where
  "delivered W C S R nt files ws wr =
     exchange (sent_by (offer_task W C S files) ws) (sent_by (accept_task W C R nt) wr)"

lemma session_orders:
  assumes W: "wire_format W" and sig: "signature_scheme C"
    and nonces: "validate_nonce (local_nonce_of S)" "validate_nonce (local_nonce_of R)"
    and expect: "expects C S R" "expects C R S"
    and pins: "passes (rp_pin R) psR (pin_answers ws)" "passes (rp_pin S) psS (pin_answers wr)"
    and worlds: "healthy ws" "healthy wr" "trace ws = []" "trace wr = []"
    and sel: "choice wr files = SelectionFiles ids" "set ids \<subseteq> fd_id ` set files"
    and some: "\<exists>f \<in> set (outgoing ws). fst f \<in> set ids"
    and net: "net = delivered W C S R nt files ws wr"
  shows "\<exists>to_sender to_receiver ws' wr'.
    offer_task W C S files (ws\<lparr>rx := to_sender\<rparr>) = (Ok (Go ()), ws') \<and>
    accept_task W C R nt (wr\<lparr>rx := to_receiver\<rparr>) = (Ok (Go ()), wr') \<and>
    received None (trace wr') =
      map (\<lambda>f. (fst f, concat (snd f))) (filter (\<lambda>f. fst f \<in> set ids) (outgoing ws)) \<and>
    net to_sender to_receiver \<and>
    (\<forall>xs ys. net xs ys \<longrightarrow> prefix xs to_sender \<and> prefix ys to_receiver \<and>
       ((xs = to_sender \<and> ys = to_receiver) \<or> (\<exists>m. net (xs @ [m]) ys) \<or> (\<exists>m. net xs (ys @ [m]))))"
proof -
  obtain ts tr where c: "compatible W C S R (local_nonce_of S @ local_nonce_of R) ts tr"
    using compatible_exists [OF W sig nonces expect] by blast
  define tokens where "tokens = file_tokens_of nt ids"
  define out where "out = sent_files tokens (outgoing ws)"
  define evs_s where "evs_s = offer_evs W S R ts psR psS files tokens (outgoing ws)"
  define evs_r where "evs_r = accept_evs W S R tr psR psS files tokens (file_results wr) out"
  note these = W c pins worlds sel some tokens_def out_def evs_s_def evs_r_def
  note top = session_schedule [OF these]
  obtain ws' wr' where runs: "offer_task W C S files (ws\<lparr>rx := dc_out evs_r\<rparr>) = (Ok (Go ()), ws')" "trace ws' = evs_s"
    "accept_task W C R nt (wr\<lparr>rx := dc_out evs_s\<rparr>) = (Ok (Go ()), wr')" "trace wr' = evs_r"
    using session_runs [OF these] by blast
  have got: "received None evs_r = map (\<lambda>f. (fst f, concat (snd f))) (filter (\<lambda>f. fst f \<in> set ids) (outgoing ws))"
    using chosen_files(3) [OF sel(2) some tokens_def] by (simp add: evs_r_def accept_received out_def)
  have orders: "prefix xs (dc_out evs_r) \<and> prefix ys (dc_out evs_s) \<and>
      ((xs = dc_out evs_r \<and> ys = dc_out evs_s) \<or> (\<exists>m. net (xs @ [m]) ys) \<or> (\<exists>m. net xs (ys @ [m])))"
    if "net xs ys" for xs ys
    using tasks.below_closed [OF top(1,2) that [unfolded net delivered_def]] tasks.no_deadlock [OF top that [unfolded net delivered_def]]
    unfolding net delivered_def by blast
  show ?thesis
    using runs got orders top(3) [folded delivered_def, folded net]
    by (intro exI [of _ "dc_out evs_r"] exI [of _ "dc_out evs_s"] exI [of _ ws'] exI [of _ wr'] conjI) simp_all
qed

end
