(* ===== verification/Transfer_Correct.thy ===== *)
theory Transfer_Correct
  imports Demo_Program Rtc_Orders
begin

section \<open>The transfer over WebRTC: properties\<close>

text \<open>
  The claims about the data channel protocol and the negotiation around it. The witnesses
  run the definitions on the executable wire format and signature scheme.
\<close>

subsection \<open>Concrete peers for the witnesses\<close>

definition demo_params :: "string \<Rightarrow> string \<Rightarrow> string option \<Rightarrow> rtc_params" where
  "demo_params own expected pin =
     \<lparr>rp_signing_key = own, rp_expecting_public_key = Some (Ed25519VerifyingKey expected),
      rp_pin = map_option (\<lambda>p. \<lparr>pc_pin = p, pc_max_tries = 3\<rparr>) pin, rp_fill = (\<lambda>b. map (\<lambda>_. CHR ''n'') b)\<rparr>"

definition demo_world :: rtc_world where
  "demo_world =
     \<lparr>rx = [], dc_sends = [], chunk_sends = [], status_open = True, selected_open = True, files_open = True,
      pin_answers = [], pair_with = PairChannelClosed, choice = (\<lambda>_. SelectionDropped), outgoing = [],
      file_results = [], time_limits = [], trace = []\<rparr>"

definition demo_file :: "string \<Rightarrow> file_dto" where
  "demo_file i =
     \<lparr>fd_id = i, fd_file_name = i, fd_size = 3, fd_file_type = ''text/plain'', fd_sha256 = None, fd_preview = None,
      fd_metadata = None\<rparr>"

lemma demo_nonce: "validate_nonce (local_nonce_of (demo_params own expected pin))"
  by (simp add: local_nonce_of_def demo_params_def generate_nonce_def validate_nonce_def)

lemma demo_healthy: "healthy (demo_world\<lparr>pin_answers := a, outgoing := f\<rparr>)"
  "healthy (demo_world\<lparr>pin_answers := a, choice := c\<rparr>)"
  by (simp_all add: healthy_def demo_world_def)

lemma demo_sel [simp]:
  "rx demo_world = []" "trace demo_world = []" "pin_answers demo_world = []" "outgoing demo_world = []"
  "choice demo_world = (\<lambda>_. SelectionDropped)"
  by (simp_all add: demo_world_def)

lemma demo_world_healthy [simp]: "healthy demo_world"
  by (simp add: healthy_def demo_world_def)

lemma received_opened: "received None es \<noteq> [] \<Longrightarrow> opened es \<noteq> {}"
proof -
  have "opened es = {} \<Longrightarrow> received None es = []"
  proof (induction es)
    case (Cons e es)
    then show ?case by (cases e) (auto simp: opened_def)
  qed simp
  then show "received None es \<noteq> [] \<Longrightarrow> opened es \<noteq> {}" by blast
qed

text \<open>
  One session: both sides pose a PIN, the sending user first enters a wrong one, two files
  are offered and one of them is selected.
\<close>

definition demo_sender :: rtc_params where
  "demo_sender = demo_params ''A'' ''B'' (Some ''12'')"

definition demo_receiver :: rtc_params where
  "demo_receiver = demo_params ''B'' ''A'' (Some ''34'')"

definition demo_files :: "file_dto list" where
  "demo_files = [demo_file ''f'', demo_file ''g'']"

definition demo_sending :: rtc_world where
  "demo_sending = demo_world\<lparr>pin_answers := [PinGiven ''9'', PinGiven ''34''],
     outgoing := [(''g'', [''x'']), (''f'', [''ab'', ''c''])]\<rparr>"

definition demo_receiving :: rtc_world where
  "demo_receiving = demo_world\<lparr>pin_answers := [PinGiven ''12''], choice := (\<lambda>_. SelectionFiles [''f''])\<rparr>"

lemma demo_premises:
  "validate_nonce (local_nonce_of demo_sender)" "validate_nonce (local_nonce_of demo_receiver)"
  "expects ref_crypto demo_sender demo_receiver" "expects ref_crypto demo_receiver demo_sender"
  "passes (rp_pin demo_receiver) [''9''] (pin_answers demo_sending)"
  "passes (rp_pin demo_sender) [] (pin_answers demo_receiving)"
  "healthy demo_sending" "healthy demo_receiving" "trace demo_sending = []" "trace demo_receiving = []"
  "choice demo_receiving demo_files = SelectionFiles [''f'']" "set [''f''] \<subseteq> fd_id ` set demo_files"
  "\<exists>f \<in> set (outgoing demo_sending). fst f \<in> set [''f'']"
  by (simp_all add: demo_sender_def demo_receiver_def demo_sending_def demo_receiving_def demo_nonce demo_healthy
      expects_def to_verifying_key_def ref_crypto_def passes_def demo_files_def demo_file_def)
    (simp_all add: demo_params_def)

lemma demo_selected:
  "map (\<lambda>f. (fst f, concat (snd f))) (filter (\<lambda>f. fst f \<in> set [''f'']) (outgoing demo_sending)) = [(''f'', ''abc'')]"
  by (simp add: demo_sending_def)

lemma demo_session:
  "\<exists>to_sender to_receiver ws wr.
     offer_task ref_wire ref_crypto demo_sender demo_files (demo_sending\<lparr>rx := to_sender\<rparr>) = (Ok (Go ()), ws) \<and>
     accept_task ref_wire ref_crypto demo_receiver (\<lambda>n. ''t'') (demo_receiving\<lparr>rx := to_receiver\<rparr>) = (Ok (Go ()), wr) \<and>
     dc_out (trace ws) = to_receiver \<and> dc_out (trace wr) = to_sender \<and> received None (trace wr) = [(''f'', ''abc'')]"
  using session_run [OF ref_wire_format ref_signature_scheme demo_premises, where nt = "\<lambda>n. ''t''"]
  unfolding demo_selected by blast

subsection \<open>A whole session\<close>

text \<open>
  C1: two peers that pass each other's checks (valid nonces, expected keys,
  right PINs within the allowed tries, over channels that fail nowhere) complete the
  transfer. The sending and the receiving task both end without an error, each on exactly
  the messages the other has sent, and the receiver's application gets the content of every
  offered file whose id it selected, in the order in which the files were sent, and no other.
  It was shown the offered list, the sender's application was told the selection, and no error
  was reported as a status to either.
\<close>

lemma session_delivers:
  assumes "wire_format W" "signature_scheme C"
    and "validate_nonce (local_nonce_of S)" "validate_nonce (local_nonce_of R)"
    and "expects C S R" "expects C R S"
    and "passes (rp_pin R) psR (pin_answers ws)" "passes (rp_pin S) psS (pin_answers wr)"
    and "healthy ws" "healthy wr" "trace ws = []" "trace wr = []"
    and "choice wr files = SelectionFiles ids" "set ids \<subseteq> fd_id ` set files"
    and "\<exists>f \<in> set (outgoing ws). fst f \<in> set ids"
  shows "\<exists>to_sender to_receiver ws' wr'.
    offer_task W C S files (ws\<lparr>rx := to_sender\<rparr>) = (Ok (Go ()), ws') \<and>
    accept_task W C R nt (wr\<lparr>rx := to_receiver\<rparr>) = (Ok (Go ()), wr') \<and>
    dc_out (trace ws') = to_receiver \<and> dc_out (trace wr') = to_sender \<and>
    received None (trace wr') =
      map (\<lambda>f. (fst f, concat (snd f))) (filter (\<lambda>f. fst f \<in> set ids) (outgoing ws)) \<and>
    observe shown_of (trace wr') = [files] \<and>
    (\<exists>sel. observe selected_of (trace ws') = [sel] \<and> set sel = set ids) \<and>
    set (observe status_of (trace ws') @ observe status_of (trace wr')) \<subseteq> {StatusPinRequired, Connected}"
  by (rule session_run [OF assms])

lemma session_delivers_witness:
  "\<exists>to_sender to_receiver ws wr.
     offer_task ref_wire ref_crypto demo_sender demo_files (demo_sending\<lparr>rx := to_sender\<rparr>) = (Ok (Go ()), ws) \<and>
     accept_task ref_wire ref_crypto demo_receiver (\<lambda>n. ''u'') (demo_receiving\<lparr>rx := to_receiver\<rparr>) = (Ok (Go ()), wr) \<and>
     dc_out (trace ws) = to_receiver \<and> dc_out (trace wr) = to_sender \<and> received None (trace wr) = [(''f'', ''abc'')]"
  using session_delivers [OF ref_wire_format ref_signature_scheme demo_premises, where nt = "\<lambda>n. ''u''"]
  unfolding demo_selected by blast

text \<open>
  C2: the same two peers over a network that decides, message by message,
  which direction it serves next. What a task has sent at some moment is what it sends before
  it would wait for more than it has been given. Then there is one complete exchange, on which
  both tasks end without an error and the selected files arrive, and whatever order the
  network chooses, all it has delivered by then is a part of this exchange, and as long as it
  is not all of it, there is a message under way. So no order makes the two tasks wait for
  each other or gives them anything else to read, and after as many deliveries as the
  exchange has messages the transfer is complete.
\<close>

lemma every_delivery_order:
  assumes "wire_format W" "signature_scheme C"
    and "validate_nonce (local_nonce_of S)" "validate_nonce (local_nonce_of R)"
    and "expects C S R" "expects C R S"
    and "passes (rp_pin R) psR (pin_answers ws)" "passes (rp_pin S) psS (pin_answers wr)"
    and "healthy ws" "healthy wr" "trace ws = []" "trace wr = []"
    and "choice wr files = SelectionFiles ids" "set ids \<subseteq> fd_id ` set files"
    and "\<exists>f \<in> set (outgoing ws). fst f \<in> set ids"
  shows "\<exists>to_sender to_receiver ws' wr'.
    offer_task W C S files (ws\<lparr>rx := to_sender\<rparr>) = (Ok (Go ()), ws') \<and>
    accept_task W C R nt (wr\<lparr>rx := to_receiver\<rparr>) = (Ok (Go ()), wr') \<and>
    received None (trace wr') =
      map (\<lambda>f. (fst f, concat (snd f))) (filter (\<lambda>f. fst f \<in> set ids) (outgoing ws)) \<and>
    delivered W C S R nt files ws wr to_sender to_receiver \<and>
    (\<forall>xs ys. delivered W C S R nt files ws wr xs ys \<longrightarrow>
       prefix xs to_sender \<and> prefix ys to_receiver \<and>
       ((xs = to_sender \<and> ys = to_receiver) \<or>
        (\<exists>m. delivered W C S R nt files ws wr (xs @ [m]) ys) \<or>
        (\<exists>m. delivered W C S R nt files ws wr xs (ys @ [m]))))"
  by (rule session_orders [OF assms refl])

lemma every_delivery_order_witness:
  "\<exists>to_sender to_receiver wr.
     accept_task ref_wire ref_crypto demo_receiver (\<lambda>n. ''v'') (demo_receiving\<lparr>rx := to_receiver\<rparr>) = (Ok (Go ()), wr) \<and>
     received None (trace wr) = [(''f'', ''abc'')] \<and>
     delivered ref_wire ref_crypto demo_sender demo_receiver (\<lambda>n. ''v'') demo_files demo_sending demo_receiving
       to_sender to_receiver"
  using every_delivery_order [OF ref_wire_format ref_signature_scheme demo_premises, where nt = "\<lambda>n. ''v''"]
  unfolding demo_selected by blast

subsection \<open>Safety against any peer\<close>

text \<open>
  C4: whatever the peer sends and whichever sends fail, the streams the
  receiving task hands to the application are well formed: one file at a time is open, every
  chunk and every close belongs to the open file, and a task that ends without an error
  leaves no file open. Only files are opened that the application has selected and that
  were in the list it was shown.
\<close>

lemma receiver_streams_safe:
  assumes "accept_task W C P nt w = (r, w')"
  shows "\<exists>es. trace w' = trace w @ es \<and> stream_end None es \<noteq> None \<and>
    (r = Ok (Go ()) \<longrightarrow> stream_end None es = Some None) \<and>
    (\<forall>i \<in> opened es. \<exists>ids files. choice w files = SelectionFiles ids \<and> i \<in> set ids \<and>
       EvFiles files \<in> set es \<and> i \<in> fd_id ` set files)"
  using accept_task_safe [OF assms] unfolding adds_def by metis

lemma receiver_streams_safe_witness:
  "\<exists>to_receiver wr. accept_task ref_wire ref_crypto demo_receiver (\<lambda>n. ''t'') (demo_receiving\<lparr>rx := to_receiver\<rparr>) =
      (Ok (Go ()), wr) \<and> received None (trace wr) = [(''f'', ''abc'')] \<and> stream_end None (trace wr) = Some None"
proof -
  obtain to_receiver wr where run: "accept_task ref_wire ref_crypto demo_receiver (\<lambda>n. ''t'')
      (demo_receiving\<lparr>rx := to_receiver\<rparr>) = (Ok (Go ()), wr)" and "received None (trace wr) = [(''f'', ''abc'')]"
    using demo_session by blast
  with receiver_streams_safe [OF run] show ?thesis by (auto simp: demo_premises)
qed

text \<open>
  C5: the receiving application is shown a file list only after the
  checks it asked for: when it expects a key, a token arrived that verifies with that key
  for a nonce which ends in the receiver's own fresh nonce (so it was made for this
  session); when it has set a non-empty PIN, a message with this PIN arrived.
\<close>

lemma receiver_checks_peer:
  assumes "accept_task W C P nt w = (r, w')" "trace w = []" "EvFiles fs \<in> set (trace w')"
  shows "\<exists>rn. validate_nonce rn \<and> token_checked (request_token W) W C P (rn @ local_nonce_of P) (rx w) \<and>
    pin_verified W P (rx w)"
  using accept_task_safe [OF assms(1)] assms(2,3) unfolding adds_def by (metis append_Nil)

lemma receiver_checks_peer_witness:
  "\<exists>to_receiver wr fs rn. accept_task ref_wire ref_crypto demo_receiver (\<lambda>n. ''t'') (demo_receiving\<lparr>rx := to_receiver\<rparr>) =
      (Ok (Go ()), wr) \<and> EvFiles fs \<in> set (trace wr) \<and>
    token_checked (request_token ref_wire) ref_wire ref_crypto demo_receiver (rn @ local_nonce_of demo_receiver) to_receiver \<and>
    pin_verified ref_wire demo_receiver to_receiver"
proof -
  obtain to_receiver wr where run: "accept_task ref_wire ref_crypto demo_receiver (\<lambda>n. ''t'')
      (demo_receiving\<lparr>rx := to_receiver\<rparr>) = (Ok (Go ()), wr)" and got: "received None (trace wr) = [(''f'', ''abc'')]"
    using demo_session by blast
  obtain es where es: "adds es (demo_receiving\<lparr>rx := to_receiver\<rparr>) wr"
    "\<And>i. i \<in> opened es \<Longrightarrow> \<exists>files. EvFiles files \<in> set es"
    by (rule accept_task_safe [OF run]) blast
  have tr: "trace wr = es" using es(1) by (simp add: adds_def demo_premises)
  have "opened (trace wr) \<noteq> {}" using got by (intro received_opened) simp
  then obtain fs where "EvFiles fs \<in> set (trace wr)" using es(2) tr by blast
  with receiver_checks_peer [OF run] run show ?thesis by (force simp: demo_premises)
qed

text \<open>
  C6: a peer learns nothing about the offered files before it has passed the
  sender's checks. For any peer, either the run of the sending task is the same for every
  file list (the messages sent, the statuses and the result do not depend on the files), or
  a token has arrived that verifies with the expected key for a nonce which begins with the
  sender's own fresh nonce, and the sender's PIN, if it has set one, has been given.
\<close>

lemma sender_secret:
  "(\<forall>files'. offer_task W C P files' w = offer_task W C P files w) \<or>
   (\<exists>rn. validate_nonce rn \<and> token_checked (response_token W) W C P (local_nonce_of P @ rn) (rx w) \<and>
      pin_verified W P (rx w))"
proof (cases "offer_task W C P files w")
  case (Pair r w')
  then show ?thesis
  proof (cases rule: offer_task_connected)
    case early
    then show ?thesis using Pair by simp
  next
    case (connected nonce token w0 w1)
    then show ?thesis using offer_handshake_Ok [OF connected(2)] by metis
  qed
qed

subsection \<open>PIN challenges\<close>

definition demo_pin :: pin_config where
  "demo_pin = \<lparr>pc_pin = ''34'', pc_max_tries = 2\<rparr>"

text \<open>
  C21: a PIN challenge takes at most the configured number of messages from
  the peer, and it succeeds only if one of these carries the configured PIN (or this PIN is
  empty: the first comparison is with the empty string). This holds for any messages, with
  the notices of the sender as with those of the receiver, also when sends fail.
\<close>

lemma pin_tries_bounded:
  assumes "verify_pin W cfg notice sr w = (r, w')" "sr = receiver_notice W \<or> sr = sender_notice W"
  shows "\<exists>k. k \<le> unat (pc_max_tries cfg) \<and> rx w' = drop k (rx w) \<and>
    (r = Ok () \<longrightarrow> pc_pin cfg = [] \<or> (\<exists>m \<in> set (take k (rx w)). right_pin W cfg m))"
proof -
  have "keeps_rx (sr x)" for x using assms(2) keeps_notice by auto
  from verify_pin_safe [OF this assms(1)] show ?thesis by metis
qed

lemma pin_tries_bounded_witness:
  "\<exists>k w'. verify_pin ref_wire demo_pin False (receiver_notice ref_wire)
      (demo_world\<lparr>rx := map (pin_msg ref_wire) [''1'', ''34'', ''5'']\<rparr>) = (Ok (), w') \<and>
    k \<le> 2 \<and> rx w' = drop k (map (pin_msg ref_wire) [''1'', ''34'', ''5'']) \<and>
    (\<exists>m \<in> set (take k (map (pin_msg ref_wire) [''1'', ''34'', ''5''])). right_pin ref_wire demo_pin m)"
proof -
  let ?w = "demo_world\<lparr>rx := map (pin_msg ref_wire) [''1'', ''34'', ''5'']\<rparr>"
  define evs where "evs r = [EvText (to_json_string ref_wire enc_rtc_pin_receiving_response
      (case r of VerPinRequired \<Rightarrow> PinRecvRequired | VerTooManyAttempts \<Rightarrow> PinRecvTooManyAttempts))]" for r
  have "receiver_notice ref_wire r v = (Ok (), v\<lparr>trace := trace v @ evs r\<rparr>)" if "healthy v" for r v
    using that by (simp add: receiver_notice_def evs_def task)
  from verify_pin_accepts [OF ref_wire_format this, of ?w demo_pin "[''1'']" "map (pin_msg ref_wire) [''5'']" False]
  obtain w' where run: "verify_pin ref_wire demo_pin False (receiver_notice ref_wire) ?w = (Ok (), w')"
    by (simp add: demo_pin_def)
  show ?thesis using pin_tries_bounded [OF run] run by (auto simp: demo_pin_def)
qed

text \<open>The notices of a receiver that refuses a peer after \<open>n\<close> wrong PINs.\<close>

definition refusal :: "wire \<Rightarrow> nat \<Rightarrow> event list" where
  "refusal W n = map (\<lambda>m. EvText (to_json_string W enc_rtc_pin_receiving_response m))
     (replicate (n - 1) PinRecvRequired @ [PinRecvTooManyAttempts])"

text \<open>
  C22: a peer that has given as many wrong PINs as there are tries is refused.
  The challenge ends with the error, after the notice of too many attempts has been sent
  and the application has been told, and no further message is read: the right PIN would
  come too late. The other side of the challenge, given the messages this one sends, asks
  its user once for each of these PINs, sends exactly them, and ends with the same error.
\<close>

lemma pin_rejected:
  assumes "wire_format W" "healthy w" "pc_pin cfg \<noteq> []" "pc_pin cfg \<notin> set wrong"
    and "length wrong = unat (pc_max_tries cfg)" "rx w = map (pin_msg W) wrong @ rest"
    and "healthy v" "wrong \<noteq> []" "pin_answers v = map PinGiven wrong @ others"
    and "rx v = dc_out (refusal W (length wrong)) @ rest'"
  shows "verify_pin W cfg False (receiver_notice W) w =
      (Err (Msg ''Too many requests''), w\<lparr>rx := rest, trace := trace w @ EvStatus StatusPinRequired #
        refusal W (length wrong) @ [EvDrained, EvStatus StatusTooManyAttempts]\<rparr>) \<and>
    handle_pin W False (parse_receiving_response W) v =
      (Err (Msg ''Too many requests''), v\<lparr>rx := rest',
        trace := trace v @ concat (map (pin_events W) wrong) @ [EvStatus StatusTooManyAttempts]\<rparr>) \<and>
    dc_out (concat (map (pin_events W) wrong)) = map (pin_msg W) wrong"
proof (intro conjI)
  define evs where "evs r = [EvText (to_json_string W enc_rtc_pin_receiving_response
      (case r of VerPinRequired \<Rightarrow> PinRecvRequired | VerTooManyAttempts \<Rightarrow> PinRecvTooManyAttempts))]" for r
  have "receiver_notice W r v = (Ok (), v\<lparr>trace := trace v @ evs r\<rparr>)" if "healthy v" for r v
    using that by (simp add: receiver_notice_def evs_def task)
  from verify_pin_loop_rejects [OF assms(1) this, where cfg = cfg and ps = wrong and rest = rest and n = False
      and remote_pin = "[]" and pin_try = 0 and w = "w\<lparr>trace := trace w @ [EvStatus StatusPinRequired]\<rparr>"]
  show "verify_pin W cfg False (receiver_notice W) w =
      (Err (Msg ''Too many requests''), w\<lparr>rx := rest, trace := trace w @ EvStatus StatusPinRequired #
        refusal W (length wrong) @ [EvDrained, EvStatus StatusTooManyAttempts]\<rparr>)"
    using assms(2-6) by (simp add: verify_pin_def task evs_def refusal_def concat_replicate_single)
next
  obtain ps p where wrong: "wrong = ps @ [p]" using assms(8) by (metis rev_exhaust)
  let ?req = "json_msg W enc_rtc_pin_receiving_response PinRecvRequired"
  let ?many = "json_msg W enc_rtc_pin_receiving_response PinRecvTooManyAttempts"
  have "dc_out (map (\<lambda>m. EvText (to_json_string W enc_rtc_pin_receiving_response m)) (replicate n PinRecvRequired)) =
      concat (replicate n [?req])" for n
    by (induction n) (simp_all add: json_msg_def)
  then have "rx v = concat (replicate (length ps) [?req]) @ [?many] @ rest'"
    using assms(10) wrong by (simp add: refusal_def json_msg_def)
  then have "handle_pin_loop W False (parse_receiving_response W) (map PinGiven (ps @ [p]) @ others) v =
      (Err (Msg ''Too many requests''), v\<lparr>rx := rest',
        trace := trace v @ concat (map (pin_events W) (ps @ [p])) @ [EvStatus StatusTooManyAttempts]\<rparr>)"
    using assms(1,7)
    by (intro handle_pin_loop_refused [where retry = "[?req]" and refuse = "[?many]"
        and d = "to_json_string W enc_rtc_pin_receiving_response PinRecvRequired"
        and d' = "to_json_string W enc_rtc_pin_receiving_response PinRecvTooManyAttempts"])
      (simp_all add: receive_pin_response_def task)
  then show "handle_pin W False (parse_receiving_response W) v =
      (Err (Msg ''Too many requests''), v\<lparr>rx := rest',
        trace := trace v @ concat (map (pin_events W) wrong) @ [EvStatus StatusTooManyAttempts]\<rparr>)"
    using assms(9) wrong by (simp add: handle_pin_def)
  show "dc_out (concat (map (pin_events W) wrong)) = map (pin_msg W) wrong" by (rule dc_out_pin_events)
qed

lemma pin_rejected_witness:
  "fst (verify_pin ref_wire demo_pin False (receiver_notice ref_wire)
      (demo_world\<lparr>rx := map (pin_msg ref_wire) [''1'', ''2''] @ map (pin_msg ref_wire) [''34'']\<rparr>)) =
    Err (Msg ''Too many requests'') \<and>
   fst (handle_pin ref_wire False (parse_receiving_response ref_wire)
      (demo_world\<lparr>rx := dc_out (refusal ref_wire (Suc (Suc 0))), pin_answers := map PinGiven [''1'', ''2'']\<rparr>)) =
    Err (Msg ''Too many requests'')"
  using pin_rejected [OF ref_wire_format, of "demo_world\<lparr>rx := map (pin_msg ref_wire) [''1'', ''2''] @
      map (pin_msg ref_wire) [''34'']\<rparr>" demo_pin "[''1'', ''2'']" "map (pin_msg ref_wire) [''34'']"
      "demo_world\<lparr>rx := dc_out (refusal ref_wire (Suc (Suc 0))), pin_answers := map PinGiven [''1'', ''2'']\<rparr>" "[]" "[]"]
  by (simp add: demo_pin_def)

subsection \<open>Chunks\<close>

text \<open>
  C18: the two nested loops that cut a stream of blocks of any lengths into
  chunks do to any callback, failing or not, what calling it on each chunk of the
  concatenated stream does: how the stream was split into blocks makes no difference.
\<close>

lemma chunks_reference:
  "process_in_chunks callback blocks w = run_each callback (chunk_list CHUNK_SIZE (concat blocks)) w"
  by (rule process_in_chunks_run)

text \<open>
  C19: on a channel that works, a stream leaves as binary messages whose
  concatenation is the stream; none is empty, none is longer than 16 KiB, all but the last
  have exactly this size, and their number is the length divided by it, rounded up.
\<close>

lemma chunk_sizes:
  assumes "healthy w" "process_in_chunks send_bin blocks w = (r, w')"
  shows "\<exists>cs. r = Ok () \<and> trace w' = trace w @ map EvBin cs \<and> concat cs = concat blocks \<and>
    (\<forall>c \<in> set cs. c \<noteq> [] \<and> length c \<le> 16384) \<and> (\<forall>c \<in> set (butlast cs). length c = 16384) \<and>
    length cs = (length (concat blocks) + 16383) div 16384"
proof -
  let ?cs = "chunk_list CHUNK_SIZE (concat blocks)"
  have "r = Ok ()" "trace w' = trace w @ map EvBin ?cs"
    using assms by (auto simp: process_send_bin)
  moreover have "length ?cs = (length (concat blocks) + 16383) div 16384"
    by (simp add: length_chunk_list CHUNK_SIZE_def)
  moreover have "c \<noteq> [] \<and> length c \<le> 16384" if "c \<in> set ?cs" for c
    using chunk_list_nonempty [OF that] by (simp add: CHUNK_SIZE_def)
  moreover have "length c = 16384" if "c \<in> set (butlast ?cs)" for c
    using chunk_list_full [OF that] by (simp add: CHUNK_SIZE_def)
  ultimately show ?thesis by (intro exI [of _ ?cs]) simp
qed

lemma chunk_sizes_witness:
  "\<exists>cs. trace (snd (process_in_chunks send_bin (replicate 20000 ''ab'') demo_world)) = map EvBin cs \<and> length cs = 3"
  using chunk_sizes [OF demo_world_healthy prod.collapse [symmetric], of "replicate 20000 ''ab''"]
  by (auto simp: length_concat sum_list_replicate)

text \<open>
  C20: a string sent in chunks and closed by the delimiter arrives as it was
  sent, whatever the string is (the empty one and a single zero included) and whatever
  follows it: the reader returns it and leaves exactly the rest.
\<close>

lemma string_roundtrip:
  assumes "healthy ws" "trace ws = []"
    and "tbind (send_string_in_chunks send_bin s) (\<lambda>_. send_delimiter) ws = (r, ws')"
    and "rx wr = dc_out (trace ws') @ rest"
  shows "receive_string_from_chunks wr = (Ok s, wr\<lparr>rx := rest\<rparr>)"
  using assms by (intro receive_chunked) (auto simp: chunk_evs_run)

lemma string_roundtrip_witness:
  "\<exists>ws'. tbind (send_string_in_chunks send_bin ''0'') (\<lambda>_. send_delimiter) demo_world = (Ok (), ws') \<and>
    receive_string_from_chunks (demo_world\<lparr>rx := dc_out (trace ws') @ [text_msg ''next'']\<rparr>) =
      (Ok ''0'', demo_world\<lparr>rx := [text_msg ''next'']\<rparr>)"
  using string_roundtrip [OF demo_world_healthy demo_sel(2) chunk_evs_run [OF demo_world_healthy], of
      "demo_world\<lparr>rx := dc_out (chunk_evs ''0'') @ [text_msg ''next'']\<rparr>" "''0''" "[text_msg ''next'']"]
  by (simp add: chunk_evs_run)

subsection \<open>Negotiation\<close>

definition demo_nego :: nego_world where
  "demo_nego =
     \<lparr>lib_ok = (\<lambda>_. True), local_sdp = Some ''v=0'', new_session_id = ''s'', answer = Some (encode_sdp ref_wire ref_zlib ''v=1''),
      sdp_status_open = True, finished_status_open = False, session_end = PeerDisconnected, nego_calls = []\<rparr>"

text \<open>
  C31: an offer that succeeds has gone through all steps in order: one
  peer connection with one reliable channel of the agreed label, an offer of its own
  gathered description to the target under a fresh session id, the wait for the answer of
  this session, the remote description taken from exactly that answer; at the end the
  channel and the connection are closed. It succeeds only if the transfer task did not
  fail, or the peer disconnected first.
\<close>

lemma offer_negotiation:
  assumes "send_offer W Z stun target w = (Ok (), w')" "nego_calls w = []"
  shows "\<exists>sdp remote remote_sdp.
    local_sdp w = Some sdp \<and> answer w = Some remote \<and> decode_sdp W Z remote = Inr remote_sdp \<and>
    (session_end w = PeerDisconnected \<or> (\<exists>x. session_end w = TaskEnded (Ok x))) \<and>
    nego_calls w' = [NPeer stun, NDataChannel ''data'' True, NCall CreateOffer, NCall SetLocalDescription,
       NOffer (new_session_id w) target (encode_sdp W Z sdp), NOnAnswer (new_session_id w), NStatus SdpExchanged,
       NCall ParseDescription, NRemote remote_sdp] @ (if finished_status_open w then [NStatus Finished] else []) @
       [NCloseChannel, NClose]"
  using send_offer_Ok [OF assms] unfolding CHANNEL_LABEL_def by metis

lemma demo_nego_smooth: "smooth demo_nego" "local_sdp demo_nego = Some ''v=0''"
  "answer demo_nego = Some (encode_sdp ref_wire ref_zlib ''v=1'')"
  by (simp_all add: smooth_def demo_nego_def)

lemma demo_decode: "decode_sdp ref_wire ref_zlib (encode_sdp ref_wire ref_zlib ''v=1'') = Inr ''v=1''"
  by (rule decode_encode_sdp [OF ref_wire_format ref_zlib_library]) code_simp

lemmas demo_offer_run = send_offer_smooth [OF demo_nego_smooth demo_decode]

lemmas demo_answer_run = accept_offer_smooth [OF demo_nego_smooth(1,2) demo_decode]

lemma offer_negotiation_witness:
  "\<exists>w' remote_sdp. send_offer ref_wire ref_zlib [] 7 demo_nego = (Ok (), w') \<and> NRemote remote_sdp \<in> set (nego_calls w') \<and>
    last (nego_calls w') = NClose"
proof -
  obtain w' where run: "send_offer ref_wire ref_zlib [] 7 demo_nego = (Ok (), w')" using demo_offer_run by blast
  from offer_negotiation [OF this] run show ?thesis by (auto simp: demo_nego_def)
qed

text \<open>
  C32: the accepting side, likewise: the remote description comes from the
  offer, the answer carries its own description to the peer of the offer under the session
  id of the offer, and the connection is closed at the end.
\<close>

lemma answer_negotiation:
  assumes "accept_offer W Z stun sid peer offer w = (Ok (), w')" "nego_calls w = []"
  shows "\<exists>sdp remote_sdp. local_sdp w = Some sdp \<and> decode_sdp W Z offer = Inr remote_sdp \<and>
    (session_end w = PeerDisconnected \<or> (\<exists>x. session_end w = TaskEnded (Ok x))) \<and>
    nego_calls w' = [NPeer stun, NCall ParseDescription, NRemote remote_sdp, NCall CreateAnswer, NCall SetLocalDescription,
       NAnswer sid peer (encode_sdp W Z sdp), NStatus SdpExchanged] @
       (if finished_status_open w then [NStatus Finished] else []) @ [NClose]"
  using accept_offer_Ok [OF assms] by metis

lemma answer_negotiation_witness:
  "\<exists>w' sdp. accept_offer ref_wire ref_zlib [] ''s'' 7 (encode_sdp ref_wire ref_zlib ''v=1'') demo_nego = (Ok (), w') \<and>
    NAnswer ''s'' 7 sdp \<in> set (nego_calls w') \<and> last (nego_calls w') = NClose"
proof -
  obtain w' where run: "accept_offer ref_wire ref_zlib [] ''s'' 7 (encode_sdp ref_wire ref_zlib ''v=1'') demo_nego = (Ok (), w')"
    using demo_answer_run by blast
  from answer_negotiation [OF this] run show ?thesis by (auto simp: demo_nego_def)
qed

subsection \<open>The application\<close>


definition demo_ready :: nego_world where
  "demo_ready = demo_nego\<lparr>finished_status_open := True\<rparr>"

definition demo_offer :: ws_server_sdp_message where
  "demo_offer =
     \<lparr>sm_peer = \<lparr>ci_id = 7, ci_alias = ''a'', ci_version = ''2.3'', ci_device_model = None, ci_device_type = None, ci_token = ''t''\<rparr>,
      sm_session_id = ''s'', sm_sdp = encode_sdp ref_wire ref_zlib ''v=1''\<rparr>"

lemma demo_ready_facts: "ready demo_ready" "local_sdp demo_ready = Some ''v=0''"
  "answer demo_ready = Some (encode_sdp ref_wire ref_zlib ''v=1'')" "sm_sdp demo_offer = encode_sdp ref_wire ref_zlib ''v=1''"
  by (simp_all add: ready_def demo_ready_def demo_nego_def demo_offer_def)



subsection \<open>The demonstration program\<close>

text \<open>
  C33: the program sends its file. Run by two peers over channels that work, the
  sending half and the receiving half answer each other's PIN challenge with the third try and
  end without an error, each on what the other has sent; afterwards the receiver's disk has
  at the path of the file exactly the content that the sender's disk had, and is otherwise
  unchanged, whatever sizes the reads of the file had.
\<close>

lemma demo_transfer:
  assumes "wire_format W" "signature_scheme C" "validate_nonce (generate_nonce fa)" "validate_nonce (generate_nonce fb)"
    and "healthy ws" "healthy wr" "trace ws = []" "trace wr = []"
    and "disk SEND_PATH = Some content" "None \<notin> set reads" "False \<notin> set sends"
    and "ready na" "local_sdp na = Some sa" "answer na = Some remote" "decode_sdp W Z remote = Inr sb"
    and "ready nb" "local_sdp nb = Some sb'" "decode_sdp W Z (sm_sdp off) = Inr sa'" "CHANNEL_LABEL \<in> set labels"
  shows "\<exists>to_sender to_receiver na' nb' ws' wr'.
    send_handler W Z C fa ka peer disk reads sends True na (ws\<lparr>rx := to_sender\<rparr>) = (Ok (), na', ws') \<and>
    receive_handler W Z C fb nt kb off (Suc good) fault labels nb (wr\<lparr>rx := to_receiver\<rparr>) target =
      ((Ok (), nb', wr'), target(receive_path (test_file 100) \<mapsto> content)) \<and>
    dc_out (trace ws') = to_receiver \<and> dc_out (trace wr') = to_sender"
  by (rule demo_transfer_runs [where disk = disk and fa = fa and fb = fb, OF assms])

lemma demo_transfer_witness:
  "\<exists>w n w' d. receive_handler ref_wire ref_zlib ref_crypto (\<lambda>b. map (\<lambda>_. CHR ''n'') b) (\<lambda>n. ''t'') ''B'' demo_offer 1 (True, [])
      [''data''] demo_ready w Map.empty = ((Ok (), n, w'), d) \<and>
    d ''/Users/user/Downloads/test/test.mp4'' = Some ''abc''"
proof -
  let ?f = "\<lambda>b. map (\<lambda>_. CHR ''n'') b :: bytes"
  let ?disk = "[SEND_PATH \<mapsto> ''abc'']"
  have nonce: "validate_nonce (generate_nonce ?f)" by (simp add: generate_nonce_def validate_nonce_def)
  have label: "CHANNEL_LABEL \<in> set [''data'']" by (simp add: CHANNEL_LABEL_def)
  have dec: "decode_sdp ref_wire ref_zlib (sm_sdp demo_offer) = Inr ''v=1''"
    unfolding demo_ready_facts(4) by (rule demo_decode)
  have read: "?disk SEND_PATH = Some ''abc''" "None \<notin> set [Some (2 :: nat)]" "False \<notin> set []" by simp_all
  have path: "receive_path (test_file 100) = ''/Users/user/Downloads/test/test.mp4''"
    by (simp add: receive_path_def test_file_def)
  from demo_transfer [where disk = ?disk and fa = ?f and fb = ?f, OF ref_wire_format ref_signature_scheme nonce nonce
      demo_world_healthy demo_world_healthy demo_sel(2) demo_sel(2) read demo_ready_facts(1-3) demo_decode
      demo_ready_facts(1,2) dec label, where nt = "\<lambda>n. ''t''" and ka = "''A''" and kb = "''B''" and good = 0
        and fault = "(True, [])" and target = Map.empty and peer = "sm_peer demo_offer"]
  obtain w n w' where "receive_handler ref_wire ref_zlib ref_crypto ?f (\<lambda>n. ''t'') ''B'' demo_offer (Suc 0) (True, [])
      [''data''] demo_ready w Map.empty = ((Ok (), n, w'), [''/Users/user/Downloads/test/test.mp4'' \<mapsto> ''abc''])"
    unfolding path by blast
  then show ?thesis by (intro exI conjI) (simp only: One_nat_def, simp)
qed

end
