(* ===== verification/Ws_Server.thy ===== *)
theory Ws_Server
  imports Signaling_Messages Ip_Addr
begin

section \<open>The signaling server's handlers (server/src)\<close>

text \<open>
  The state is the table of connected clients per IP group and the request counters
  (\<open>config/state.rs\<close>); the operations are those of \<open>controller/ws_controller.rs\<close>. Both
  tables are behind mutexes: each definition below that takes and returns a table is
  one critical section. A \<open>tx\<close> is the sending half of a client's channel; its type is
  a parameter. A handler returns the messages it sends, in order, as (tx, message).
\<close>

subsection \<open>Errors (config/error.rs)\<close>

record app_error =
  ae_status :: u16
  ae_message :: "string option"
  ae_error :: "string option"

definition app_error_status :: "u16 \<Rightarrow> string option \<Rightarrow> app_error" where
  "app_error_status status msg = \<lparr>ae_status = status, ae_message = msg, ae_error = None\<rparr>"

definition app_error_from :: "string \<Rightarrow> app_error" where
  "app_error_from err = \<lparr>ae_status = 500, ae_message = None, ae_error = Some err\<rparr>"

text \<open>\<open>into_response\<close>: the status and the body (none: just the status), and whether it is logged.\<close>

definition app_error_response :: "app_error \<Rightarrow> u16 \<times> string option" where
  "app_error_response e = (ae_status e, ae_message e)"

definition app_error_logged :: "app_error \<Rightarrow> (string \<times> string) option" where
  "app_error_logged e =
     (if 500 \<le> ae_status e then
        Some (case ae_message e of Some m \<Rightarrow> m | None \<Rightarrow> ''(no message)'',
              case ae_error e of Some m \<Rightarrow> m | None \<Rightarrow> ''(no error)'')
      else None)"

abbreviation "BAD_REQUEST \<equiv> (400 :: u16)"
abbreviation "TOO_MANY_REQUESTS \<equiv> (429 :: u16)"

subsection \<open>Limits from the environment\<close>

text \<open>
  \<open>parse::<usize>()\<close> and \<open>parse::<u32>()\<close>: an optional plus sign and decimal digits
  that fit the width. The limits are read once; a value that does not parse panics
  (\<open>None\<close>).
\<close>

definition parse_unsigned :: "nat \<Rightarrow> string \<Rightarrow> nat option" where
  "parse_unsigned bits s =
     (let ds = (case s of CHR ''+'' # r \<Rightarrow> r | _ \<Rightarrow> s); n = read_radix 10 ds in
      if ds = [] \<or> \<not> list_all (digit_in 10) ds \<or> 2 ^ bits \<le> n then None else Some n)"

definition max_connections_of :: "string option \<Rightarrow> u64 option" where
  "max_connections_of env =
     map_option of_nat (parse_unsigned 64 (case env of None \<Rightarrow> ''10'' | Some s \<Rightarrow> s))"

definition max_requests_of :: "string option \<Rightarrow> u32 option" where
  "max_requests_of env =
     map_option of_nat (parse_unsigned 32 (case env of None \<Rightarrow> ''1000'' | Some s \<Rightarrow> s))"

record limits =
  MAX_CONNECTIONS :: u64
  MAX_REQUESTS :: u32

subsection \<open>State (config/state.rs)\<close>

record 'tx client_state =
  cs_client :: client_info_without_id
  cs_tx :: 'tx

type_synonym 'tx local_map = "(uuid, 'tx client_state) hashmap"
type_synonym 'tx tx_map = "(string, 'tx local_map) hashmap"
type_synonym count_map = "(string, u32) hashmap"

record 'tx app_state =
  as_tx_map :: "'tx tx_map"
  as_request_count_map :: count_map

definition app_state_new :: "'tx app_state" where
  "app_state_new = \<lparr>as_tx_map = hm_empty, as_request_count_map = hm_empty\<rparr>"

text \<open>The hourly job of \<open>config/scheduler.rs\<close>.\<close>

definition clear_request_counts :: "count_map \<Rightarrow> count_map" where
  "clear_request_counts m = hm_empty"

subsection \<open>The handshake request\<close>

record ws_request =
  wq_d :: string
  wq_forwarded :: "string option"
  wq_addr :: ip_addr

text \<open>
  \<open>x-forwarded-for\<close>, when present and visible ASCII: its last component, trimmed, if it
  parses as an address.
\<close>

definition forwarded_ip :: "string option \<Rightarrow> ip_addr option" where
  "forwarded_ip hdr = do {
     v \<leftarrow> hdr;
     parse_ip (trim (last (split_on CHR '','' v)))
   }"

definition client_ip :: "ws_request \<Rightarrow> ip_addr" where
  "client_ip rq = (case forwarded_ip (wq_forwarded rq) of Some ip \<Rightarrow> ip | None \<Rightarrow> wq_addr rq)"

definition peer_info_of :: "wire \<Rightarrow> uuid \<Rightarrow> string \<Rightarrow> app_error + client_info" where
  "peer_info_of W new_id d =
     rbind (ok_or (app_error_status BAD_REQUEST None) (b64_decode W d)) (\<lambda>decoded.
     rbind (ok_or (app_error_status BAD_REQUEST None) (from_utf8 decoded)) (\<lambda>s.
     rbind (ok_or (app_error_status BAD_REQUEST None)
        (from_json_slice W dec_client_info_without_id s)) (\<lambda>dto.
     Inr (client_info_from dto new_id))))"

definition ws_handler :: "wire \<Rightarrow> uuid \<Rightarrow> ws_request \<Rightarrow> app_error + (string \<times> client_info)" where
  "ws_handler W new_id rq =
     rbind (peer_info_of W new_id (wq_d rq)) (\<lambda>peer.
     Inr (get_ip_group (client_ip rq), peer))"

subsection \<open>Rate limiting\<close>

definition protect_ddos_request_count ::
  "limits \<Rightarrow> count_map \<Rightarrow> string \<Rightarrow> count_map \<times> (app_error + unit)" where
  "protect_ddos_request_count L counts g =
     (let (counts, count) = hm_or_insert g 0 counts in
      if MAX_REQUESTS L \<le> count then (counts, Inl (app_error_status TOO_MANY_REQUESTS None))
      else (hm_insert g (count + 1) counts, Inr ()))"

subsection \<open>Connecting\<close>

text \<open>
  The first critical section of \<open>handle_socket\<close>: the client enters its group unless a
  limit is reached. \<open>Some (peers_tx, peers)\<close>: accepted, with the other members.
\<close>

definition connect_section ::
  "limits \<Rightarrow> 'tx app_state \<Rightarrow> string \<Rightarrow> client_info \<Rightarrow> 'tx \<Rightarrow>
     'tx app_state \<times> ('tx list \<times> client_info list) option" where
  "connect_section L s g peer tx =
     (let (txs, local) = hm_or_insert g hm_empty (as_tx_map s) in
      if unat (MAX_CONNECTIONS L) \<le> hm_len local then (s\<lparr>as_tx_map := txs\<rparr>, None)
      else
        (let (counts, r) = protect_ddos_request_count L (as_request_count_map s) g in
         if \<not> is_ok r then (s\<lparr>as_tx_map := txs, as_request_count_map := counts\<rparr>, None)
         else
           (let peers_tx = map cs_tx (hm_values local);
                peers = map (\<lambda>(k, v). client_info_from (cs_client v) k) (hm_entries local);
                local' = hm_insert (ci_id peer) \<lparr>cs_client = without_id peer, cs_tx = tx\<rparr> local in
            (s\<lparr>as_tx_map := hm_insert g local' txs, as_request_count_map := counts\<rparr>,
             Some (peers_tx, peers)))))"

text \<open>What it sends: to the others, then to the client itself; refused: one text, then close.\<close>

definition announce ::
  "client_info \<Rightarrow> 'tx \<Rightarrow> 'tx list \<times> client_info list \<Rightarrow> ('tx \<times> ws_server_message) list" where
  "announce peer tx ps = map (\<lambda>t. (t, SJoin peer)) (fst ps) @ [(tx, SHello peer (snd ps))]"

definition limit_reached_frames :: "string list" where
  "limit_reached_frames = [''Limit reached'']"

subsection \<open>Messages of a client\<close>

definition send_update_to_other_peers_with_lock ::
  "'tx tx_map \<Rightarrow> string \<Rightarrow> uuid \<Rightarrow> client_info_without_id \<Rightarrow>
     'tx tx_map \<times> ('tx \<times> ws_server_message) list" where
  "send_update_to_other_peers_with_lock txs g peer_id info =
     (case hm_get txs g of
        None \<Rightarrow> (txs, [])
      | Some local \<Rightarrow>
          (case hm_get local peer_id of
             None \<Rightarrow> (txs, [])
           | Some st \<Rightarrow>
               (let local' = hm_insert peer_id (st\<lparr>cs_client := info\<rparr>) local;
                    peers_tx = map (\<lambda>(_, v). cs_tx v)
                      (filter (\<lambda>(k, _). k \<noteq> peer_id) (hm_entries local')) in
                (hm_insert g local' txs,
                 map (\<lambda>t. (t, SUpdate (client_info_from info peer_id))) peers_tx))))"

datatype sdp_wrapper = WOffer ws_client_sdp_message | WAnswer ws_client_sdp_message

definition sdp_target :: "sdp_wrapper \<Rightarrow> uuid" where
  "sdp_target m = (case m of WOffer i \<Rightarrow> cm_target i | WAnswer i \<Rightarrow> cm_target i)"

definition sdp_message_for :: "client_info \<Rightarrow> sdp_wrapper \<Rightarrow> ws_server_message" where
  "sdp_message_for origin m =
     (case m of
        WOffer i \<Rightarrow> SOffer \<lparr>sm_peer = origin, sm_session_id = cm_session_id i, sm_sdp = cm_sdp i\<rparr>
      | WAnswer i \<Rightarrow> SAnswer \<lparr>sm_peer = origin, sm_session_id = cm_session_id i, sm_sdp = cm_sdp i\<rparr>)"

definition send_to_peer_with_lock ::
  "'tx tx_map \<Rightarrow> string \<Rightarrow> client_info \<Rightarrow> sdp_wrapper \<Rightarrow> ('tx \<times> ws_server_message) list" where
  "send_to_peer_with_lock txs g origin m =
     (case Option.bind (hm_get txs g) (\<lambda>local. hm_get local (sdp_target m)) of
        Some st \<Rightarrow> [(cs_tx st, sdp_message_for origin m)]
      | None \<Rightarrow> [])"

text \<open>
  \<open>recv_task\<close>: what is not text or does not parse is skipped and not counted. A message
  that is read is counted in one critical section and handled in another. \<open>peer\<close> is the
  description the client connected with.
\<close>

datatype ws_input = WsText string | WsOther

definition read_client_message :: "wire \<Rightarrow> ws_input \<Rightarrow> ws_client_message option" where
  "read_client_message W inp =
     (case inp of WsOther \<Rightarrow> None | WsText text \<Rightarrow> from_json_slice W (dec_ws_client_message W) text)"

definition dispatch_client_message ::
  "'tx tx_map \<Rightarrow> string \<Rightarrow> client_info \<Rightarrow> ws_client_message \<Rightarrow> 'tx tx_map \<times> ('tx \<times> ws_server_message) list" where
  "dispatch_client_message txs g peer msg =
     (case msg of
        CUpdate info \<Rightarrow> send_update_to_other_peers_with_lock txs g (ci_id peer) info
      | COffer sdp \<Rightarrow> (txs, send_to_peer_with_lock txs g peer (WOffer sdp))
      | CAnswer sdp \<Rightarrow> (txs, send_to_peer_with_lock txs g peer (WAnswer sdp)))"

text \<open>
  The body of the loop for one message when nothing comes between its sections. Over the
  limit, the client gets an error and the task ends (the \<open>bool\<close>: whether it goes on).
\<close>

definition handle_client_message ::
  "limits \<Rightarrow> 'tx app_state \<Rightarrow> string \<Rightarrow> client_info \<Rightarrow> 'tx \<Rightarrow> ws_client_message \<Rightarrow>
     'tx app_state \<times> ('tx \<times> ws_server_message) list \<times> bool" where
  "handle_client_message L s g peer tx msg =
     (case protect_ddos_request_count L (as_request_count_map s) g of
        (counts, Inl _) \<Rightarrow> (s\<lparr>as_request_count_map := counts\<rparr>, [(tx, SError TOO_MANY_REQUESTS)], False)
      | (counts, Inr _) \<Rightarrow>
          (case dispatch_client_message (as_tx_map s) g peer msg of
             (txs, out) \<Rightarrow> (s\<lparr>as_request_count_map := counts, as_tx_map := txs\<rparr>, out, True)))"

text \<open>\<open>send_task\<close>: each message of the client's channel, serialised, until a write fails.\<close>

fun send_task :: "wire \<Rightarrow> (ws_server_message \<times> bool) list \<Rightarrow> string list" where
  "send_task W [] = []"
| "send_task W ((m, ok) # ms) =
     (if ok then to_json_string W (enc_ws_server_message W) m # send_task W ms else [])"

subsection \<open>Disconnecting\<close>

text \<open>The last critical section of \<open>handle_socket\<close>, and the farewell it sends.\<close>

definition disconnect_section :: "'tx tx_map \<Rightarrow> string \<Rightarrow> uuid \<Rightarrow> 'tx tx_map \<times> 'tx list" where
  "disconnect_section txs g peer_id =
     (case hm_get txs g of
        None \<Rightarrow> (txs, [])
      | Some local \<Rightarrow>
          (let local' = hm_remove peer_id local in
           if hm_len local' = 0 then (hm_remove g txs, [])
           else (hm_insert g local' txs, map cs_tx (hm_values local'))))"

definition farewell :: "uuid \<Rightarrow> 'tx list \<Rightarrow> ('tx \<times> ws_server_message) list" where
  "farewell peer_id ts = map (\<lambda>t. (t, SLeft peer_id)) ts"

subsection \<open>Reading the tables\<close>

definition member :: "'tx tx_map \<Rightarrow> string \<Rightarrow> uuid \<Rightarrow> 'tx client_state option" where
  "member txs g i = Option.bind (hm_get txs g) (\<lambda>local. hm_get local i)"

definition group_size :: "'tx tx_map \<Rightarrow> string \<Rightarrow> nat" where
  "group_size txs g = (case hm_get txs g of None \<Rightarrow> 0 | Some local \<Rightarrow> hm_len local)"

definition request_count :: "count_map \<Rightarrow> string \<Rightarrow> u32" where
  "request_count counts g = (case hm_get counts g of None \<Rightarrow> 0 | Some c \<Rightarrow> c)"

definition txs_wf :: "'tx tx_map \<Rightarrow> bool" where
  "txs_wf txs \<longleftrightarrow> hm_wf txs \<and> (\<forall>g local. hm_get txs g = Some local \<longrightarrow> hm_wf local)"

definition app_wf :: "'tx app_state \<Rightarrow> bool" where
  "app_wf s \<longleftrightarrow> txs_wf (as_tx_map s) \<and> hm_wf (as_request_count_map s)"

definition txs_of :: "'tx tx_map \<Rightarrow> string \<Rightarrow> 'tx set" where
  "txs_of txs g = {cs_tx st | i st. member txs g i = Some st}"

subsection \<open>Lemmas: request counting\<close>

lemma protect_ddos_cases:
  assumes "hm_wf counts"
  shows "hm_wf (fst (protect_ddos_request_count L counts g))"
    and "request_count (fst (protect_ddos_request_count L counts g)) h =
      (if h = g \<and> request_count counts g < MAX_REQUESTS L then request_count counts g + 1
       else request_count counts h)"
    and "is_ok (snd (protect_ddos_request_count L counts g)) \<longleftrightarrow> request_count counts g < MAX_REQUESTS L"
  using assms
  by (auto simp: protect_ddos_request_count_def hm_or_insert_def request_count_def hm Let_def not_le
      word_gt_0 split: option.splits)

subsection \<open>Lemmas: the table of clients\<close>

lemma txs_wf_empty: "txs_wf hm_empty"
  by (simp add: txs_wf_def hm)

lemma txs_wf_insert: "txs_wf txs \<Longrightarrow> hm_wf local \<Longrightarrow> txs_wf (hm_insert g local txs)"
  by (auto simp: txs_wf_def hm split: if_splits)

lemma txs_wf_remove: "txs_wf txs \<Longrightarrow> txs_wf (hm_remove g txs)"
  by (auto simp: txs_wf_def hm split: if_splits)

lemma txs_wf_local: "txs_wf txs \<Longrightarrow> hm_get txs g = Some local \<Longrightarrow> hm_wf local"
  by (simp add: txs_wf_def)

lemma member_insert:
  "member (hm_insert g local txs) h i = (if h = g then hm_get local i else member txs h i)"
  by (simp add: member_def hm)

lemma member_remove:
  "hm_wf txs \<Longrightarrow> member (hm_remove g txs) h i = (if h = g then None else member txs h i)"
  by (simp add: member_def hm)

lemma group_size_insert:
  "group_size (hm_insert g local txs) h = (if h = g then hm_len local else group_size txs h)"
  by (simp add: group_size_def hm)

lemma group_size_remove:
  "hm_wf txs \<Longrightarrow> group_size (hm_remove g txs) h = (if h = g then 0 else group_size txs h)"
  by (simp add: group_size_def hm)

text \<open>Entering the group: the table after \<open>entry(..).or_insert_with(HashMap::new)\<close>.\<close>

lemma enter_group:
  assumes "txs_wf txs" "hm_or_insert g hm_empty txs = (txs', local)"
  shows "txs_wf txs'" "hm_wf local" "hm_get txs' g = Some local"
    "member txs' h i = member txs h i" "group_size txs' h = group_size txs h"
    "hm_get local i = member txs g i" "hm_len local = group_size txs g"
  using assms
  by (auto simp: hm_or_insert_def txs_wf_insert txs_wf_local member_insert group_size_insert
      member_def group_size_def hm split: option.splits if_splits)

lemma values_local:
  assumes "hm_wf local"
  shows "cs_tx ` set (hm_values local) = {cs_tx st | i st. hm_get local i = Some st}"
  using hm.entries_get [OF assms] by (force simp: hm_values_def image_iff)

subsection \<open>Lemmas: the handlers\<close>

lemma connect_section_rejected:
  assumes "app_wf s" "connect_section L s g peer tx = (s', None)"
  shows "app_wf s'" "member (as_tx_map s') h i = member (as_tx_map s) h i"
    "group_size (as_tx_map s') h = group_size (as_tx_map s) h"
    "unat (MAX_CONNECTIONS L) \<le> group_size (as_tx_map s) g \<or>
     MAX_REQUESTS L \<le> request_count (as_request_count_map s) g"
    "request_count (as_request_count_map s') h = request_count (as_request_count_map s) h"
proof -
  obtain txs local where e: "hm_or_insert g hm_empty (as_tx_map s) = (txs, local)"
    by (cases "hm_or_insert g hm_empty (as_tx_map s)")
  obtain counts r where p: "protect_ddos_request_count L (as_request_count_map s) g = (counts, r)"
    by (cases "protect_ddos_request_count L (as_request_count_map s) g")
  from assms(1) have wf: "txs_wf (as_tx_map s)" "hm_wf (as_request_count_map s)"
    by (simp_all add: app_wf_def)
  note g = enter_group [OF wf(1) e]
  note c = protect_ddos_cases [OF wf(2), of L g, unfolded p fst_conv snd_conv]
  from assms(2) consider
      (full) "unat (MAX_CONNECTIONS L) \<le> hm_len local" "s' = s\<lparr>as_tx_map := txs\<rparr>"
    | (limited) "\<not> is_ok r" "s' = s\<lparr>as_tx_map := txs, as_request_count_map := counts\<rparr>"
    by (auto simp: connect_section_def e p Let_def split: if_splits)
  then have "app_wf s' \<and> member (as_tx_map s') h i = member (as_tx_map s) h i
    \<and> group_size (as_tx_map s') h = group_size (as_tx_map s) h
    \<and> (unat (MAX_CONNECTIONS L) \<le> group_size (as_tx_map s) g \<or>
       MAX_REQUESTS L \<le> request_count (as_request_count_map s) g)
    \<and> request_count (as_request_count_map s') h = request_count (as_request_count_map s) h"
  proof cases
    case full
    then show ?thesis using g wf by (simp add: app_wf_def)
  next
    case limited
    then show ?thesis using g c wf by (auto simp: app_wf_def not_less)
  qed
  then show "app_wf s'" "member (as_tx_map s') h i = member (as_tx_map s) h i"
    "group_size (as_tx_map s') h = group_size (as_tx_map s) h"
    "unat (MAX_CONNECTIONS L) \<le> group_size (as_tx_map s) g \<or>
     MAX_REQUESTS L \<le> request_count (as_request_count_map s) g"
    "request_count (as_request_count_map s') h = request_count (as_request_count_map s) h"
    by simp_all
qed

lemma connect_section_accepted:
  assumes "app_wf s" "connect_section L s g peer tx = (s', Some (ts, ps))"
  shows "app_wf s'"
    "member (as_tx_map s') h i =
       (if h = g \<and> i = ci_id peer then Some \<lparr>cs_client = without_id peer, cs_tx = tx\<rparr>
        else member (as_tx_map s) h i)"
    "group_size (as_tx_map s) g < unat (MAX_CONNECTIONS L)"
    "request_count (as_request_count_map s) g < MAX_REQUESTS L"
    "request_count (as_request_count_map s') h =
       request_count (as_request_count_map s) h + (if h = g then 1 else 0)"
    "group_size (as_tx_map s') h =
       (if h = g then (if member (as_tx_map s) g (ci_id peer) = None
          then Suc (group_size (as_tx_map s) g) else group_size (as_tx_map s) g)
        else group_size (as_tx_map s) h)"
    "set ts = txs_of (as_tx_map s) g"
    "set ps = {client_info_from (cs_client st) j | j st. member (as_tx_map s) g j = Some st}"
    "length ps = group_size (as_tx_map s) g" "length ts = group_size (as_tx_map s) g"
proof -
  obtain txs local where e: "hm_or_insert g hm_empty (as_tx_map s) = (txs, local)"
    by (cases "hm_or_insert g hm_empty (as_tx_map s)")
  obtain counts r where p: "protect_ddos_request_count L (as_request_count_map s) g = (counts, r)"
    by (cases "protect_ddos_request_count L (as_request_count_map s) g")
  from assms(1) have wf: "txs_wf (as_tx_map s)" "hm_wf (as_request_count_map s)"
    by (simp_all add: app_wf_def)
  note g = enter_group [OF wf(1) e]
  note c = protect_ddos_cases [OF wf(2), of L g, unfolded p fst_conv snd_conv]
  let ?new = "\<lparr>cs_client = without_id peer, cs_tx = tx\<rparr>"
  from assms(2) have free: "\<not> unat (MAX_CONNECTIONS L) \<le> hm_len local" and ok: "is_ok r"
    and s': "s' = s\<lparr>as_tx_map := hm_insert g (hm_insert (ci_id peer) ?new local) txs,
                    as_request_count_map := counts\<rparr>"
    and ts: "ts = map cs_tx (hm_values local)"
    and ps: "ps = map (\<lambda>(k, v). client_info_from (cs_client v) k) (hm_entries local)"
    by (auto simp: connect_section_def e p Let_def split: if_splits)
  show "app_wf s'" using g(1,2) c(1) by (simp add: app_wf_def s' txs_wf_insert hm)
  show "member (as_tx_map s') h i =
       (if h = g \<and> i = ci_id peer then Some ?new else member (as_tx_map s) h i)"
    using g by (simp add: s' member_insert hm)
  show "group_size (as_tx_map s) g < unat (MAX_CONNECTIONS L)" using free g by simp
  show "request_count (as_request_count_map s) g < MAX_REQUESTS L" using ok c by simp
  show "request_count (as_request_count_map s') h =
       request_count (as_request_count_map s) h + (if h = g then 1 else 0)"
    using ok c by (simp add: s')
  show "group_size (as_tx_map s') h =
       (if h = g then (if member (as_tx_map s) g (ci_id peer) = None
          then Suc (group_size (as_tx_map s) g) else group_size (as_tx_map s) g)
        else group_size (as_tx_map s) h)"
    using g by (simp add: s' group_size_insert hm)
  show "set ts = txs_of (as_tx_map s) g"
    using values_local [OF g(2)] g(6) by (simp add: ts txs_of_def)
  show "set ps = {client_info_from (cs_client st) j | j st. member (as_tx_map s) g j = Some st}"
    using hm.entries_get [OF g(2)] g(6) by (force simp: ps image_iff)
  show "length ps = group_size (as_tx_map s) g" "length ts = group_size (as_tx_map s) g"
    using g(7) by (simp_all add: ps ts hm_values_def hm_len_def)
qed

lemma send_update_facts:
  assumes "txs_wf txs" "send_update_to_other_peers_with_lock txs g i info = (txs', out)"
  shows "txs_wf txs'" "group_size txs' h = group_size txs h"
    "member txs' h j =
       (if h = g \<and> j = i then map_option (\<lambda>st. st\<lparr>cs_client := info\<rparr>) (member txs g i)
        else member txs h j)"
    "set out = {(cs_tx st, SUpdate (client_info_from info i)) | j st.
       member txs g i \<noteq> None \<and> j \<noteq> i \<and> member txs g j = Some st}"
proof -
  have "txs_wf txs' \<and> group_size txs' h = group_size txs h \<and>
    member txs' h j =
       (if h = g \<and> j = i then map_option (\<lambda>st. st\<lparr>cs_client := info\<rparr>) (member txs g i)
        else member txs h j) \<and>
    set out = {(cs_tx st, SUpdate (client_info_from info i)) | j st.
       member txs g i \<noteq> None \<and> j \<noteq> i \<and> member txs g j = Some st}"
  proof (cases "hm_get txs g")
    case None
    with assms show ?thesis
      by (auto simp: send_update_to_other_peers_with_lock_def member_def)
  next
    case (Some local)
    have wf: "hm_wf local" using assms(1) Some by (rule txs_wf_local)
    show ?thesis
    proof (cases "hm_get local i")
      case None
      with assms Some show ?thesis
        by (auto simp: send_update_to_other_peers_with_lock_def member_def)
    next
      case (Some st)
      let ?l = "hm_insert i (st\<lparr>cs_client := info\<rparr>) local"
      from assms(2) Some \<open>hm_get txs g = Some local\<close> have txs': "txs' = hm_insert g ?l txs"
        and out: "out = map (\<lambda>t. (t, SUpdate (client_info_from info i)))
          (map (\<lambda>(_, v). cs_tx v) (filter (\<lambda>(k, _). k \<noteq> i) (hm_entries ?l)))"
        by (auto simp: send_update_to_other_peers_with_lock_def Let_def)
      have mem: "member txs g k = hm_get local k" for k
        using \<open>hm_get txs g = Some local\<close> by (simp add: member_def)
      have "set out = {(cs_tx v, SUpdate (client_info_from info i)) | k v.
          k \<noteq> i \<and> hm_get local k = Some v}"
        using hm.entries_get [OF wf] by (force simp: out hm.entries_ins [OF wf] image_iff)
      then show ?thesis
        using assms(1) wf Some \<open>hm_get txs g = Some local\<close>
        by (auto simp: txs' txs_wf_insert member_insert group_size_insert mem hm)
          (simp_all add: group_size_def)
    qed
  qed
  then show "txs_wf txs'" "group_size txs' h = group_size txs h"
    "member txs' h j =
       (if h = g \<and> j = i then map_option (\<lambda>st. st\<lparr>cs_client := info\<rparr>) (member txs g i)
        else member txs h j)"
    "set out = {(cs_tx st, SUpdate (client_info_from info i)) | j st.
       member txs g i \<noteq> None \<and> j \<noteq> i \<and> member txs g j = Some st}"
    by simp_all
qed

lemma send_to_peer_alt:
  "send_to_peer_with_lock txs g origin m =
     (case member txs g (sdp_target m) of
        Some st \<Rightarrow> [(cs_tx st, sdp_message_for origin m)] | None \<Rightarrow> [])"
  by (simp add: send_to_peer_with_lock_def member_def)

lemma send_to_peer_targets: "fst ` set (send_to_peer_with_lock txs g peer m) \<subseteq> txs_of txs g"
  by (cases "member txs g (sdp_target m)") (auto simp: send_to_peer_alt txs_of_def)

lemma dispatch_facts:
  assumes "txs_wf txs" "dispatch_client_message txs g peer msg = (txs', out)"
  shows "txs_wf txs'" "group_size txs' h = group_size txs h"
    "map_option cs_tx (member txs' h j) = map_option cs_tx (member txs h j)"
    "fst ` set out \<subseteq> txs_of txs g"
proof -
  have "txs_wf txs' \<and> group_size txs' h = group_size txs h \<and>
    map_option cs_tx (member txs' h j) = map_option cs_tx (member txs h j) \<and> fst ` set out \<subseteq> txs_of txs g"
  proof (cases msg)
    case (CUpdate info)
    then have "send_update_to_other_peers_with_lock txs g (ci_id peer) info = (txs', out)"
      using assms(2) by (simp add: dispatch_client_message_def)
    note f = send_update_facts [OF assms(1) this]
    show ?thesis
      using f(1,4) f(2) [of h] f(3) [of h j] by (auto simp: txs_of_def option.map_comp comp_def)
  next
    case (COffer m)
    then have "txs' = txs \<and> out = send_to_peer_with_lock txs g peer (WOffer m)"
      using assms(2) by (auto simp: dispatch_client_message_def)
    then show ?thesis using assms(1) by (simp add: send_to_peer_targets)
  next
    case (CAnswer m)
    then have "txs' = txs \<and> out = send_to_peer_with_lock txs g peer (WAnswer m)"
      using assms(2) by (auto simp: dispatch_client_message_def)
    then show ?thesis using assms(1) by (simp add: send_to_peer_targets)
  qed
  then show "txs_wf txs'" "group_size txs' h = group_size txs h"
    "map_option cs_tx (member txs' h j) = map_option cs_tx (member txs h j)" "fst ` set out \<subseteq> txs_of txs g"
    by simp_all
qed

text \<open>The two ways a message goes: counted and dispatched, or refused.\<close>

lemma handle_client_message_cases:
  assumes "hm_wf (as_request_count_map s)" "handle_client_message L s g peer tx msg = (s', out, go_on)"
  obtains (handled) txs where "request_count (as_request_count_map s) g < MAX_REQUESTS L" "go_on"
      "dispatch_client_message (as_tx_map s) g peer msg = (txs, out)"
      "s' = s\<lparr>as_request_count_map := fst (protect_ddos_request_count L (as_request_count_map s) g), as_tx_map := txs\<rparr>"
  | (refused) "\<not> request_count (as_request_count_map s) g < MAX_REQUESTS L" "\<not> go_on" "out = [(tx, SError 429)]"
      "s' = s\<lparr>as_request_count_map := fst (protect_ddos_request_count L (as_request_count_map s) g)\<rparr>"
proof -
  obtain counts r where p: "protect_ddos_request_count L (as_request_count_map s) g = (counts, r)" by fastforce
  obtain txs o' where d: "dispatch_client_message (as_tx_map s) g peer msg = (txs, o')" by fastforce
  note c = protect_ddos_cases(3) [OF assms(1), of L g, unfolded p snd_conv]
  show thesis
  proof (cases r)
    case (Inl e)
    then show ?thesis using assms(2) c p by (intro refused) (auto simp: handle_client_message_def)
  next
    case (Inr u)
    then show ?thesis using assms(2) c p d by (intro handled) (auto simp: handle_client_message_def)
  qed
qed

lemma disconnect_facts:
  assumes "txs_wf txs" "disconnect_section txs g i = (txs', ts)"
  shows "txs_wf txs'"
    "member txs' h j = (if h = g \<and> j = i then None else member txs h j)"
    "group_size txs' h = (if h = g \<and> member txs g i \<noteq> None then group_size txs g - 1 else group_size txs h)"
    "set ts = {cs_tx st | j st. j \<noteq> i \<and> member txs g j = Some st}"
    "hm_get txs' g \<noteq> Some local \<or> hm_len local \<noteq> 0"
proof -
  have "txs_wf txs' \<and> member txs' h j = (if h = g \<and> j = i then None else member txs h j) \<and>
    group_size txs' h = (if h = g \<and> member txs g i \<noteq> None then group_size txs g - 1 else group_size txs h) \<and>
    set ts = {cs_tx st | j st. j \<noteq> i \<and> member txs g j = Some st} \<and>
    (hm_get txs' g \<noteq> Some local \<or> hm_len local \<noteq> 0)"
  proof (cases "hm_get txs g")
    case None
    with assms show ?thesis
      by (auto simp: disconnect_section_def member_def)
  next
    case (Some loc)
    have wf: "hm_wf loc" using assms(1) Some by (rule txs_wf_local)
    have top: "hm_wf txs" using assms(1) by (simp add: txs_wf_def)
    have mem: "member txs g k = hm_get loc k" for k using Some by (simp add: member_def)
    have size: "group_size txs g = hm_len loc" using Some by (simp add: group_size_def)
    let ?l = "hm_remove i loc"
    have get: "hm_get ?l k = (if k = i then None else hm_get loc k)" for k
      using wf by (rule hm.get_del)
    have len: "hm_len ?l = (if hm_get loc i = None then hm_len loc else hm_len loc - 1)"
      using wf by (rule hm_len_remove)
    show ?thesis
    proof (cases "hm_len ?l = 0")
      case True
      with assms(2) Some have r: "txs' = hm_remove g txs" "ts = []"
        by (simp_all add: disconnect_section_def Let_def)
      have none: "hm_get loc k = Some st \<Longrightarrow> k = i" for k st
        using hm_len_0 [OF True, of k] get [of k] by (auto split: if_splits)
      have none': "k \<noteq> i \<Longrightarrow> hm_get loc k = None" for k
        using none [of k] by (cases "hm_get loc k") auto
      show ?thesis
        using r top assms(1) True len
        by (auto dest: none simp: none' txs_wf_remove member_remove group_size_remove mem size hm split: if_splits)
    next
      case False
      with assms(2) Some have r: "txs' = hm_insert g ?l txs" "ts = map cs_tx (hm_values ?l)"
        by (simp_all add: disconnect_section_def Let_def)
      have "set ts = {cs_tx st | k st. k \<noteq> i \<and> hm_get loc k = Some st}"
        using values_local [OF hm.wf_del [OF wf, of i]] get by (auto simp: r split: if_splits)
      then show ?thesis
        using r wf assms(1) False len get
        by (auto simp: txs_wf_insert hm.wf_del member_insert group_size_insert mem size hm.get_ins)
    qed
  qed
  then show "txs_wf txs'"
    "member txs' h j = (if h = g \<and> j = i then None else member txs h j)"
    "group_size txs' h = (if h = g \<and> member txs g i \<noteq> None then group_size txs g - 1 else group_size txs h)"
    "set ts = {cs_tx st | j st. j \<noteq> i \<and> member txs g j = Some st}"
    "hm_get txs' g \<noteq> Some local \<or> hm_len local \<noteq> 0"
    by simp_all
qed

end
