(* ===== verification/Ws_System.thy ===== *)
theory Ws_System
  imports Ws_Server
begin

section \<open>The signaling server as a transition system\<close>

text \<open>
  Any number of connections run \<open>handle_socket\<close> concurrently. The steps are the
  critical sections of the handlers (the message of a client takes two: it is counted, then
  handled) and the single sends into the channels of clients; they interleave in any order. A connection is named by its channel, a number; a
  message in a channel carries the connection that sent it, so that its way through the
  server can be stated. Channels are unbounded here: the code's capacity of four delays
  a send, it does not drop or reorder one.
\<close>

datatype phase = Announcing | Running | Leaving

record conn =
  cn_group :: string
  cn_peer :: client_info
  cn_phase :: phase
  cn_pending :: "(nat \<times> ws_server_message) list"
  cn_handling :: "ws_client_message option"
  cn_reading :: bool

record sys =
  sy_app :: "nat app_state"
  sy_conns :: "nat \<Rightarrow> conn option"
  sy_inbox :: "nat \<Rightarrow> (nat \<times> ws_server_message) list"

definition sys_init :: sys where
  "sys_init = \<lparr>sy_app = app_state_new, sy_conns = (\<lambda>_. None), sy_inbox = (\<lambda>_. [])\<rparr>"

subsection \<open>The steps\<close>

text \<open>A new connection on a fresh channel, whose UUID no connection has had.\<close>

definition step_connect :: "limits \<Rightarrow> nat \<Rightarrow> string \<Rightarrow> client_info \<Rightarrow> sys \<Rightarrow> sys" where
  "step_connect L c g peer s =
     (case connect_section L (sy_app s) g peer c of
        (app, None) \<Rightarrow> s\<lparr>sy_app := app\<rparr>
      | (app, Some ps) \<Rightarrow>
          s\<lparr>sy_app := app,
            sy_conns := (sy_conns s)(c \<mapsto>
              \<lparr>cn_group = g, cn_peer = peer, cn_phase = Announcing,
               cn_pending = announce peer c ps, cn_handling = None, cn_reading = True\<rparr>)\<rparr>)"

text \<open>The next send of a connection's task.\<close>

definition step_deliver :: "nat \<Rightarrow> sys \<Rightarrow> sys" where
  "step_deliver c s =
     (case sy_conns s c of
        Some k \<Rightarrow>
          (case cn_pending k of
             (t, m) # ps \<Rightarrow>
               s\<lparr>sy_conns := (sy_conns s)(c \<mapsto>
                   k\<lparr>cn_pending := ps,
                     cn_phase := (if cn_phase k = Announcing \<and> ps = [] then Running else cn_phase k)\<rparr>),
                 sy_inbox := (sy_inbox s)(t := sy_inbox s t @ [(c, m)])\<rparr>
           | [] \<Rightarrow> s)
      | None \<Rightarrow> s)"

text \<open>
  The next websocket message of a client whose task has nothing left to do. It is counted
  and taken up, or refused; what is no message is skipped.
\<close>

definition step_receive :: "wire \<Rightarrow> limits \<Rightarrow> nat \<Rightarrow> ws_input \<Rightarrow> sys \<Rightarrow> sys" where
  "step_receive W L c inp s =
     (case sy_conns s c of
        Some k \<Rightarrow>
          (case read_client_message W inp of
             None \<Rightarrow> s
           | Some msg \<Rightarrow>
               (case protect_ddos_request_count L (as_request_count_map (sy_app s)) (cn_group k) of
                  (counts, r) \<Rightarrow>
                    s\<lparr>sy_app := (sy_app s)\<lparr>as_request_count_map := counts\<rparr>,
                      sy_conns := (sy_conns s)(c \<mapsto>
                        (case r of
                           Inl _ \<Rightarrow> k\<lparr>cn_pending := [(c, SError TOO_MANY_REQUESTS)], cn_reading := False\<rparr>
                         | Inr _ \<Rightarrow> k\<lparr>cn_handling := Some msg\<rparr>))\<rparr>))
      | None \<Rightarrow> s)"

text \<open>The second critical section of the message, and the sends it leads to.\<close>

definition step_handle :: "nat \<Rightarrow> sys \<Rightarrow> sys" where
  "step_handle c s =
     (case sy_conns s c of
        Some k \<Rightarrow>
          (case cn_handling k of
             Some msg \<Rightarrow>
               (case dispatch_client_message (as_tx_map (sy_app s)) (cn_group k) (cn_peer k) msg of
                  (txs, out) \<Rightarrow>
                    s\<lparr>sy_app := (sy_app s)\<lparr>as_tx_map := txs\<rparr>,
                      sy_conns := (sy_conns s)(c \<mapsto> k\<lparr>cn_pending := out, cn_handling := None\<rparr>)\<rparr>)
           | None \<Rightarrow> s)
      | None \<Rightarrow> s)"

text \<open>
  One of the two tasks ends and the other is aborted, whatever it was handling or sending;
  then the client leaves its group.
\<close>

definition step_disconnect :: "nat \<Rightarrow> sys \<Rightarrow> sys" where
  "step_disconnect c s =
     (case sy_conns s c of
        Some k \<Rightarrow>
          (case disconnect_section (as_tx_map (sy_app s)) (cn_group k) (ci_id (cn_peer k)) of
             (txs, ts) \<Rightarrow>
               s\<lparr>sy_app := (sy_app s)\<lparr>as_tx_map := txs\<rparr>,
                 sy_conns := (sy_conns s)(c \<mapsto>
                   k\<lparr>cn_phase := Leaving, cn_handling := None, cn_reading := False,
                     cn_pending := farewell (ci_id (cn_peer k)) ts\<rparr>)\<rparr>)
      | None \<Rightarrow> s)"

definition step_hour :: "sys \<Rightarrow> sys" where
  "step_hour s =
     s\<lparr>sy_app := (sy_app s)\<lparr>as_request_count_map :=
         clear_request_counts (as_request_count_map (sy_app s))\<rparr>\<rparr>"

inductive server_step :: "wire \<Rightarrow> limits \<Rightarrow> sys \<Rightarrow> sys \<Rightarrow> bool" for W L where
  connect: "sy_conns s c = None \<Longrightarrow>
     \<forall>d k. sy_conns s d = Some k \<longrightarrow> ci_id (cn_peer k) \<noteq> ci_id peer \<Longrightarrow>
     server_step W L s (step_connect L c g peer s)"
| deliver: "sy_conns s c = Some k \<Longrightarrow> cn_pending k \<noteq> [] \<Longrightarrow>
     server_step W L s (step_deliver c s)"
| receive: "sy_conns s c = Some k \<Longrightarrow> cn_phase k = Running \<Longrightarrow> cn_pending k = [] \<Longrightarrow>
     cn_handling k = None \<Longrightarrow> cn_reading k \<Longrightarrow> server_step W L s (step_receive W L c inp s)"
| handle: "sy_conns s c = Some k \<Longrightarrow> cn_phase k = Running \<Longrightarrow> cn_handling k \<noteq> None \<Longrightarrow>
     server_step W L s (step_handle c s)"
| disconnect: "sy_conns s c = Some k \<Longrightarrow> cn_phase k = Running \<Longrightarrow>
     server_step W L s (step_disconnect c s)"
| hour: "server_step W L s (step_hour s)"

inductive reachable :: "wire \<Rightarrow> limits \<Rightarrow> sys \<Rightarrow> bool" for W L where
  init: "reachable W L sys_init"
| step: "reachable W L s \<Longrightarrow> server_step W L s t \<Longrightarrow> reachable W L t"

inductive_cases server_stepE: "server_step W L s t"

lemma reachable_steps:
  assumes "reachable W L s" "(server_step W L)\<^sup>*\<^sup>* s t"
  shows "reachable W L t"
  using assms(2,1) by induction (auto intro: reachable.step)

subsection \<open>The invariant\<close>

text \<open>
  \<open>agree\<close>: a client is in the table exactly while its connection is up, in its own
  group, under its own id and channel. \<open>scoped\<close>: whatever a connection is about to
  send, and whatever a channel holds, stays within one group.
\<close>

definition up :: "conn \<Rightarrow> bool" where
  "up k \<longleftrightarrow> cn_phase k \<noteq> Leaving"

definition agree :: "sys \<Rightarrow> bool" where
  "agree s \<longleftrightarrow>
     (\<forall>g i. (\<forall>st. member (as_tx_map (sy_app s)) g i = Some st \<longrightarrow>
               (\<exists>k. sy_conns s (cs_tx st) = Some k \<and> up k \<and> cn_group k = g \<and> ci_id (cn_peer k) = i)))
     \<and> (\<forall>c k. sy_conns s c = Some k \<and> up k \<longrightarrow>
               (\<exists>st. member (as_tx_map (sy_app s)) (cn_group k) (ci_id (cn_peer k)) = Some st \<and> cs_tx st = c))"

definition unique_ids :: "sys \<Rightarrow> bool" where
  "unique_ids s \<longleftrightarrow>
     (\<forall>c d k l. sy_conns s c = Some k \<and> sy_conns s d = Some l \<and>
        ci_id (cn_peer k) = ci_id (cn_peer l) \<longrightarrow> c = d)"

definition in_group :: "sys \<Rightarrow> string \<Rightarrow> nat \<Rightarrow> bool" where
  "in_group s g t \<longleftrightarrow> (\<exists>l. sy_conns s t = Some l \<and> cn_group l = g)"

definition scoped :: "sys \<Rightarrow> bool" where
  "scoped s \<longleftrightarrow>
     (\<forall>c k t m. sy_conns s c = Some k \<and> (t, m) \<in> set (cn_pending k) \<longrightarrow> in_group s (cn_group k) t)
     \<and> (\<forall>t c m. (c, m) \<in> set (sy_inbox s t) \<longrightarrow>
           (\<exists>k. sy_conns s c = Some k \<and> in_group s (cn_group k) t))"

definition within_limits :: "limits \<Rightarrow> sys \<Rightarrow> bool" where
  "within_limits L s \<longleftrightarrow>
     (\<forall>g. group_size (as_tx_map (sy_app s)) g \<le> unat (MAX_CONNECTIONS L))
     \<and> (\<forall>g. request_count (as_request_count_map (sy_app s)) g \<le> MAX_REQUESTS L)"

definition sys_inv :: "limits \<Rightarrow> sys \<Rightarrow> bool" where
  "sys_inv L s \<longleftrightarrow>
     app_wf (sy_app s) \<and> agree s \<and> unique_ids s \<and> scoped s \<and> within_limits L s"

lemma agreeD1:
  "agree s \<Longrightarrow> member (as_tx_map (sy_app s)) g i = Some st \<Longrightarrow>
     \<exists>k. sy_conns s (cs_tx st) = Some k \<and> up k \<and> cn_group k = g \<and> ci_id (cn_peer k) = i"
  unfolding agree_def by blast

lemma agreeD2:
  "agree s \<Longrightarrow> sy_conns s c = Some k \<Longrightarrow> up k \<Longrightarrow>
     \<exists>st. member (as_tx_map (sy_app s)) (cn_group k) (ci_id (cn_peer k)) = Some st \<and> cs_tx st = c"
  unfolding agree_def by blast

lemma txs_of_in_group: "agree s \<Longrightarrow> t \<in> txs_of (as_tx_map (sy_app s)) g \<Longrightarrow> in_group s g t"
  unfolding txs_of_def in_group_def using agreeD1 by blast

lemma scopedD1:
  "scoped s \<Longrightarrow> sy_conns s c = Some k \<Longrightarrow> (t, m) \<in> set (cn_pending k) \<Longrightarrow> in_group s (cn_group k) t"
  unfolding scoped_def by blast

lemma scopedD2:
  "scoped s \<Longrightarrow> (c, m) \<in> set (sy_inbox s t) \<Longrightarrow>
     \<exists>k. sy_conns s c = Some k \<and> in_group s (cn_group k) t"
  unfolding scoped_def by blast

text \<open>A step that keeps every connection's group (and adds connections) keeps \<open>in_group\<close>.\<close>

definition extends :: "sys \<Rightarrow> sys \<Rightarrow> bool" where
  "extends s t \<longleftrightarrow>
     (\<forall>c k. sy_conns s c = Some k \<longrightarrow>
        (\<exists>l. sy_conns t c = Some l \<and> cn_group l = cn_group k \<and> cn_peer l = cn_peer k))"

lemma extendsD:
  "extends s t \<Longrightarrow> sy_conns s c = Some k \<Longrightarrow>
     \<exists>l. sy_conns t c = Some l \<and> cn_group l = cn_group k \<and> cn_peer l = cn_peer k"
  unfolding extends_def by blast

lemma in_group_extends: "extends s t \<Longrightarrow> in_group s g c \<Longrightarrow> in_group t g c"
  unfolding in_group_def by (metis extendsD)

text \<open>
  To keep \<open>scoped\<close> it is enough to look at the connection that moves: what it has
  pending afterwards, and what it put into channels.
\<close>

lemma scoped_step:
  assumes "scoped s" "extends s t"
    and "\<And>d k. sy_conns t d = Some k \<Longrightarrow> d \<noteq> c \<Longrightarrow> sy_conns s d = Some k"
    and "\<And>k u m. sy_conns t c = Some k \<Longrightarrow> (u, m) \<in> set (cn_pending k) \<Longrightarrow> in_group t (cn_group k) u"
    and "\<And>u d m. (d, m) \<in> set (sy_inbox t u) \<Longrightarrow>
      (d, m) \<in> set (sy_inbox s u) \<or> (\<exists>k. sy_conns t d = Some k \<and> in_group t (cn_group k) u)"
  shows "scoped t"
  unfolding scoped_def
proof (intro conjI allI impI)
  fix d k u m
  assume "sy_conns t d = Some k \<and> (u, m) \<in> set (cn_pending k)"
  then show "in_group t (cn_group k) u"
    using assms(3,4) scopedD1 [OF assms(1)] in_group_extends [OF assms(2)] by (cases "d = c") blast+
next
  fix u d m
  assume "(d, m) \<in> set (sy_inbox t u)"
  then show "\<exists>k. sy_conns t d = Some k \<and> in_group t (cn_group k) u"
    using assms(5) scopedD2 [OF assms(1)] in_group_extends [OF assms(2)] extendsD [OF assms(2)]
    by metis
qed

lemma unique_ids_same_peers:
  assumes "unique_ids s" "\<And>c k. sy_conns t c = Some k \<Longrightarrow>
    \<exists>l. sy_conns s c = Some l \<and> cn_peer l = cn_peer k"
  shows "unique_ids t"
  using assms unfolding unique_ids_def by metis

lemma within_limitsD:
  assumes "within_limits L s"
  shows "group_size (as_tx_map (sy_app s)) g \<le> unat (MAX_CONNECTIONS L)"
    "request_count (as_request_count_map (sy_app s)) g \<le> MAX_REQUESTS L"
  using assms by (simp_all add: within_limits_def)

lemma sys_inv_init: "sys_inv L sys_init"
  by (simp add: sys_inv_def sys_init_def app_state_new_def app_wf_def txs_wf_empty hm agree_def
      unique_ids_def scoped_def within_limits_def group_size_def request_count_def member_def)

end
