(* ===== verification/Ws_Invariant.thy ===== *)
theory Ws_Invariant
  imports Ws_System
begin

section \<open>Every step of the signaling server keeps the invariant\<close>

lemma within_limits_rejected:
  assumes "app_wf (sy_app s)" "within_limits L s"
    "connect_section L (sy_app s) g peer c = (app, None)"
  shows "within_limits L (s\<lparr>sy_app := app\<rparr>)"
  using assms(2) connect_section_rejected(3,5) [OF assms(1,3)]
  by (simp add: within_limits_def)

lemma agree_same_members:
  assumes "agree s" "\<And>g i. member (as_tx_map app) g i = member (as_tx_map (sy_app s)) g i"
  shows "agree (s\<lparr>sy_app := app\<rparr>)"
  using assms by (simp add: agree_def)

lemma scoped_app [simp]: "scoped (s\<lparr>sy_app := app\<rparr>) = scoped s"
  by (simp add: scoped_def in_group_def)

lemma unique_ids_app [simp]: "unique_ids (s\<lparr>sy_app := app\<rparr>) = unique_ids s"
  by (simp add: unique_ids_def)

lemma inv_rejected:
  assumes "sys_inv L s" "connect_section L (sy_app s) g peer c = (app, None)"
  shows "sys_inv L (s\<lparr>sy_app := app\<rparr>)"
proof -
  from assms(1) have wf: "app_wf (sy_app s)" by (simp add: sys_inv_def)
  show ?thesis
    using assms(1) connect_section_rejected(1,2) [OF wf assms(2)] agree_same_members [of s app]
      within_limits_rejected [OF wf _ assms(2)]
    by (simp add: sys_inv_def)
qed

lemma unique_ids_fresh:
  assumes "unique_ids s" "sy_conns s c = None"
    "\<forall>d k. sy_conns s d = Some k \<longrightarrow> ci_id (cn_peer k) \<noteq> ci_id peer"
    "sy_conns t = (sy_conns s)(c \<mapsto> k)" "cn_peer k = peer"
  shows "unique_ids t"
  unfolding unique_ids_def
proof (intro allI impI)
  fix a b ka kb
  assume h: "sy_conns t a = Some ka \<and> sy_conns t b = Some kb \<and> ci_id (cn_peer ka) = ci_id (cn_peer kb)"
  show "a = b"
  proof (cases "a = c \<or> b = c")
    case True
    with h assms(3-5) show ?thesis by (metis fun_upd_apply option.inject)
  next
    case False
    with h assms(4) have "sy_conns s a = Some ka" "sy_conns s b = Some kb" by simp_all
    with h assms(1) show ?thesis unfolding unique_ids_def by blast
  qed
qed

lemma inv_accepted:
  assumes inv: "sys_inv L s" and fresh: "sy_conns s c = None"
    and uid: "\<forall>d k. sy_conns s d = Some k \<longrightarrow> ci_id (cn_peer k) \<noteq> ci_id peer"
    and sec: "connect_section L (sy_app s) g peer c = (app, Some (ts, ps))"
    and t: "t = s\<lparr>sy_app := app, sy_conns := (sy_conns s)(c \<mapsto>
              \<lparr>cn_group = g, cn_peer = peer, cn_phase = Announcing,
               cn_pending = announce peer c (ts, ps), cn_handling = None, cn_reading = True\<rparr>)\<rparr>"
  shows "sys_inv L t"
proof -
  from inv have wf: "app_wf (sy_app s)" and ag: "agree s" and un: "unique_ids s"
    and sc: "scoped s" and lim: "within_limits L s" by (simp_all add: sys_inv_def)
  note acc = connect_section_accepted [OF wf sec]
  have ext: "extends s t" using fresh by (auto simp: extends_def t)
  have "agree t"
    unfolding agree_def
  proof (intro conjI allI impI)
    fix h i st
    assume m: "member (as_tx_map (sy_app t)) h i = Some st"
    show "\<exists>k. sy_conns t (cs_tx st) = Some k \<and> up k \<and> cn_group k = h \<and> ci_id (cn_peer k) = i"
    proof (cases "h = g \<and> i = ci_id peer")
      case True
      with m acc(2) [of h i] show ?thesis by (auto simp: t up_def)
    next
      case False
      with m acc(2) [of h i] have "member (as_tx_map (sy_app s)) h i = Some st" by (simp add: t)
      from agreeD1 [OF ag this] fresh show ?thesis by (auto simp: t)
    qed
  next
    fix d k
    assume k: "sy_conns t d = Some k \<and> up k"
    show "\<exists>st. member (as_tx_map (sy_app t)) (cn_group k) (ci_id (cn_peer k)) = Some st \<and> cs_tx st = d"
    proof (cases "d = c")
      case True
      with k acc(2) show ?thesis by (auto simp: t)
    next
      case False
      with k have s: "sy_conns s d = Some k" by (simp add: t)
      with uid have "ci_id (cn_peer k) \<noteq> ci_id peer" by blast
      with acc(2) agreeD2 [OF ag s] k show ?thesis by (simp add: t)
    qed
  qed
  moreover have "unique_ids t"
    by (rule unique_ids_fresh [OF un fresh uid, where k = "\<lparr>cn_group = g, cn_peer = peer,
          cn_phase = Announcing, cn_pending = announce peer c (ts, ps), cn_handling = None, cn_reading = True\<rparr>"])
      (simp_all add: t)
  moreover have "scoped t"
  proof (rule scoped_step [OF sc ext, of c])
    fix k u m
    assume k: "sy_conns t c = Some k" "(u, m) \<in> set (cn_pending k)"
    then have "u \<in> txs_of (as_tx_map (sy_app s)) g \<or> u = c"
      using acc(7) by (auto simp: t announce_def)
    then have "in_group t g u"
      using txs_of_in_group [OF ag] in_group_extends [OF ext] by (auto simp: in_group_def t)
    with k show "in_group t (cn_group k) u" by (auto simp: t)
  qed (auto simp: t split: if_splits)
  moreover have "within_limits L t"
  proof -
    have "request_count (as_request_count_map app) h \<le> MAX_REQUESTS L" for h
      using acc(4) acc(5) [of h] within_limitsD(2) [OF lim, of h]
      by (auto split: if_splits intro: inc_le)
    moreover have "group_size (as_tx_map app) h \<le> unat (MAX_CONNECTIONS L)" for h
      using acc(3) acc(6) [of h] within_limitsD(1) [OF lim, of h] by (auto split: if_splits)
    ultimately show ?thesis by (simp add: within_limits_def t)
  qed
  ultimately show ?thesis using acc(1) by (simp add: sys_inv_def t)
qed

lemma inv_connect:
  assumes "sys_inv L s" "sy_conns s c = None"
    "\<forall>d k. sy_conns s d = Some k \<longrightarrow> ci_id (cn_peer k) \<noteq> ci_id peer"
  shows "sys_inv L (step_connect L c g peer s)"
proof -
  obtain app r where sec: "connect_section L (sy_app s) g peer c = (app, r)"
    by (cases "connect_section L (sy_app s) g peer c")
  show ?thesis
  proof (cases r)
    case None
    with sec inv_rejected [OF assms(1)] show ?thesis by (simp add: step_connect_def)
  next
    case (Some q)
    obtain ts ps where "q = (ts, ps)" by (cases q)
    with sec Some inv_accepted [OF assms] show ?thesis by (simp add: step_connect_def)
  qed
qed

text \<open>
  A step of one connection \<open>c\<close> that stays up: the table keeps every entry's channel,
  the other connections are unchanged.
\<close>

lemma agree_step:
  assumes "agree s" "sy_conns s c = Some k" "cn_group k' = cn_group k" "cn_peer k' = cn_peer k"
    "up k' = up k" "sy_conns t = (sy_conns s)(c \<mapsto> k')"
    "\<And>g i. map_option cs_tx (member (as_tx_map (sy_app t)) g i) =
           map_option cs_tx (member (as_tx_map (sy_app s)) g i)"
  shows "agree t"
  unfolding agree_def
proof (intro conjI allI impI)
  fix g i st
  assume "member (as_tx_map (sy_app t)) g i = Some st"
  with assms(7) [of g i] obtain st' where "member (as_tx_map (sy_app s)) g i = Some st'" "cs_tx st' = cs_tx st"
    by (auto simp: map_option_case split: option.splits)
  with agreeD1 [OF assms(1), of g i st'] assms(2-6)
  show "\<exists>k. sy_conns t (cs_tx st) = Some k \<and> up k \<and> cn_group k = g \<and> ci_id (cn_peer k) = i"
    by (cases "cs_tx st = c") auto
next
  fix d l
  assume l: "sy_conns t d = Some l \<and> up l"
  then obtain l0 where "sy_conns s d = Some l0" "up l0" "cn_group l0 = cn_group l" "cn_peer l0 = cn_peer l"
    using assms(2-6) by (cases "d = c") auto
  with agreeD2 [OF assms(1), of d l0]
  obtain st where "member (as_tx_map (sy_app s)) (cn_group l) (ci_id (cn_peer l)) = Some st" "cs_tx st = d"
    by auto
  with assms(7) [of "cn_group l" "ci_id (cn_peer l)"]
  show "\<exists>st. member (as_tx_map (sy_app t)) (cn_group l) (ci_id (cn_peer l)) = Some st \<and> cs_tx st = d"
    by (auto simp: map_option_case split: option.splits)
qed

lemma conn_step_extends:
  "sy_conns s c = Some k \<Longrightarrow> cn_group k' = cn_group k \<Longrightarrow> cn_peer k' = cn_peer k \<Longrightarrow>
     sy_conns t = (sy_conns s)(c \<mapsto> k') \<Longrightarrow> extends s t"
  by (auto simp: extends_def)

lemma conn_step_unique:
  "unique_ids s \<Longrightarrow> sy_conns s c = Some k \<Longrightarrow> cn_peer k' = cn_peer k \<Longrightarrow>
     sy_conns t = (sy_conns s)(c \<mapsto> k') \<Longrightarrow> unique_ids t"
  by (erule unique_ids_same_peers) (auto split: if_splits)

lemma inv_deliver:
  assumes inv: "sys_inv L s" and k: "sy_conns s c = Some k"
  shows "sys_inv L (step_deliver c s)"
proof (cases "cn_pending k")
  case Nil
  with inv k show ?thesis by (simp add: step_deliver_def)
next
  case (Cons p ps)
  obtain u m where p: "p = (u, m)" by (cases p)
  let ?t = "step_deliver c s"
  let ?k = "k\<lparr>cn_pending := ps,
     cn_phase := (if cn_phase k = Announcing \<and> ps = [] then Running else cn_phase k)\<rparr>"
  have t: "sy_conns ?t = (sy_conns s)(c \<mapsto> ?k)" "sy_app ?t = sy_app s"
    "sy_inbox ?t = (sy_inbox s)(u := sy_inbox s u @ [(c, m)])"
    using k Cons p by (simp_all add: step_deliver_def)
  from inv have ag: "agree s" and un: "unique_ids s" and sc: "scoped s" by (simp_all add: sys_inv_def)
  have up: "up ?k = up k" by (simp add: up_def)
  have ext: "extends s ?t" by (rule conn_step_extends [OF k _ _ t(1)]) simp_all
  have "agree ?t" by (rule agree_step [OF ag k _ _ up t(1)]) (simp_all add: t(2))
  moreover have "unique_ids ?t" by (rule conn_step_unique [OF un k _ t(1)]) simp
  moreover have "scoped ?t"
  proof (rule scoped_step [OF sc ext, of c])
    fix k' v n
    assume "sy_conns ?t c = Some k'" "(v, n) \<in> set (cn_pending k')"
    then have "(v, n) \<in> set (cn_pending k)" "cn_group k' = cn_group k" using Cons by (auto simp: t)
    then show "in_group ?t (cn_group k') v"
      using scopedD1 [OF sc k] in_group_extends [OF ext] by simp
  next
    fix v d n
    assume "(d, n) \<in> set (sy_inbox ?t v)"
    moreover have "in_group ?t (cn_group k) u"
      using scopedD1 [OF sc k, of u m] Cons p in_group_extends [OF ext] by simp
    ultimately show "(d, n) \<in> set (sy_inbox s v) \<or>
        (\<exists>k'. sy_conns ?t d = Some k' \<and> in_group ?t (cn_group k') v)"
      by (auto simp: t split: if_splits)
  qed (simp_all add: t)
  ultimately show ?thesis
    using inv by (simp add: sys_inv_def t(2) within_limits_def)
qed

text \<open>Counting a message, and handling it.\<close>

lemma count_limits:
  assumes "hm_wf counts" "\<And>h. request_count counts h \<le> MAX_REQUESTS L"
  shows "request_count (fst (protect_ddos_request_count L counts g)) h \<le> MAX_REQUESTS L"
  using assms protect_ddos_cases(2) [OF assms(1), of L g h] by (auto intro: inc_le)

lemma step_receive_run:
  assumes "sy_conns s c = Some k" "read_client_message W inp = Some msg"
    and "protect_ddos_request_count L (as_request_count_map (sy_app s)) (cn_group k) = (counts, r)"
  shows "sy_conns (step_receive W L c inp s) = (sy_conns s)(c \<mapsto>
      (if is_ok r then k\<lparr>cn_handling := Some msg\<rparr> else k\<lparr>cn_pending := [(c, SError 429)], cn_reading := False\<rparr>))"
    "sy_app (step_receive W L c inp s) = (sy_app s)\<lparr>as_request_count_map := counts\<rparr>"
    "sy_inbox (step_receive W L c inp s) = sy_inbox s"
  using assms by (simp_all add: step_receive_def is_ok_def split: sum.splits)

lemma step_handle_run:
  assumes "sy_conns s c = Some k" "cn_handling k = Some msg"
    and "dispatch_client_message (as_tx_map (sy_app s)) (cn_group k) (cn_peer k) msg = (txs, out)"
  shows "sy_conns (step_handle c s) = (sy_conns s)(c \<mapsto> k\<lparr>cn_pending := out, cn_handling := None\<rparr>)"
    "sy_app (step_handle c s) = (sy_app s)\<lparr>as_tx_map := txs\<rparr>"
    "sy_inbox (step_handle c s) = sy_inbox s"
  using assms by (simp_all add: step_handle_def)

lemma inv_receive:
  assumes inv: "sys_inv L s" and k: "sy_conns s c = Some k"
  shows "sys_inv L (step_receive W L c inp s)"
proof (cases "read_client_message W inp")
  case None
  then show ?thesis using inv k by (simp add: step_receive_def)
next
  case (Some msg)
  from inv have wf: "app_wf (sy_app s)" and ag: "agree s" and un: "unique_ids s"
    and sc: "scoped s" and lim: "within_limits L s" by (simp_all add: sys_inv_def)
  then have cnt: "hm_wf (as_request_count_map (sy_app s))" by (simp add: app_wf_def)
  obtain counts r where p: "protect_ddos_request_count L (as_request_count_map (sy_app s)) (cn_group k) = (counts, r)"
    by fastforce
  let ?t = "step_receive W L c inp s"
  let ?k = "if is_ok r then k\<lparr>cn_handling := Some msg\<rparr> else k\<lparr>cn_pending := [(c, SError 429)], cn_reading := False\<rparr>"
  note t = step_receive_run [OF k Some p]
  have same: "cn_group ?k = cn_group k" "cn_peer ?k = cn_peer k" "up ?k = up k" by (simp_all add: up_def)
  have ext: "extends s ?t" by (rule conn_step_extends [OF k same(1,2) t(1)])
  have "agree ?t" by (rule agree_step [OF ag k same t(1)]) (simp add: t(2))
  moreover have "unique_ids ?t" by (rule conn_step_unique [OF un k same(2) t(1)])
  moreover have "scoped ?t"
  proof (rule scoped_step [OF sc ext, of c])
    fix k' u m
    assume k': "sy_conns ?t c = Some k'" "(u, m) \<in> set (cn_pending k')"
    then have g: "cn_group k' = cn_group k" and "(u, m) \<in> set (cn_pending k) \<or> u = c" by (auto simp: t split: if_splits)
    then have "in_group s (cn_group k) u" using scopedD1 [OF sc k] k by (auto simp: in_group_def)
    with g show "in_group ?t (cn_group k') u" using in_group_extends [OF ext] by simp
  qed (auto simp: t split: if_splits)
  moreover have "within_limits L ?t"
    using count_limits [OF cnt, of L "cn_group k", unfolded p] within_limitsD [OF lim] by (simp add: within_limits_def t)
  moreover have "app_wf (sy_app ?t)"
    using wf protect_ddos_cases(1) [OF cnt, of L "cn_group k", unfolded p] by (simp add: app_wf_def t)
  ultimately show ?thesis by (simp add: sys_inv_def)
qed

lemma inv_handle:
  assumes inv: "sys_inv L s" and k: "sy_conns s c = Some k"
  shows "sys_inv L (step_handle c s)"
proof (cases "cn_handling k")
  case None
  then show ?thesis using inv k by (simp add: step_handle_def)
next
  case (Some msg)
  from inv have wf: "app_wf (sy_app s)" and ag: "agree s" and un: "unique_ids s"
    and sc: "scoped s" and lim: "within_limits L s" by (simp_all add: sys_inv_def)
  then have txwf: "txs_wf (as_tx_map (sy_app s))" by (simp add: app_wf_def)
  obtain txs out where d: "dispatch_client_message (as_tx_map (sy_app s)) (cn_group k) (cn_peer k) msg = (txs, out)"
    by fastforce
  note f = dispatch_facts [OF txwf d]
  let ?t = "step_handle c s"
  let ?k = "k\<lparr>cn_pending := out, cn_handling := None\<rparr>"
  note t = step_handle_run [OF k Some d]
  have ext: "extends s ?t" by (rule conn_step_extends [OF k _ _ t(1)]) simp_all
  have "agree ?t" by (rule agree_step [OF ag k _ _ _ t(1)]) (simp_all add: t(2) f(3) up_def)
  moreover have "unique_ids ?t" by (rule conn_step_unique [OF un k _ t(1)]) simp
  moreover have "scoped ?t"
  proof (rule scoped_step [OF sc ext, of c])
    fix k' u m
    assume k': "sy_conns ?t c = Some k'" "(u, m) \<in> set (cn_pending k')"
    then have g: "cn_group k' = cn_group k" and "(u, m) \<in> set out" by (auto simp: t)
    then have "u \<in> txs_of (as_tx_map (sy_app s)) (cn_group k)" using f(4) by force
    with g show "in_group ?t (cn_group k') u"
      using txs_of_in_group [OF ag] in_group_extends [OF ext] by simp
  qed (auto simp: t)
  moreover have "within_limits L ?t"
    using f(2) within_limitsD [OF lim] by (simp add: within_limits_def t)
  ultimately show ?thesis using f(1) wf by (simp add: sys_inv_def t(2) app_wf_def)
qed

lemma inv_disconnect:
  assumes inv: "sys_inv L s" and k: "sy_conns s c = Some k" and running: "cn_phase k = Running"
  shows "sys_inv L (step_disconnect c s)"
proof -
  from inv have wf: "app_wf (sy_app s)" and ag: "agree s" and un: "unique_ids s"
    and sc: "scoped s" and lim: "within_limits L s" by (simp_all add: sys_inv_def)
  from wf have txwf: "txs_wf (as_tx_map (sy_app s))" by (simp add: app_wf_def)
  obtain txs ts where d:
    "disconnect_section (as_tx_map (sy_app s)) (cn_group k) (ci_id (cn_peer k)) = (txs, ts)"
    by (cases "disconnect_section (as_tx_map (sy_app s)) (cn_group k) (ci_id (cn_peer k))")
  note f = disconnect_facts [OF txwf d]
  let ?t = "step_disconnect c s"
  let ?k = "k\<lparr>cn_phase := Leaving, cn_handling := None, cn_reading := False, cn_pending := farewell (ci_id (cn_peer k)) ts\<rparr>"
  have t: "sy_conns ?t = (sy_conns s)(c \<mapsto> ?k)" "sy_app ?t = (sy_app s)\<lparr>as_tx_map := txs\<rparr>"
    "sy_inbox ?t = sy_inbox s"
    using k d by (simp_all add: step_disconnect_def)
  have ext: "extends s ?t" by (rule conn_step_extends [OF k _ _ t(1)]) simp_all
  have mine: "sy_conns s e = Some l \<Longrightarrow> ci_id (cn_peer l) = ci_id (cn_peer k) \<Longrightarrow> e = c" for e l
    using un k unfolding unique_ids_def by blast
  have "agree ?t"
    unfolding agree_def
  proof (intro conjI allI impI)
    fix g i st
    assume m: "member (as_tx_map (sy_app ?t)) g i = Some st"
    then have "\<not> (g = cn_group k \<and> i = ci_id (cn_peer k))" and
      ms: "member (as_tx_map (sy_app s)) g i = Some st"
      using f(2) [of g i] by (auto simp: t split: if_splits)
    with agreeD1 [OF ag ms] k
    show "\<exists>l. sy_conns ?t (cs_tx st) = Some l \<and> up l \<and> cn_group l = g \<and> ci_id (cn_peer l) = i"
      by (auto simp: t)
  next
    fix e l
    assume l: "sy_conns ?t e = Some l \<and> up l"
    then have "e \<noteq> c" by (auto simp: t up_def)
    with l have s: "sy_conns s e = Some l" by (simp add: t)
    with mine \<open>e \<noteq> c\<close> have "ci_id (cn_peer l) \<noteq> ci_id (cn_peer k)" by blast
    with agreeD2 [OF ag s] l f(2)
    show "\<exists>st. member (as_tx_map (sy_app ?t)) (cn_group l) (ci_id (cn_peer l)) = Some st \<and> cs_tx st = e"
      by (simp add: t)
  qed
  moreover have "unique_ids ?t" by (rule conn_step_unique [OF un k _ t(1)]) simp
  moreover have "scoped ?t"
  proof (rule scoped_step [OF sc ext, of c])
    fix k' u m
    assume k': "sy_conns ?t c = Some k'" "(u, m) \<in> set (cn_pending k')"
    then have g: "cn_group k' = cn_group k" and "u \<in> set ts" by (auto simp: t farewell_def)
    then have "u \<in> txs_of (as_tx_map (sy_app s)) (cn_group k)" using f(4) by (auto simp: txs_of_def)
    with g show "in_group ?t (cn_group k') u"
      using txs_of_in_group [OF ag] in_group_extends [OF ext] by simp
  qed (auto simp: t)
  moreover have "within_limits L ?t"
  proof -
    have "group_size txs h \<le> unat (MAX_CONNECTIONS L)" for h
      using f(3) [of h] within_limitsD(1) [OF lim, of h] within_limitsD(1) [OF lim, of "cn_group k"]
      by (auto split: if_splits)
    then show ?thesis using within_limitsD(2) [OF lim] by (simp add: within_limits_def t)
  qed
  ultimately show ?thesis using f(1) wf by (simp add: sys_inv_def t app_wf_def)
qed

lemma inv_hour:
  assumes "sys_inv L s"
  shows "sys_inv L (step_hour s)"
  using assms
  by (simp add: sys_inv_def step_hour_def app_wf_def clear_request_counts_def hm agree_def
      within_limits_def request_count_def)

lemma server_step_inv: "server_step W L s t \<Longrightarrow> sys_inv L s \<Longrightarrow> sys_inv L t"
  by (induction rule: server_step.induct)
    (auto intro: inv_connect inv_deliver inv_receive inv_handle inv_disconnect inv_hour)

lemma reachable_inv: "reachable W L s \<Longrightarrow> sys_inv L s"
  by (induction rule: reachable.induct) (auto intro: sys_inv_init server_step_inv)

end
