(* ===== verification/Ws_Refinement.thy ===== *)
theory Ws_Refinement
  imports Ws_Invariant
begin

section \<open>What the signaling server promises: a directory\<close>

text \<open>
  The specification of the server without connections, channels and hash maps: which client
  is listed in which group with which description, how many requests a group has used, and
  which clients have a request granted that has not been carried out yet. Every step of the
  server is a step of the directory or leaves it as it is.
\<close>

record directory =
  d_clients :: "string \<Rightarrow> uuid \<Rightarrow> client_info_without_id option"
  d_used :: "string \<Rightarrow> nat"
  d_granted :: "uuid \<Rightarrow> bool"

definition dir_init :: directory where
  "dir_init = \<lparr>d_clients = (\<lambda>_ _. None), d_used = (\<lambda>_. 0), d_granted = (\<lambda>_. False)\<rparr>"

definition list_client :: "string \<Rightarrow> uuid \<Rightarrow> client_info_without_id option \<Rightarrow> directory \<Rightarrow> directory" where
  "list_client g i info d = d\<lparr>d_clients := (d_clients d)(g := (d_clients d g)(i := info))\<rparr>"

definition use_request :: "string \<Rightarrow> directory \<Rightarrow> directory" where
  "use_request g d = d\<lparr>d_used := (d_used d)(g := Suc (d_used d g))\<rparr>"

definition grant :: "uuid \<Rightarrow> bool \<Rightarrow> directory \<Rightarrow> directory" where
  "grant i b d = d\<lparr>d_granted := (d_granted d)(i := b)\<rparr>"

definition dir_size :: "directory \<Rightarrow> string \<Rightarrow> nat" where
  "dir_size d g = card (dom (d_clients d g))"

inductive dir_step :: "limits \<Rightarrow> directory \<Rightarrow> directory \<Rightarrow> bool" for L where
  join: "dir_size d g < unat (MAX_CONNECTIONS L) \<Longrightarrow> d_used d g < unat (MAX_REQUESTS L) \<Longrightarrow>
    d_clients d g i = None \<Longrightarrow> \<not> d_granted d i \<Longrightarrow> dir_step L d (use_request g (list_client g i (Some info) d))"
| request: "d_clients d g i \<noteq> None \<Longrightarrow> d_used d g < unat (MAX_REQUESTS L) \<Longrightarrow> \<not> d_granted d i \<Longrightarrow>
    dir_step L d (use_request g (grant i True d))"
| update: "d_clients d g i \<noteq> None \<Longrightarrow> d_granted d i \<Longrightarrow>
    dir_step L d (grant i False (list_client g i (Some info) d))"
| signal: "d_clients d g i \<noteq> None \<Longrightarrow> d_granted d i \<Longrightarrow> dir_step L d (grant i False d)"
| leave: "d_clients d g i \<noteq> None \<Longrightarrow> dir_step L d (list_client g i None (grant i False d))"
| hour: "dir_step L d (d\<lparr>d_used := (\<lambda>_. 0)\<rparr>)"

text \<open>The directory of the tables, with the grants of the clients that \<open>granted\<close> lists.\<close>

definition dir_of_app :: "(uuid \<Rightarrow> bool) \<Rightarrow> 'tx app_state \<Rightarrow> directory" where
  "dir_of_app granted a =
     \<lparr>d_clients = (\<lambda>g i. map_option cs_client (member (as_tx_map a) g i)),
      d_used = (\<lambda>g. unat (request_count (as_request_count_map a) g)), d_granted = granted\<rparr>"

text \<open>A client has a grant while the message of its connection waits for its second section.\<close>

definition granted :: "(nat \<Rightarrow> conn option) \<Rightarrow> uuid \<Rightarrow> bool" where
  "granted conns i \<longleftrightarrow> (\<exists>c k. conns c = Some k \<and> ci_id (cn_peer k) = i \<and> cn_handling k \<noteq> None)"

definition dir_of :: "sys \<Rightarrow> directory" where
  "dir_of s = dir_of_app (granted (sy_conns s)) (sy_app s)"

lemma dir_sel [simp]:
  "d_clients (dir_of_app G a) g i = map_option cs_client (member (as_tx_map a) g i)"
  "d_used (dir_of_app G a) g = unat (request_count (as_request_count_map a) g)"
  "d_granted (dir_of_app G a) = G"
  by (simp_all add: dir_of_app_def)

lemmas dir_ops = use_request_def list_client_def grant_def

lemma dir_ext:
  "(\<And>g i. d_clients d g i = d_clients e g i) \<Longrightarrow> (\<And>g. d_used d g = d_used e g) \<Longrightarrow>
     (\<And>i. d_granted d i = d_granted e i) \<Longrightarrow> d = (e :: directory)"
  by (cases d; cases e) (auto simp: fun_eq_iff)

text \<open>A step of connection \<open>c\<close> changes the grant of its own client only.\<close>

lemma granted_upd:
  assumes "unique_ids s" "sy_conns s c = Some k" "cn_peer k' = cn_peer k"
  shows "granted ((sy_conns s)(c \<mapsto> k')) i =
    (if i = ci_id (cn_peer k) then cn_handling k' \<noteq> None else granted (sy_conns s) i)"
proof (cases "i = ci_id (cn_peer k)")
  case True
  have "d = c" if "sy_conns s d = Some l" "ci_id (cn_peer l) = ci_id (cn_peer k)" for d l
    using assms(1,2) that unfolding unique_ids_def by blast
  then show ?thesis using True assms(3) by (auto simp: granted_def)
next
  case False
  then show ?thesis using assms(2,3) unfolding granted_def by (metis fun_upd_apply option.inject)
qed

lemma granted_own:
  assumes "unique_ids s" "sy_conns s c = Some k"
  shows "granted (sy_conns s) (ci_id (cn_peer k)) = (cn_handling k \<noteq> None)"
  using granted_upd [OF assms refl, of "ci_id (cn_peer k)"] assms(2) by (simp add: fun_upd_idem)

lemma group_size_card:
  assumes "txs_wf txs"
  shows "group_size txs g = card (dom (\<lambda>i. map_option f (member txs g i)))"
proof (cases "hm_get txs g")
  case None
  then show ?thesis by (simp add: group_size_def member_def dom_def)
next
  case (Some local)
  have "distinct (map fst local)" using txs_wf_local [OF assms Some] by (simp add: hm_wf_def)
  then have "card (dom (map_of local)) = length local"
    using distinct_card [of "map fst local"] by (simp add: dom_map_of_conv_image_fst)
  moreover have "dom (\<lambda>i. map_option f (member txs g i)) = dom (map_of local)"
    using Some by (auto simp: member_def hm_get_def dom_def)
  ultimately show ?thesis using Some by (simp add: group_size_def hm_len_def hm_entries_def)
qed

lemma dir_size_of: "app_wf a \<Longrightarrow> dir_size (dir_of_app G a) g = group_size (as_tx_map a) g"
  by (simp add: dir_size_def dir_of_app_def app_wf_def group_size_card [of _ _ cs_client])

subsection \<open>The critical sections\<close>

lemma connect_rejected_dir:
  "app_wf a \<Longrightarrow> connect_section L a g peer tx = (a', None) \<Longrightarrow> dir_of_app G a' = dir_of_app G a"
  using connect_section_rejected(2,5) [of a L g peer tx a'] by (intro dir_ext) simp_all

lemma connect_accepted_dir:
  assumes "app_wf a" "connect_section L a g peer tx = (a', Some q)" "member (as_tx_map a) g (ci_id peer) = None"
    and "\<not> G (ci_id peer)"
  shows "dir_step L (dir_of_app G a) (dir_of_app G a')"
proof -
  obtain ts ps where q: "q = (ts, ps)" by (cases q)
  note acc = connect_section_accepted [OF assms(1) assms(2) [unfolded q]]
  have "dir_of_app G a' = use_request g (list_client g (ci_id peer) (Some (without_id peer)) (dir_of_app G a))"
    using acc(2,5) unat_succ_below [OF acc(4)] by (intro dir_ext) (auto simp: dir_ops)
  moreover have "dir_size (dir_of_app G a) g < unat (MAX_CONNECTIONS L)"
    "d_used (dir_of_app G a) g < unat (MAX_REQUESTS L)" "d_clients (dir_of_app G a) g (ci_id peer) = None"
    using acc(3,4) assms by (simp_all add: dir_size_of word_less_nat_alt)
  ultimately show ?thesis using assms(4) by (simp add: dir_step.join)
qed

lemma count_dir:
  assumes cnt: "hm_wf (as_request_count_map a)" and listed: "member (as_tx_map a) g i \<noteq> None" and G: "\<not> G i"
    and run: "protect_ddos_request_count L (as_request_count_map a) g = (counts, r)"
  shows "if is_ok r
    then dir_step L (dir_of_app G a) (dir_of_app (G(i := True)) (a\<lparr>as_request_count_map := counts\<rparr>))
    else dir_of_app G (a\<lparr>as_request_count_map := counts\<rparr>) = dir_of_app G a"
proof (cases "is_ok r")
  case True
  note c = protect_ddos_cases [OF cnt, of L g, unfolded run fst_conv snd_conv]
  then have lt: "request_count (as_request_count_map a) g < MAX_REQUESTS L" using True by simp
  have "dir_of_app (G(i := True)) (a\<lparr>as_request_count_map := counts\<rparr>) = use_request g (grant i True (dir_of_app G a))"
    using c(2) lt unat_succ_below [OF lt] by (intro dir_ext) (auto simp: dir_ops)
  moreover have "d_used (dir_of_app G a) g < unat (MAX_REQUESTS L)" using lt by (simp add: word_less_nat_alt)
  ultimately show ?thesis using True listed G by (simp add: dir_step.request)
next
  case False
  note c = protect_ddos_cases [OF cnt, of L g, unfolded run fst_conv snd_conv]
  then show ?thesis using False by (simp, intro dir_ext) simp_all
qed

lemma dispatch_dir:
  assumes tw: "txs_wf (as_tx_map a)" and listed: "member (as_tx_map a) g (ci_id peer) \<noteq> None" and G: "G (ci_id peer)"
    and run: "dispatch_client_message (as_tx_map a) g peer msg = (txs, out)"
  shows "dir_step L (dir_of_app G a) (dir_of_app (G(ci_id peer := False)) (a\<lparr>as_tx_map := txs\<rparr>))"
proof (cases "\<exists>info. msg = CUpdate info")
  case True
  then obtain info where "msg = CUpdate info" by blast
  then have u: "send_update_to_other_peers_with_lock (as_tx_map a) g (ci_id peer) info = (txs, out)"
    using run by (simp add: dispatch_client_message_def)
  have "dir_of_app (G(ci_id peer := False)) (a\<lparr>as_tx_map := txs\<rparr>) =
      grant (ci_id peer) False (list_client g (ci_id peer) (Some info) (dir_of_app G a))"
    using send_update_facts(3) [OF tw u] listed by (intro dir_ext) (auto simp: dir_ops)
  then show ?thesis using listed G by (simp add: dir_step.update)
next
  case False
  then have "txs = as_tx_map a" using run by (cases msg) (auto simp: dispatch_client_message_def)
  then have "dir_of_app (G(ci_id peer := False)) (a\<lparr>as_tx_map := txs\<rparr>) = grant (ci_id peer) False (dir_of_app G a)"
    by (intro dir_ext) (simp_all add: dir_ops)
  then show ?thesis using listed G dir_step.signal [of "dir_of_app G a" g "ci_id peer" L] by simp
qed

lemma disconnect_dir:
  assumes "txs_wf (as_tx_map a)" "disconnect_section (as_tx_map a) g i = (txs, ts)" "member (as_tx_map a) g i \<noteq> None"
  shows "dir_step L (dir_of_app G a) (dir_of_app (G(i := False)) (a\<lparr>as_tx_map := txs\<rparr>))"
proof -
  have "dir_of_app (G(i := False)) (a\<lparr>as_tx_map := txs\<rparr>) = list_client g i None (grant i False (dir_of_app G a))"
    using disconnect_facts(2) [OF assms(1,2)] by (intro dir_ext) (auto simp: dir_ops)
  then show ?thesis using dir_step.leave [of "dir_of_app G a" g i L] assms(3) by simp
qed

subsection \<open>The system\<close>

lemma server_step_dir:
  assumes inv: "sys_inv L s" and step: "server_step W L s t"
  shows "dir_of t = dir_of s \<or> dir_step L (dir_of s) (dir_of t)"
proof -
  have wf: "app_wf (sy_app s)" and ag: "agree s" and un: "unique_ids s" using inv by (simp_all add: sys_inv_def)
  then have tw: "txs_wf (as_tx_map (sy_app s))" and cw: "hm_wf (as_request_count_map (sy_app s))"
    by (simp_all add: app_wf_def)
  have listed: "member (as_tx_map (sy_app s)) (cn_group k) (ci_id (cn_peer k)) \<noteq> None"
    if "sy_conns s c = Some k" "cn_phase k = Running" for c k
    using agreeD2 [OF ag that(1)] that(2) by (auto simp: up_def)
  have grants: "granted ((sy_conns s)(c \<mapsto> k')) = (granted (sy_conns s))(ci_id (cn_peer k) := cn_handling k' \<noteq> None)"
    if "sy_conns s c = Some k" "cn_peer k' = cn_peer k" for c k k'
    using granted_upd [OF un that] by (auto simp: fun_eq_iff)
  have kept: "granted ((sy_conns s)(c \<mapsto> k')) = granted (sy_conns s)"
    if "sy_conns s c = Some k" "cn_peer k' = cn_peer k" "cn_handling k' = cn_handling k" for c k k'
    using grants [OF that(1,2)] that(3) granted_own [OF un that(1)] by (simp add: fun_upd_idem)
  from step show ?thesis
  proof (cases rule: server_step.cases)
    case (connect c peer g)
    obtain app r where sec: "connect_section L (sy_app s) g peer c = (app, r)" by fastforce
    have free: "member (as_tx_map (sy_app s)) g (ci_id peer) = None"
      using connect(3) agreeD1 [OF ag] by (cases "member (as_tx_map (sy_app s)) g (ci_id peer)") blast+
    have none: "\<not> granted (sy_conns s) (ci_id peer)" using connect(3) by (auto simp: granted_def)
    have new: "granted ((sy_conns s)(c \<mapsto> k)) = granted (sy_conns s)" if "cn_handling k = None" for k
    proof
      fix i
      show "granted ((sy_conns s)(c \<mapsto> k)) i = granted (sy_conns s) i"
        using connect(2) that unfolding granted_def by (metis fun_upd_apply option.distinct(1) option.inject)
    qed
    show ?thesis
      using connect_rejected_dir [OF wf]
        connect_accepted_dir [where a = "sy_app s" and G = "granted (sy_conns s)", OF wf _ free none] sec connect(1)
      by (cases r) (auto simp: dir_of_def step_connect_def new)
  next
    case (deliver c k)
    then show ?thesis
      by (auto simp: dir_of_def step_deliver_def kept split: list.splits)
  next
    case (receive c k inp)
    show ?thesis
    proof (cases "read_client_message W inp")
      case None
      then show ?thesis using receive(1,2) by (simp add: step_receive_def)
    next
      case (Some msg)
      obtain counts r where p: "protect_ddos_request_count L (as_request_count_map (sy_app s)) (cn_group k) = (counts, r)"
        by fastforce
      note run = step_receive_run [OF receive(2) Some p]
      have none: "\<not> granted (sy_conns s) (ci_id (cn_peer k))" using granted_own [OF un receive(2)] receive(5) by simp
      then have same: "(granted (sy_conns s))(ci_id (cn_peer k) := False) = granted (sy_conns s)" by (simp add: fun_upd_idem)
      note sec = count_dir [where a = "sy_app s" and G = "granted (sy_conns s)", OF cw listed [OF receive(2,3)] none p]
      show ?thesis
        using sec receive by (cases "is_ok r") (simp_all add: dir_of_def run grants same)
    qed
  next
    case (handle c k)
    then obtain msg where msg: "cn_handling k = Some msg" by blast
    obtain txs out where d: "dispatch_client_message (as_tx_map (sy_app s)) (cn_group k) (cn_peer k) msg = (txs, out)"
      by fastforce
    have "granted (sy_conns s) (ci_id (cn_peer k))" using granted_own [OF un handle(2)] msg by simp
    from dispatch_dir [where a = "sy_app s" and G = "granted (sy_conns s)", OF tw listed [OF handle(2,3)] this d, of L]
    show ?thesis using handle(1,2) by (simp add: dir_of_def step_handle_run [OF handle(2) msg d] grants)
  next
    case (disconnect c k)
    obtain txs ts where d: "disconnect_section (as_tx_map (sy_app s)) (cn_group k) (ci_id (cn_peer k)) = (txs, ts)"
      by fastforce
    show ?thesis
      using disconnect_dir [OF tw d listed [OF disconnect(2,3)], of L "granted (sy_conns s)"] disconnect(1,2) d
      by (simp add: dir_of_def step_disconnect_def grants)
  next
    case hour
    have "dir_of t = (dir_of s)\<lparr>d_used := (\<lambda>_. 0)\<rparr>"
      by (simp add: hour dir_of_def dir_of_app_def step_hour_def clear_request_counts_def request_count_def hm)
    then show ?thesis by (simp add: dir_step.hour)
  qed
qed

lemma dir_of_init: "dir_of sys_init = dir_init"
  by (simp add: dir_of_def dir_of_app_def dir_init_def sys_init_def app_state_new_def member_def request_count_def
      granted_def fun_eq_iff hm)

end
