(* ===== verification/Ws_Delivery.thy ===== *)
theory Ws_Delivery
  imports Ws_Invariant "HOL-Library.Sublist"
begin

section \<open>The server's announcements arrive\<close>

text \<open>
  Sends of the connections' tasks alone bring every message under way to its channel: the
  number of messages under way goes down with each of them.
\<close>

definition deliver_step :: "sys \<Rightarrow> sys \<Rightarrow> bool" where
  "deliver_step s t \<longleftrightarrow> (\<exists>c k. sy_conns s c = Some k \<and> cn_pending k \<noteq> [] \<and> t = step_deliver c s)"

definition underway :: "sys \<Rightarrow> nat" where
  "underway s = (\<Sum>c \<in> dom (sy_conns s). length (cn_pending (the (sy_conns s c))))"

text \<open>Finitely many connections, and one that announces itself has something left to send.\<close>

definition conns_wf :: "sys \<Rightarrow> bool" where
  "conns_wf s \<longleftrightarrow> finite (dom (sy_conns s)) \<and>
     (\<forall>c k. sy_conns s c = Some k \<and> cn_phase k = Announcing \<longrightarrow> cn_pending k \<noteq> [])"

lemma conns_wf_upd:
  assumes "conns_wf s" "sy_conns t = (sy_conns s)(c \<mapsto> k)" "cn_phase k = Announcing \<Longrightarrow> cn_pending k \<noteq> []"
  shows "conns_wf t"
  using assms by (auto simp: conns_wf_def split: if_splits)

lemma conns_wf_same: "conns_wf s \<Longrightarrow> sy_conns t = sy_conns s \<Longrightarrow> conns_wf t"
  unfolding conns_wf_def by metis

lemma step_deliver_run:
  assumes "sy_conns s c = Some k" "cn_pending k = (u, m) # ps"
  shows "sy_conns (step_deliver c s) = (sy_conns s)(c \<mapsto> k\<lparr>cn_pending := ps,
      cn_phase := (if cn_phase k = Announcing \<and> ps = [] then Running else cn_phase k)\<rparr>)"
    "sy_inbox (step_deliver c s) = (sy_inbox s)(u := sy_inbox s u @ [(c, m)])"
    "sy_app (step_deliver c s) = sy_app s"
  using assms by (simp_all add: step_deliver_def)

lemma conns_wf_deliver: "conns_wf s \<Longrightarrow> conns_wf (step_deliver c s)"
proof (cases "\<exists>k u m ps. sy_conns s c = Some k \<and> cn_pending k = (u, m) # ps")
  case True
  then obtain k u m ps where k: "sy_conns s c = Some k" "cn_pending k = (u, m) # ps" by blast
  show "conns_wf s \<Longrightarrow> conns_wf (step_deliver c s)"
    by (erule conns_wf_upd [OF _ step_deliver_run(1) [OF k]]) (auto split: if_splits)
next
  case False
  then have "step_deliver c s = s" by (auto simp: step_deliver_def split: option.splits list.splits)
  then show "conns_wf s \<Longrightarrow> conns_wf (step_deliver c s)" by simp
qed

lemma server_step_conns_wf: "server_step W L s t \<Longrightarrow> conns_wf s \<Longrightarrow> conns_wf t"
proof (induction rule: server_step.induct)
  case (connect s c peer g)
  obtain app r where sec: "connect_section L (sy_app s) g peer c = (app, r)" by fastforce
  show ?case
  proof (cases r)
    case None
    then show ?thesis by (intro conns_wf_same [OF connect.prems]) (simp add: step_connect_def sec)
  next
    case (Some q)
    then show ?thesis
      by (intro conns_wf_upd [OF connect.prems, where c = c and k =
          "\<lparr>cn_group = g, cn_peer = peer, cn_phase = Announcing, cn_pending = announce peer c q, cn_handling = None, cn_reading = True\<rparr>"])
        (simp_all add: step_connect_def announce_def sec)
  qed
next
  case (deliver s c k)
  then show ?case by (simp add: conns_wf_deliver)
next
  case (receive s c k inp)
  show ?case
  proof (cases "read_client_message W inp")
    case None
    then show ?thesis using receive by (simp add: step_receive_def)
  next
    case (Some msg)
    obtain counts r where p: "protect_ddos_request_count L (as_request_count_map (sy_app s)) (cn_group k) = (counts, r)"
      by fastforce
    show ?thesis
      by (rule conns_wf_upd [OF receive.prems step_receive_run(1) [OF receive(1) Some p]]) (use receive in \<open>auto split: if_splits\<close>)
  qed
next
  case (handle s c k)
  then obtain msg where msg: "cn_handling k = Some msg" by blast
  obtain txs out where d: "dispatch_client_message (as_tx_map (sy_app s)) (cn_group k) (cn_peer k) msg = (txs, out)"
    by fastforce
  show ?case
    by (rule conns_wf_upd [OF handle.prems step_handle_run(1) [OF handle(1) msg d]]) (use handle in simp)
next
  case (disconnect s c k)
  obtain txs ts where d: "disconnect_section (as_tx_map (sy_app s)) (cn_group k) (ci_id (cn_peer k)) = (txs, ts)"
    by fastforce
  show ?case
    by (rule conns_wf_upd [OF disconnect.prems, where c = c and k =
          "k\<lparr>cn_phase := Leaving, cn_handling := None, cn_reading := False, cn_pending := farewell (ci_id (cn_peer k)) ts\<rparr>"])
      (use disconnect d in \<open>simp_all add: step_disconnect_def\<close>)
next
  case (hour s)
  show ?case by (rule conns_wf_same [OF hour.prems]) (simp add: step_hour_def)
qed

lemma reachable_conns_wf: "reachable W L s \<Longrightarrow> conns_wf s"
proof (induction rule: reachable.induct)
  case init
  show ?case by (simp add: conns_wf_def sys_init_def)
qed (rule server_step_conns_wf)

lemma deliver_step_server: "deliver_step s t \<Longrightarrow> server_step W L s t"
  unfolding deliver_step_def by (auto intro: server_step.deliver)

lemma underway_decreases:
  assumes "conns_wf s" "sy_conns s c = Some k" "cn_pending k = (u, m) # ps"
  shows "underway (step_deliver c s) < underway s"
proof -
  have dom: "dom (sy_conns (step_deliver c s)) = dom (sy_conns s)"
    using step_deliver_run(1) [OF assms(2,3)] assms(2) by auto
  have "finite (dom (sy_conns s))" using assms(1) by (simp add: conns_wf_def)
  then show ?thesis
    unfolding underway_def dom
    by (rule sum_strict_mono_ex1) (use assms(2,3) step_deliver_run(1) [OF assms(2,3)] in auto)
qed

text \<open>Nothing is under way any more.\<close>

definition quiescent :: "sys \<Rightarrow> bool" where
  "quiescent s \<longleftrightarrow> (\<forall>c k. sy_conns s c = Some k \<longrightarrow> cn_pending k = [] \<and> cn_phase k \<noteq> Announcing)"

definition arrived :: "sys \<Rightarrow> sys \<Rightarrow> bool" where
  "arrived s t \<longleftrightarrow> sy_app t = sy_app s \<and> (\<forall>u. prefix (sy_inbox s u) (sy_inbox t u)) \<and>
     (\<forall>c k u m. sy_conns s c = Some k \<and> (u, m) \<in> set (cn_pending k) \<longrightarrow> (c, m) \<in> set (sy_inbox t u))"

lemma arrived_step:
  assumes k: "sy_conns s c = Some k" "cn_pending k = (u, m) # ps" and rest: "arrived (step_deliver c s) t"
  shows "arrived s t"
proof -
  note run = step_deliver_run [OF k]
  have inbox: "prefix (sy_inbox s v) (sy_inbox t v)" for v
  proof -
    have "prefix (sy_inbox s v) (sy_inbox (step_deliver c s) v)" by (simp add: run(2))
    moreover have "prefix (sy_inbox (step_deliver c s) v) (sy_inbox t v)" using rest by (simp add: arrived_def)
    ultimately show ?thesis by (rule prefix_order.trans)
  qed
  moreover have "(c, m) \<in> set (sy_inbox t u)"
  proof -
    have "prefix (sy_inbox s u @ [(c, m)]) (sy_inbox t u)"
      using rest run(2) unfolding arrived_def by (metis fun_upd_same)
    then show ?thesis by (auto dest: set_mono_prefix)
  qed
  moreover have "(d, n) \<in> set (sy_inbox t v)" if "sy_conns s d = Some l" "(v, n) \<in> set (cn_pending l)" "\<not> (d = c \<and> v = u \<and> n = m)" for d l v n
  proof -
    have "\<exists>l'. sy_conns (step_deliver c s) d = Some l' \<and> (v, n) \<in> set (cn_pending l')"
      using that k run(1) by (cases "d = c") auto
    then show ?thesis using rest unfolding arrived_def by blast
  qed
  ultimately show ?thesis
    using rest run(3) unfolding arrived_def by metis
qed

lemma all_arrive:
  "conns_wf s \<Longrightarrow> \<exists>t. deliver_step\<^sup>*\<^sup>* s t \<and> quiescent t \<and> arrived s t"
proof (induction "underway s" arbitrary: s rule: less_induct)
  case less
  show ?case
  proof (cases "\<exists>c k u m ps. sy_conns s c = Some k \<and> cn_pending k = (u, m) # ps")
    case True
    then obtain c k u m ps where k: "sy_conns s c = Some k" "cn_pending k = (u, m) # ps" by blast
    from less.hyps [OF underway_decreases [OF less.prems k] conns_wf_deliver [OF less.prems]]
    obtain t where t: "deliver_step\<^sup>*\<^sup>* (step_deliver c s) t" "quiescent t" "arrived (step_deliver c s) t" by blast
    have "deliver_step s (step_deliver c s)"
      unfolding deliver_step_def by (rule exI [of _ c], rule exI [of _ k]) (simp add: k)
    then show ?thesis using t arrived_step [OF k] by (meson converse_rtranclp_into_rtranclp)
  next
    case False
    then have none: "cn_pending k = []" if "sy_conns s c = Some k" for c k
      using that by (cases "cn_pending k") auto
    then have "quiescent s" "arrived s s"
      using less.prems by (fastforce simp: quiescent_def conns_wf_def, fastforce simp: arrived_def)
    then show ?thesis by blast
  qed
qed

end
