(* ===== verification/Offer_Exchange.thy ===== *)
theory Offer_Exchange
  imports Rtc_Negotiation Ws_Invariant Signaling_Connection
begin

section \<open>An offer and its answer over the signaling server\<close>

text \<open>
  The negotiation of both sides, the two connections to the server, and the server between
  them, put together: the offer one side makes reaches the other, whose answer reaches the
  callback the first side has registered.
\<close>

subsection \<open>One message through the server\<close>

definition idle :: "conn \<Rightarrow> bool" where
  "idle k \<longleftrightarrow> cn_phase k = Running \<and> cn_pending k = [] \<and> cn_handling k = None \<and> cn_reading k"

text \<open>The server's steps for a message of a client: it is counted, handled, and passed on.\<close>

definition client_sends :: "wire \<Rightarrow> limits \<Rightarrow> nat \<Rightarrow> ws_client_message \<Rightarrow> sys \<Rightarrow> sys" where
  "client_sends W L c m s =
     step_deliver c (step_handle c
       (step_receive W L c (WsText (to_json_string W (enc_ws_client_message W) m)) s))"

text \<open>A message in a client's channel, written to its socket and read there.\<close>

definition over_socket :: "wire \<Rightarrow> ws_server_message \<Rightarrow> ws_server_message list" where
  "over_socket W m = snd (reader W (map (\<lambda>t. (InText t, False)) (Ws_Server.send_task W [(m, True)])))"

lemma over_socket_sdp:
  "wire_format W \<Longrightarrow> over_socket W (SOffer m) = [SOffer m]"
  "wire_format W \<Longrightarrow> over_socket W (SAnswer m) = [SAnswer m]"
  using reader_messages [of W "[SOffer m]" False "[]"] reader_messages [of W "[SAnswer m]" False "[]"]
  by (simp_all add: over_socket_def)

lemma sdp_delivered:
  assumes W: "wire_format W" and inv: "sys_inv L s"
    and a: "sy_conns s a = Some ka" "idle ka" and b: "sy_conns s b = Some kb" "up kb"
    and grp: "cn_group kb = cn_group ka"
    and below: "request_count (as_request_count_map (sy_app s)) (cn_group ka) < MAX_REQUESTS L"
    and target: "cm_target sdp = ci_id (cn_peer kb)"
    and kind: "msg = COffer sdp \<and> f = SOffer \<or> msg = CAnswer sdp \<and> f = SAnswer"
  shows "sy_conns (client_sends W L a msg s) = sy_conns s"
    "sy_inbox (client_sends W L a msg s) = (sy_inbox s)(b := sy_inbox s b @
       [(a, f \<lparr>sm_peer = cn_peer ka, sm_session_id = cm_session_id sdp, sm_sdp = cm_sdp sdp\<rparr>)])"
    "request_count (as_request_count_map (sy_app (client_sends W L a msg s))) (cn_group ka) =
       request_count (as_request_count_map (sy_app s)) (cn_group ka) + 1"
    "(server_step W L)\<^sup>*\<^sup>* s (client_sends W L a msg s)"
proof -
  let ?fwd = "f \<lparr>sm_peer = cn_peer ka, sm_session_id = cm_session_id sdp, sm_sdp = cm_sdp sdp\<rparr>"
  let ?in = "WsText (to_json_string W (enc_ws_client_message W) msg)"
  let ?r = "step_receive W L a ?in s"
  let ?h = "step_handle a ?r"
  have wf: "app_wf (sy_app s)" and ag: "agree s" using inv by (simp_all add: sys_inv_def)
  then have cnt: "hm_wf (as_request_count_map (sy_app s))" by (simp add: app_wf_def)
  obtain st where st: "member (as_tx_map (sy_app s)) (cn_group ka) (cm_target sdp) = Some st" "cs_tx st = b"
    using agreeD2 [OF ag b] grp target by auto
  obtain counts r where p: "protect_ddos_request_count L (as_request_count_map (sy_app s)) (cn_group ka) = (counts, r)"
    by fastforce
  note c = protect_ddos_cases [OF cnt, of L "cn_group ka", unfolded p fst_conv snd_conv]
  then have ok: "is_ok r" using below by simp
  have "from_json_slice W (dec_ws_client_message W) (to_json_string W (enc_ws_client_message W) msg) = Some msg"
    by (rule from_json_slice_codec [OF W]) (rule dec_enc_ws_client_message [OF W])
  then have "read_client_message W ?in = Some msg" by (simp add: read_client_message_def)
  note run1 = step_receive_run [OF a(1) this p]
  have k1: "sy_conns ?r a = Some (ka\<lparr>cn_handling := Some msg\<rparr>)" using run1(1) ok by simp
  have d: "dispatch_client_message (as_tx_map (sy_app ?r)) (cn_group (ka\<lparr>cn_handling := Some msg\<rparr>))
      (cn_peer (ka\<lparr>cn_handling := Some msg\<rparr>)) msg = (as_tx_map (sy_app s), [(b, ?fwd)])"
    using kind st by (auto simp: run1 dispatch_client_message_def send_to_peer_alt sdp_target_def sdp_message_for_def)
  have "cn_handling (ka\<lparr>cn_handling := Some msg\<rparr>) = Some msg" by simp
  note run2 = step_handle_run [OF k1 this d, simplified]
  have k2: "sy_conns ?h a = Some (ka\<lparr>cn_pending := [(b, ?fwd)], cn_handling := None\<rparr>)" using run2(1) by simp
  have sends: "client_sends W L a msg s = step_deliver a ?h" by (simp add: client_sends_def)
  have ka: "ka\<lparr>cn_pending := [], cn_handling := None\<rparr> = ka" using a(2) by (simp add: idle_def)
  show "sy_conns (client_sends W L a msg s) = sy_conns s"
    using a k2 run1(1) run2(1) ok ka unfolding sends by (auto simp: step_deliver_def idle_def fun_eq_iff)
  show "sy_inbox (client_sends W L a msg s) = (sy_inbox s)(b := sy_inbox s b @ [(a, ?fwd)])"
    using k2 run1(3) run2(3) unfolding sends by (simp add: step_deliver_def)
  show "request_count (as_request_count_map (sy_app (client_sends W L a msg s))) (cn_group ka) =
      request_count (as_request_count_map (sy_app s)) (cn_group ka) + 1"
    using k2 run1(2) run2(2) c(2) [of "cn_group ka"] below unfolding sends by (simp add: step_deliver_def)
  have "server_step W L s ?r" using a by (intro server_step.receive [where k = ka]) (simp_all add: idle_def)
  moreover have "server_step W L ?r ?h"
    using a by (intro server_step.handle [OF k1]) (simp_all add: idle_def)
  moreover have "server_step W L ?h (client_sends W L a msg s)"
    unfolding sends by (rule server_step.deliver [OF k2]) simp
  ultimately show "(server_step W L)\<^sup>*\<^sup>* s (client_sends W L a msg s)"
    by (meson r_into_rtranclp rtranclp_trans)
qed

subsection \<open>Both sides negotiate\<close>

lemma negotiations_meet:
  assumes W: "wire_format W" and Z: "zlib_library Z"
    and wa: "smooth wa" "local_sdp wa = Some sa" "valid_utf8 sa" "nego_calls wa = []"
    and wb: "smooth wb" "local_sdp wb = Some sb" "valid_utf8 sb" "nego_calls wb = []"
  obtains wa' wb' where
    "send_offer W Z stun_a target (wa\<lparr>answer := Some (encode_sdp W Z sb)\<rparr>) = (Ok (), wa')"
    "NOffer (new_session_id wa) target (encode_sdp W Z sa) \<in> set (nego_calls wa')" "NRemote sb \<in> set (nego_calls wa')"
    "accept_offer W Z stun_b sid peer (encode_sdp W Z sa) wb = (Ok (), wb')"
    "NAnswer sid peer (encode_sdp W Z sb) \<in> set (nego_calls wb')" "NRemote sa \<in> set (nego_calls wb')"
proof -
  have da: "decode_sdp W Z (encode_sdp W Z sa) = Inr sa" by (rule decode_encode_sdp [OF W Z wa(3)])
  have db: "decode_sdp W Z (encode_sdp W Z sb) = Inr sb" by (rule decode_encode_sdp [OF W Z wb(3)])
  let ?wa = "wa\<lparr>answer := Some (encode_sdp W Z sb)\<rparr>"
  have smooth: "smooth ?wa" using wa(1) by (simp add: smooth_def)
  have "local_sdp ?wa = Some sa" "answer ?wa = Some (encode_sdp W Z sb)" using wa(2) by simp_all
  from send_offer_smooth [OF smooth this db]
  obtain wa' where ra: "send_offer W Z stun_a target ?wa = (Ok (), wa')" by blast
  have ca: "NOffer (new_session_id wa) target (encode_sdp W Z sa) \<in> set (nego_calls wa')" "NRemote sb \<in> set (nego_calls wa')"
    by (rule send_offer_Ok [OF ra]; use wa db in simp)+
  obtain wb' where rb: "accept_offer W Z stun_b sid peer (encode_sdp W Z sa) wb = (Ok (), wb')"
    using accept_offer_smooth [OF wb(1,2) da] by blast
  have cb: "NAnswer sid peer (encode_sdp W Z sb) \<in> set (nego_calls wb')" "NRemote sa \<in> set (nego_calls wb')"
    by (rule accept_offer_Ok [OF rb wb(4)]; use wb da in simp)+
  show thesis by (rule that [OF ra ca rb cb])
qed

subsection \<open>There and back\<close>

lemma sdp_exchange:
  assumes W: "wire_format W"
    and sys: "reachable W L s" "sy_conns s a = Some ka" "idle ka" "sy_conns s b = Some kb" "idle kb" "a \<noteq> b"
    and grp: "cn_group kb = cn_group ka"
    and below: "unat (request_count (as_request_count_map (sy_app s)) (cn_group ka)) + 2 \<le> unat (MAX_REQUESTS L)"
    and s1: "s1 = client_sends W L a (COffer \<lparr>cm_session_id = sid, cm_target = ci_id (cn_peer kb), cm_sdp = x\<rparr>) s"
    and s2: "s2 = client_sends W L b (CAnswer \<lparr>cm_session_id = sid, cm_target = ci_id (cn_peer ka), cm_sdp = y\<rparr>) s1"
  shows "sy_inbox s1 b = sy_inbox s b @ [(a, SOffer \<lparr>sm_peer = cn_peer ka, sm_session_id = sid, sm_sdp = x\<rparr>)]"
    "sy_inbox s2 a = sy_inbox s a @ [(b, SAnswer \<lparr>sm_peer = cn_peer kb, sm_session_id = sid, sm_sdp = y\<rparr>)]"
    "reachable W L s2"
proof -
  let ?g = "cn_group ka"
  let ?om = "\<lparr>cm_session_id = sid, cm_target = ci_id (cn_peer kb), cm_sdp = x\<rparr>"
  let ?am = "\<lparr>cm_session_id = sid, cm_target = ci_id (cn_peer ka), cm_sdp = y\<rparr>"
  have up: "up ka" "up kb" using sys(3,5) by (simp_all add: idle_def up_def)
  have lt: "request_count (as_request_count_map (sy_app s)) ?g < MAX_REQUESTS L"
    using below by (simp add: word_less_nat_alt)
  have to_b: "cm_target ?om = ci_id (cn_peer kb)" and to_a: "cm_target ?am = ci_id (cn_peer ka)" by simp_all
  note d1 = sdp_delivered [OF W reachable_inv [OF sys(1)] sys(2,3,4) up(2) grp lt to_b disjI1 [OF conjI [OF refl refl]],
      folded s1]
  have i1: "sy_inbox s1 = (sy_inbox s)(b := sy_inbox s b @ [(a, SOffer \<lparr>sm_peer = cn_peer ka, sm_session_id = sid, sm_sdp = x\<rparr>)])"
    using d1(2) by simp
  have r1: "reachable W L s1" by (rule reachable_steps [OF sys(1) d1(4)])
  have "request_count (as_request_count_map (sy_app s1)) ?g = request_count (as_request_count_map (sy_app s)) ?g + 1"
    using d1(3) by simp
  then have lt1: "request_count (as_request_count_map (sy_app s1)) (cn_group kb) < MAX_REQUESTS L"
    using below unat_succ_below [OF lt] grp by (simp add: word_less_nat_alt)
  have b1: "sy_conns s1 b = Some kb" "sy_conns s1 a = Some ka" using d1(1) sys(2,4) by simp_all
  note d2 = sdp_delivered [OF W reachable_inv [OF r1] b1(1) sys(5) b1(2) up(1) grp [symmetric] lt1
      to_a disjI2 [OF conjI [OF refl refl]], folded s2]
  show "sy_inbox s1 b = sy_inbox s b @ [(a, SOffer \<lparr>sm_peer = cn_peer ka, sm_session_id = sid, sm_sdp = x\<rparr>)]"
    by (simp add: i1)
  show "sy_inbox s2 a = sy_inbox s a @ [(b, SAnswer \<lparr>sm_peer = cn_peer kb, sm_session_id = sid, sm_sdp = y\<rparr>)]"
    using d2(2) i1 sys(6) by simp
  show "reachable W L s2" by (rule reachable_steps [OF r1 d2(4)])
qed

end
