(* ===== verification/Signaling_Correct.thy ===== *)
theory Signaling_Correct
  imports Ws_Refinement Ws_Delivery Offer_Exchange
begin

section \<open>Signaling: properties\<close>

text \<open>
  The claims about the signaling server, as a system of concurrent connections and handler
  by handler, and about the client's end of a connection.
\<close>

subsection \<open>A small system for the witnesses\<close>

definition demo_limits :: limits where
  "demo_limits = \<lparr>MAX_CONNECTIONS = 2, MAX_REQUESTS = 5\<rparr>"

definition demo_info :: "string \<Rightarrow> client_info_without_id" where
  "demo_info a = \<lparr>cw_alias = a, cw_version = ''2.3'', cw_device_model = None, cw_device_type = None, cw_token = ''t''\<rparr>"

definition demo_peer :: "uuid \<Rightarrow> client_info" where
  "demo_peer i = client_info_from (demo_info ''a'') i"

text \<open>One client in the group, a second one joins, and its first message is delivered.\<close>

definition demo_joined :: sys where
  "demo_joined = step_deliver 1 (step_connect demo_limits 1 ''g'' (demo_peer 8)
     (step_connect demo_limits 0 ''g'' (demo_peer 7) sys_init))"

lemmas demo_connect = step_connect_def connect_section_def sys_init_def app_state_new_def demo_limits_def
  hm_or_insert_def hm_get_def hm_insert_def hm_empty_def hm_len_def hm_entries_def hm_values_def
  protect_ddos_request_count_def announce_def demo_peer_def is_ok_def

lemma demo_peer_id [simp]: "ci_id (demo_peer i) = i"
  by (simp add: demo_peer_def)

lemma demo_below: "\<not> (5 :: u32) \<le> 1"
  by code_simp

lemma demo_first: "step_connect demo_limits 0 ''g'' (demo_peer 7) sys_init =
  \<lparr>sy_app = \<lparr>as_tx_map = [(''g'', [(7, \<lparr>cs_client = demo_info ''a'', cs_tx = 0\<rparr>)])],
      as_request_count_map = [(''g'', 1)]\<rparr>,
   sy_conns = [0 \<mapsto> \<lparr>cn_group = ''g'', cn_peer = demo_peer 7, cn_phase = Announcing,
      cn_pending = [(0, SHello (demo_peer 7) [])], cn_handling = None, cn_reading = True\<rparr>],
   sy_inbox = (\<lambda>_. [])\<rparr>"
  by (simp add: demo_connect)

lemma demo_second: "step_connect demo_limits 1 ''g'' (demo_peer 8) (step_connect demo_limits 0 ''g'' (demo_peer 7) sys_init) =
  \<lparr>sy_app = \<lparr>as_tx_map = [(''g'', [(7, \<lparr>cs_client = demo_info ''a'', cs_tx = 0\<rparr>), (8, \<lparr>cs_client = demo_info ''a'', cs_tx = 1\<rparr>)])],
      as_request_count_map = [(''g'', 2)]\<rparr>,
   sy_conns = [0 \<mapsto> \<lparr>cn_group = ''g'', cn_peer = demo_peer 7, cn_phase = Announcing,
      cn_pending = [(0, SHello (demo_peer 7) [])], cn_handling = None, cn_reading = True\<rparr>,
      1 \<mapsto> \<lparr>cn_group = ''g'', cn_peer = demo_peer 8, cn_phase = Announcing,
      cn_pending = [(0, SJoin (demo_peer 8)), (1, SHello (demo_peer 8) [demo_peer 7])], cn_handling = None, cn_reading = True\<rparr>],
   sy_inbox = (\<lambda>_. [])\<rparr>"
  unfolding demo_first by (simp add: demo_connect demo_below)

lemma demo_joined_sel:
  "sy_app demo_joined = \<lparr>as_tx_map = [(''g'', [(7, \<lparr>cs_client = demo_info ''a'', cs_tx = 0\<rparr>), (8, \<lparr>cs_client = demo_info ''a'', cs_tx = 1\<rparr>)])],
      as_request_count_map = [(''g'', 2)]\<rparr>"
  "sy_inbox demo_joined 0 = [(1, SJoin (demo_peer 8))]"
  "\<exists>k. sy_conns demo_joined 0 = Some k \<and> up k \<and> cn_group k = ''g''"
  unfolding demo_joined_def demo_second by (simp_all add: step_deliver_def up_def)

lemma demo_reachable: "reachable W demo_limits demo_joined"
proof -
  have "reachable W demo_limits (step_connect demo_limits 0 ''g'' (demo_peer 7) sys_init)"
    by (rule reachable.step [OF reachable.init server_step.connect]) (simp_all add: sys_init_def)
  then have "reachable W demo_limits (step_connect demo_limits 1 ''g'' (demo_peer 8)
      (step_connect demo_limits 0 ''g'' (demo_peer 7) sys_init))"
    by (rule reachable.step [OF _ server_step.connect]) (auto simp: demo_first split: if_splits)
  then show ?thesis
    unfolding demo_joined_def
    by (rule reachable.step [OF _ server_step.deliver [where k = "\<lparr>cn_group = ''g'', cn_peer = demo_peer 8,
          cn_phase = Announcing, cn_pending = [(0, SJoin (demo_peer 8)), (1, SHello (demo_peer 8) [demo_peer 7])], cn_handling = None,
          cn_reading = True\<rparr>"]])
      (simp_all add: demo_second del: One_nat_def)
qed

subsection \<open>The server as a system\<close>

text \<open>
  C7: in every reachable state of the server, however the connections' steps
  interleave, no IP group has more clients than the configured maximum, and no group's
  request counter is above its limit.
\<close>

lemma limits_hold:
  assumes "reachable W L s"
  shows "group_size (as_tx_map (sy_app s)) g \<le> unat (MAX_CONNECTIONS L) \<and>
    request_count (as_request_count_map (sy_app s)) g \<le> MAX_REQUESTS L"
  using reachable_inv [OF assms] within_limitsD by (simp add: sys_inv_def)

lemma limits_hold_witness:
  "group_size (as_tx_map (sy_app demo_joined)) ''g'' = 2 \<and> unat (MAX_CONNECTIONS demo_limits) = 2 \<and>
   group_size (as_tx_map (sy_app demo_joined)) ''g'' \<le> unat (MAX_CONNECTIONS demo_limits)"
  using limits_hold [OF demo_reachable [of ref_wire], of "''g''"]
  by (simp add: demo_joined_sel group_size_def hm_get_def hm_len_def hm_entries_def demo_limits_def)

text \<open>
  C8: messages never cross IP groups. Whatever lies in the channel of a client
  in a reachable state was sent by a connection of the same group.
\<close>

lemma group_isolation:
  assumes "reachable W L s" "(c, m) \<in> set (sy_inbox s t)"
  shows "\<exists>k l. sy_conns s c = Some k \<and> sy_conns s t = Some l \<and> cn_group k = cn_group l"
proof -
  from reachable_inv [OF assms(1)] have "scoped s" by (simp add: sys_inv_def)
  from scopedD2 [OF this assms(2)] show ?thesis unfolding in_group_def by auto
qed

lemma group_isolation_witness:
  "\<exists>k l. sy_inbox demo_joined 0 = [(1, SJoin (demo_peer 8))] \<and>
     sy_conns demo_joined 1 = Some k \<and> sy_conns demo_joined 0 = Some l \<and> cn_group k = cn_group l"
  using group_isolation [OF demo_reachable [of ref_wire], of 1 "SJoin (demo_peer 8)" 0]
  by (auto simp: demo_joined_sel simp del: One_nat_def)

text \<open>
  C9: in every reachable state the shared table lists exactly the
  connections that are up: an entry belongs to such a connection, in its group, under its id
  and with its channel, and every such connection has its entry.
\<close>

lemma table_matches_connections:
  assumes "reachable W L s"
  shows "(\<exists>st. member (as_tx_map (sy_app s)) g i = Some st \<and> cs_tx st = c) \<longleftrightarrow>
    (\<exists>k. sy_conns s c = Some k \<and> up k \<and> cn_group k = g \<and> ci_id (cn_peer k) = i)"
proof -
  from reachable_inv [OF assms] have "agree s" by (simp add: sys_inv_def)
  then show ?thesis using agreeD1 agreeD2 by metis
qed

lemma table_matches_connections_witness:
  "\<exists>st. member (as_tx_map (sy_app demo_joined)) ''g'' 7 = Some st \<and> cs_tx st = 0"
proof -
  have "\<exists>k. sy_conns demo_joined 0 = Some k \<and> up k \<and> cn_group k = ''g'' \<and> ci_id (cn_peer k) = 7"
    unfolding demo_joined_def demo_second by (simp add: step_deliver_def up_def)
  then show ?thesis by (simp only: table_matches_connections [OF demo_reachable [of ref_wire]])
qed

text \<open>
  C11: the server implements a directory. Forgetting connections,
  channels and hash maps, its state lists clients per group and counts requests, and each of
  its steps is a step of this specification or does not show in it: a client joins a group that
  has room, is granted a request, carries out a granted one (an update of its own description
  or a message to another client), or leaves; the hour ends. Both begin empty.
\<close>

lemma server_refines_directory:
  assumes "reachable W L s" "server_step W L s t"
  shows "(dir_of t = dir_of s \<or> dir_step L (dir_of s) (dir_of t)) \<and> dir_of sys_init = dir_init"
  using server_step_dir [OF reachable_inv [OF assms(1)] assms(2)] by (simp add: dir_of_init)

lemma server_refines_directory_witness:
  "dir_step demo_limits (dir_of demo_joined) (dir_of (step_hour demo_joined)) \<and>
   d_clients (dir_of demo_joined) ''g'' 7 = Some (demo_info ''a'') \<and> d_used (dir_of demo_joined) ''g'' = 2"
proof -
  have shown: "d_clients (dir_of demo_joined) ''g'' 7 = Some (demo_info ''a'')" "d_used (dir_of demo_joined) ''g'' = 2"
    by (simp_all add: dir_of_def demo_joined_sel member_def request_count_def hm_get_def)
  have "d_used (dir_of (step_hour demo_joined)) ''g'' = 0"
    by (simp add: dir_of_def step_hour_def clear_request_counts_def request_count_def hm)
  with shown server_refines_directory [OF demo_reachable [of ref_wire] server_step.hour] show ?thesis by auto
qed



subsection \<open>An offer and its answer\<close>

text \<open>
  C10: two clients of one group can open a session. The offer that the
  negotiation of the one makes goes through the server into the channel of the other; the
  other's client reads it and negotiates for it; its answer goes back, and the first client's
  listener gives it to the callback of this session. Both negotiations succeed, and each has
  set exactly the description of the other as its remote one.
\<close>

lemma offer_answer_exchange:
  assumes W: "wire_format W" and Z: "zlib_library Z"
    and sys: "reachable W L s" "sy_conns s a = Some ka" "idle ka" "sy_conns s b = Some kb" "idle kb" "a \<noteq> b"
      "cn_group kb = cn_group ka"
      "unat (request_count (as_request_count_map (sy_app s)) (cn_group ka)) + 2 \<le> unat (MAX_REQUESTS L)"
    and wa: "smooth wa" "local_sdp wa = Some sa" "valid_utf8 sa" "nego_calls wa = []"
    and wb: "smooth wb" "local_sdp wb = Some sb" "valid_utf8 sb" "nego_calls wb = []"
  shows "\<exists>wa' wb' x y off ans s1 s2.
    send_offer W Z stun_a (ci_id (cn_peer kb)) (wa\<lparr>answer := Some (sm_sdp ans)\<rparr>) = (Ok (), wa') \<and>
    NOffer (new_session_id wa) (ci_id (cn_peer kb)) x \<in> set (nego_calls wa') \<and>
    s1 = client_sends W L a (COffer \<lparr>cm_session_id = new_session_id wa, cm_target = ci_id (cn_peer kb), cm_sdp = x\<rparr>) s \<and>
    sy_inbox s1 b = sy_inbox s b @ [(a, SOffer off)] \<and> over_socket W (SOffer off) = [SOffer off] \<and>
    accept_offer W Z stun_b (sm_session_id off) (ci_id (sm_peer off)) (sm_sdp off) wb = (Ok (), wb') \<and>
    NAnswer (sm_session_id off) (ci_id (sm_peer off)) y \<in> set (nego_calls wb') \<and>
    s2 = client_sends W L b (CAnswer \<lparr>cm_session_id = sm_session_id off, cm_target = ci_id (sm_peer off), cm_sdp = y\<rparr>) s1 \<and>
    sy_inbox s2 a = sy_inbox s a @ [(b, SAnswer ans)] \<and> over_socket W (SAnswer ans) = [SAnswer ans] \<and>
    calls_of cb (listen start_listener [OnAnswer (new_session_id wa) cb, Incoming (SAnswer ans)]) = [(cb, ans)] \<and>
    NRemote sb \<in> set (nego_calls wa') \<and> NRemote sa \<in> set (nego_calls wb') \<and> reachable W L s2"
proof -
  define off where "off = \<lparr>sm_peer = cn_peer ka, sm_session_id = new_session_id wa, sm_sdp = encode_sdp W Z sa\<rparr>"
  define ans where "ans = \<lparr>sm_peer = cn_peer kb, sm_session_id = new_session_id wa, sm_sdp = encode_sdp W Z sb\<rparr>"
  obtain wa' wb' where run: "send_offer W Z stun_a (ci_id (cn_peer kb)) (wa\<lparr>answer := Some (encode_sdp W Z sb)\<rparr>) = (Ok (), wa')"
    "NOffer (new_session_id wa) (ci_id (cn_peer kb)) (encode_sdp W Z sa) \<in> set (nego_calls wa')" "NRemote sb \<in> set (nego_calls wa')"
    "accept_offer W Z stun_b (new_session_id wa) (ci_id (cn_peer ka)) (encode_sdp W Z sa) wb = (Ok (), wb')"
    "NAnswer (new_session_id wa) (ci_id (cn_peer ka)) (encode_sdp W Z sb) \<in> set (nego_calls wb')" "NRemote sa \<in> set (nego_calls wb')"
    by (rule negotiations_meet [OF W Z wa wb])
  note served = sdp_exchange [OF W sys refl refl]
  have "calls_of cb (listen start_listener [OnAnswer (new_session_id wa) cb, Incoming (SAnswer ans)]) = [(cb, ans)]"
    by (simp add: listen_def start_listener_def route_answer_def ans_def hm)
  with run served W show ?thesis
    by (intro exI [of _ wa'] exI [of _ wb'] exI [of _ "encode_sdp W Z sa"] exI [of _ "encode_sdp W Z sb"]
        exI [of _ off] exI [of _ ans] exI)
      (intro conjI refl; simp add: off_def ans_def over_socket_sdp)
qed

definition demo_quiet :: sys where
  "demo_quiet = step_deliver 0 (step_deliver 1 demo_joined)"

definition demo_conn :: "uuid \<Rightarrow> conn" where
  "demo_conn i = \<lparr>cn_group = ''g'', cn_peer = demo_peer i, cn_phase = Running, cn_pending = [], cn_handling = None, cn_reading = True\<rparr>"

definition demo_negotiating :: "string \<Rightarrow> nego_world" where
  "demo_negotiating sdp =
     \<lparr>lib_ok = (\<lambda>_. True), local_sdp = Some sdp, new_session_id = ''s'', answer = None, sdp_status_open = True,
      finished_status_open = True, session_end = PeerDisconnected, nego_calls = []\<rparr>"

lemma demo_quiet_sel:
  "sy_conns demo_quiet 0 = Some (demo_conn 7)" "sy_conns demo_quiet 1 = Some (demo_conn 8)"
  "sy_app demo_quiet = sy_app demo_joined"
  unfolding demo_quiet_def demo_joined_def demo_second by (simp_all add: step_deliver_def demo_conn_def)

lemma demo_quiet_reachable: "reachable W demo_limits demo_quiet"
proof -
  have one: "\<exists>k. sy_conns demo_joined 1 = Some k \<and> cn_pending k \<noteq> []"
    and zero: "\<exists>k. sy_conns (step_deliver 1 demo_joined) 0 = Some k \<and> cn_pending k \<noteq> []"
    unfolding demo_joined_def demo_second by (simp_all add: step_deliver_def)
  have "reachable W demo_limits (step_deliver 1 demo_joined)"
    using one by (auto intro: reachable.step [OF demo_reachable server_step.deliver])
  then show ?thesis
    unfolding demo_quiet_def using zero by (auto intro: reachable.step server_step.deliver)
qed

lemma offer_answer_exchange_witness:
  "\<exists>(s1 :: sys) (s2 :: sys) off ans wb'. sy_inbox s1 1 = sy_inbox demo_quiet 1 @ [(0, SOffer off)] \<and>
    accept_offer ref_wire ref_zlib [] (sm_session_id off) (ci_id (sm_peer off)) (sm_sdp off) (demo_negotiating ''v=b'') =
      (Ok (), wb') \<and> NRemote ''v=a'' \<in> set (nego_calls wb') \<and>
    sy_inbox s2 0 = sy_inbox demo_quiet 0 @ [(1, SAnswer ans)]"
proof -
  have utf8: "valid_utf8 ''v=a''" "valid_utf8 ''v=b''" by code_simp+
  have idle: "idle (demo_conn i)" for i by (simp add: idle_def demo_conn_def)
  have grp: "cn_group (demo_conn 8) = cn_group (demo_conn 7)" by (simp add: demo_conn_def)
  have room: "unat (request_count (as_request_count_map (sy_app demo_quiet)) (cn_group (demo_conn 7))) + 2 \<le>
      unat (MAX_REQUESTS demo_limits)"
    by (simp add: demo_quiet_sel demo_joined_sel demo_conn_def request_count_def hm_get_def demo_limits_def)
  have smooth: "smooth (demo_negotiating sdp)" "local_sdp (demo_negotiating sdp) = Some sdp"
    "nego_calls (demo_negotiating sdp) = []" for sdp
    by (simp_all add: smooth_def demo_negotiating_def)
  from offer_answer_exchange [OF ref_wire_format ref_zlib_library demo_quiet_reachable demo_quiet_sel(1) idle
      demo_quiet_sel(2) idle zero_neq_one grp room smooth(1,2) utf8(1) smooth(3) smooth(1,2) utf8(2) smooth(3),
      where cb = True and stun_a = "[]" and stun_b = "[]"]
  show ?thesis by (elim exE conjE) (intro exI conjI; assumption)
qed

subsection \<open>The handlers\<close>

lemma demo_app_wf: "app_wf (sy_app demo_joined)"
  using reachable_inv [OF demo_reachable] by (simp add: sys_inv_def)

text \<open>
  C23: a connecting client is turned away exactly when its group is full or has
  used up its requests, and then nobody's entry changes. Otherwise it is entered, one
  request is counted, it gets a greeting with the descriptions of all other clients of the
  group, and each of these gets notice that it has joined; no one else gets anything.
\<close>

lemma connect_admits:
  assumes "app_wf s" "connect_section L s g peer tx = (s', r)"
  shows "(r = None) = (unat (MAX_CONNECTIONS L) \<le> group_size (as_tx_map s) g \<or>
      MAX_REQUESTS L \<le> request_count (as_request_count_map s) g) \<and>
    member (as_tx_map s') h i = (if r \<noteq> None \<and> h = g \<and> i = ci_id peer
      then Some \<lparr>cs_client = without_id peer, cs_tx = tx\<rparr> else member (as_tx_map s) h i) \<and>
    request_count (as_request_count_map s') h =
      request_count (as_request_count_map s) h + (if r \<noteq> None \<and> h = g then 1 else 0) \<and>
    (case r of None \<Rightarrow> True | Some ps \<Rightarrow>
       \<exists>others. set others = {client_info_from (cs_client st) j | j st. member (as_tx_map s) g j = Some st} \<and>
         set (announce peer tx ps) =
           {(cs_tx st, SJoin peer) | j st. member (as_tx_map s) g j = Some st} \<union> {(tx, SHello peer others)})"
proof (cases r)
  case None
  then show ?thesis using connect_section_rejected [OF assms(1) assms(2) [unfolded None]] by simp
next
  case (Some q)
  obtain ts ps where q: "q = (ts, ps)" by (cases q)
  note acc = connect_section_accepted [OF assms(1) assms(2) [unfolded Some q]]
  have "set (announce peer tx q) =
      {(cs_tx st, SJoin peer) | j st. member (as_tx_map s) g j = Some st} \<union> {(tx, SHello peer ps)}"
    using acc(7) by (auto simp: announce_def q txs_of_def)
  then show ?thesis using Some acc(2,3,4,5,8) by auto
qed

lemma connect_admits_witness:
  "connect_section demo_limits (sy_app demo_joined) ''g'' (demo_peer 9) 2 = (sy_app demo_joined, None) \<and>
   member (as_tx_map (sy_app demo_joined)) ''g'' 9 = None"
proof -
  have run: "connect_section demo_limits (sy_app demo_joined) ''g'' (demo_peer 9) 2 = (sy_app demo_joined, None)"
    by (simp add: demo_joined_sel demo_connect)
  then show ?thesis
    using connect_admits [OF demo_app_wf run, of "''g''" 9]
    by (simp add: demo_joined_sel member_def hm_get_def)
qed

text \<open>
  C24: an update of a client that is within its request limit replaces exactly
  this client's description in the table, and every other client of its group, and nobody
  else, is sent the new description under the client's own id.
\<close>

lemma update_notifies:
  assumes "app_wf s" "request_count (as_request_count_map s) g < MAX_REQUESTS L"
    and "handle_client_message L s g peer tx (CUpdate info) = (s', out, go_on)"
  shows "go_on \<and>
    member (as_tx_map s') h j =
      (if h = g \<and> j = ci_id peer then map_option (\<lambda>st. st\<lparr>cs_client := info\<rparr>) (member (as_tx_map s) g j)
       else member (as_tx_map s) h j) \<and>
    set out = {(cs_tx st, SUpdate (client_info_from info (ci_id peer))) | j st.
      member (as_tx_map s) g (ci_id peer) \<noteq> None \<and> j \<noteq> ci_id peer \<and> member (as_tx_map s) g j = Some st}"
proof -
  from assms(1) have wf: "txs_wf (as_tx_map s)" "hm_wf (as_request_count_map s)" by (simp_all add: app_wf_def)
  obtain txs o' where u: "send_update_to_other_peers_with_lock (as_tx_map s) g (ci_id peer) info = (txs, o')"
    by fastforce
  from wf(2) assms(3) show ?thesis
  proof (cases rule: handle_client_message_cases)
    case (handled txs')
    then show ?thesis using send_update_facts(3,4) [OF wf(1) u] u by (auto simp: dispatch_client_message_def)
  qed (use assms(2) in simp)
qed

lemma update_notifies_witness:
  "\<exists>s'. handle_client_message demo_limits (sy_app demo_joined) ''g'' (demo_peer 7) 0 (CUpdate (demo_info ''b'')) =
      (s', [(1, SUpdate (client_info_from (demo_info ''b'') 7))], True) \<and>
    member (as_tx_map s') ''g'' 7 = Some \<lparr>cs_client = demo_info ''b'', cs_tx = 0\<rparr>"
proof -
  obtain s' where run: "handle_client_message demo_limits (sy_app demo_joined) ''g'' (demo_peer 7) 0 (CUpdate (demo_info ''b'')) =
      (s', [(1, SUpdate (client_info_from (demo_info ''b'') 7))], True)"
    by (simp add: handle_client_message_def dispatch_client_message_def demo_joined_sel demo_connect
        send_update_to_other_peers_with_lock_def)
  have "request_count (as_request_count_map (sy_app demo_joined)) ''g'' < MAX_REQUESTS demo_limits"
    by (simp add: demo_joined_sel request_count_def hm_get_def demo_limits_def word_less_nat_alt)
  from update_notifies [OF demo_app_wf this run, of "''g''" 7] run show ?thesis
    by (simp add: demo_joined_sel member_def hm_get_def)
qed

text \<open>
  C25: an offer or answer within the request limit goes to the target client if that
  client is in the sender's own group, and to nobody otherwise. It arrives with session id
  and description as they were sent, under the description the sender connected with, and it
  changes no client's entry.
\<close>

lemma sdp_routed:
  assumes "app_wf s" "request_count (as_request_count_map s) g < MAX_REQUESTS L"
    and "msg = COffer sdp \<and> f = SOffer \<or> msg = CAnswer sdp \<and> f = SAnswer"
    and "handle_client_message L s g peer tx msg = (s', out, go_on)"
  shows "go_on \<and> as_tx_map s' = as_tx_map s \<and>
    out = (case member (as_tx_map s) g (cm_target sdp) of
       None \<Rightarrow> []
     | Some st \<Rightarrow> [(cs_tx st, f \<lparr>sm_peer = peer, sm_session_id = cm_session_id sdp, sm_sdp = cm_sdp sdp\<rparr>)])"
proof -
  from assms(1) have wf: "hm_wf (as_request_count_map s)" by (simp add: app_wf_def)
  from wf assms(4) show ?thesis
  proof (cases rule: handle_client_message_cases)
    case (handled txs)
    then show ?thesis
      using assms(3)
      by (auto simp: dispatch_client_message_def send_to_peer_alt sdp_target_def sdp_message_for_def split: option.splits)
  qed (use assms(2) in simp)
qed

lemma sdp_routed_witness:
  "\<exists>s'. handle_client_message demo_limits (sy_app demo_joined) ''g'' (demo_peer 7) 0
      (COffer \<lparr>cm_session_id = ''s'', cm_target = 8, cm_sdp = ''v''\<rparr>) =
    (s', [(1, SOffer \<lparr>sm_peer = demo_peer 7, sm_session_id = ''s'', sm_sdp = ''v''\<rparr>)], True)"
proof -
  let ?m = "\<lparr>cm_session_id = ''s'', cm_target = 8, cm_sdp = ''v''\<rparr>"
  obtain s' out b where run: "handle_client_message demo_limits (sy_app demo_joined) ''g'' (demo_peer 7) 0 (COffer ?m) =
      (s', out, b)" by (metis prod_cases3)
  have "request_count (as_request_count_map (sy_app demo_joined)) ''g'' < MAX_REQUESTS demo_limits"
    by (simp add: demo_joined_sel request_count_def hm_get_def demo_limits_def)
  from sdp_routed [OF demo_app_wf this _ run] run show ?thesis
    by (simp add: demo_joined_sel member_def hm_get_def)
qed

text \<open>
  C26: when a connection ends, its client disappears from the table and
  no one else does, the remaining clients of its group, and nobody else, are sent that it
  has left, and no empty group remains under its name.
\<close>

lemma disconnect_notifies:
  assumes "txs_wf txs" "disconnect_section txs g i = (txs', ts)"
  shows "member txs' h j = (if h = g \<and> j = i then None else member txs h j) \<and>
    set (farewell i ts) = {(cs_tx st, SLeft i) | j st. j \<noteq> i \<and> member txs g j = Some st} \<and>
    hm_get txs' g \<noteq> Some hm_empty"
proof -
  have "set (farewell i ts) = {(cs_tx st, SLeft i) | j st. j \<noteq> i \<and> member txs g j = Some st}"
    using disconnect_facts(4) [OF assms] by (auto simp: farewell_def)
  moreover have "hm_get txs' g \<noteq> Some hm_empty"
    using disconnect_facts(5) [OF assms, of hm_empty] by (simp add: hm_len_def hm_entries_def hm_empty_def)
  ultimately show ?thesis using disconnect_facts(2) [OF assms] by simp
qed

lemma disconnect_notifies_witness:
  "\<exists>txs' ts. disconnect_section (as_tx_map (sy_app demo_joined)) ''g'' 7 = (txs', ts) \<and>
    set (farewell 7 ts) = {(1, SLeft 7)} \<and> member txs' ''g'' 7 = None"
proof -
  obtain txs' ts where run: "disconnect_section (as_tx_map (sy_app demo_joined)) ''g'' 7 = (txs', ts)" by fastforce
  have "txs_wf (as_tx_map (sy_app demo_joined))" using demo_app_wf by (simp add: app_wf_def)
  from disconnect_notifies [OF this run, of "''g''" 7] have facts: "member txs' ''g'' 7 = None"
    "set (farewell 7 ts) = {(cs_tx st, SLeft 7) | j st. j \<noteq> 7 \<and> member (as_tx_map (sy_app demo_joined)) ''g'' j = Some st}"
    by simp_all
  have "set (farewell 7 ts) = {(1, SLeft 7)}"
    unfolding facts(2) by (auto simp: demo_joined_sel member_def hm_get_def split: if_splits)
  with run facts(1) show ?thesis by blast
qed

text \<open>
  C27: a request counts against its own group only, as long as the group is
  below the limit; at the limit the client is answered with error 429, its task ends, and
  neither the counter nor the table of clients changes, so that the counter never wraps.
  The hourly job gives every group its full budget again.
\<close>

lemma rate_limited:
  assumes "app_wf s" "handle_client_message L s g peer tx msg = (s', out, go_on)"
  shows "go_on = (request_count (as_request_count_map s) g < MAX_REQUESTS L) \<and>
    unat (request_count (as_request_count_map s') h) =
      unat (request_count (as_request_count_map s) h) + (if go_on \<and> h = g then 1 else 0) \<and>
    (go_on \<or> out = [(tx, SError 429)] \<and> as_tx_map s' = as_tx_map s) \<and>
    request_count (clear_request_counts (as_request_count_map s')) h = 0"
proof -
  from assms(1) have wf: "hm_wf (as_request_count_map s)" by (simp add: app_wf_def)
  note c = protect_ddos_cases(2) [OF wf, of L g]
  have empty: "request_count (clear_request_counts m) h = 0" for m
    by (simp add: clear_request_counts_def request_count_def hm)
  have up: "unat (request_count (as_request_count_map s) g + 1) = unat (request_count (as_request_count_map s) g) + 1"
    if "request_count (as_request_count_map s) g < MAX_REQUESTS L"
    using that by (rule unat_succ_below)
  from wf assms(2) show ?thesis
    by (cases rule: handle_client_message_cases) (auto simp: c empty up)
qed

lemma rate_limited_witness:
  "\<exists>s'. handle_client_message \<lparr>MAX_CONNECTIONS = 2, MAX_REQUESTS = 2\<rparr> (sy_app demo_joined) ''g'' (demo_peer 7) 0
      (CUpdate (demo_info ''b'')) = (s', [(0, SError 429)], False)"
proof -
  let ?L = "\<lparr>MAX_CONNECTIONS = 2, MAX_REQUESTS = 2\<rparr>"
  obtain s' out b where run: "handle_client_message ?L (sy_app demo_joined) ''g'' (demo_peer 7) 0 (CUpdate (demo_info ''b'')) =
      (s', out, b)" by (metis prod_cases3)
  from rate_limited [OF demo_app_wf run, of "''g''"] run show ?thesis
    by (auto simp: demo_joined_sel request_count_def hm_get_def)
qed

subsection \<open>Groups and the handshake\<close>

text \<open>
  C35: two clients get the same group name exactly if they are in the same network:
  the same IPv4 address, or IPv6 addresses with the same first 64 bits; an IPv4 and an IPv6
  client never share a group.
\<close>

lemma ip_groups: "get_ip_group a = get_ip_group b \<longleftrightarrow> same_network a b"
proof (cases a)
  case a: (V4 a1 a2 a3 a4)
  show ?thesis
  proof (cases b)
    case (V4 b1 b2 b3 b4)
    then show ?thesis using a show_ipv4_inj by simp
  next
    case (V6 b1 b2 b3 b4 b5 b6 b7 b8)
    then show ?thesis using a get_ip_group_v4_v6 by (simp del: get_ip_group.simps)
  qed
next
  case a: (V6 a1 a2 a3 a4 a5 a6 a7 a8)
  show ?thesis
  proof (cases b)
    case (V4 b1 b2 b3 b4)
    then show ?thesis using a get_ip_group_v4_v6 [of b1 b2 b3 b4 a1 a2 a3 a4 a5 a6 a7 a8] by auto
  next
    case (V6 b1 b2 b3 b4 b5 b6 b7 b8)
    then show ?thesis using a get_ip_group_v6_inj by (simp del: get_ip_group.simps)
  qed
qed


subsection \<open>The client's end\<close>

end
