(* ===== verification/App_Api.thy ===== *)
theory App_Api
  imports Http_Listener App_Webrtc
begin

section \<open>The rest of the application's interface (app/rust/src/api)\<close>

text \<open>
  Key pairs, the HTTP client with the error type the user interface sees, and the stream
  from the user interface.
\<close>

subsection \<open>Keys (crypto.rs)\<close>

definition app_verify_cert :: "x509 \<Rightarrow> string \<Rightarrow> string \<Rightarrow> anyhow + unit" where
  "app_verify_cert X cert public_key = verify_cert_from_pem X cert (Some public_key)"

record key_pair =
  kp_private_key :: string
  kp_public_key :: string

definition generate_key_pair :: "crypto \<Rightarrow> bytes \<Rightarrow> key_pair option" where
  "generate_key_pair C signing_key = do {
     private_key \<leftarrow> export_private_key C signing_key;
     public_key \<leftarrow> export_public_key C signing_key;
     Some \<lparr>kp_private_key = private_key, kp_public_key = public_key\<rparr>
   }"

subsection \<open>The HTTP client (http.rs)\<close>

datatype rs_http_error =
    RsStatusCode u16 "string option" | RsReqwest | RsJson | RsIo | RsOther anyhow

definition from_client_error :: "client_error \<Rightarrow> rs_http_error" where
  "from_client_error e =
     (case e of
        CeStatusCode status message \<Rightarrow> RsStatusCode status message
      | CeReqwest \<Rightarrow> RsReqwest
      | CeJson \<Rightarrow> RsJson
      | CeIo \<Rightarrow> RsIo
      | CeOther e \<Rightarrow> RsOther e)"

definition create_client where
  "create_client B L private_key cert version = map_err from_client_error (client_new B L private_key cert version)"

definition rs_register where
  "rs_register E net v protocol ip port payload =
     map_err from_client_error (client_register E net v protocol ip port payload)"

definition rs_prepare_upload where
  "rs_prepare_upload E net v protocol ip port payload public_key pin =
     map_err from_client_error (client_prepare_upload E net v protocol ip port public_key payload pin)"

definition rs_upload where
  "rs_upload E net v protocol ip port public_key session_id file_id token binary =
     map_err from_client_error (client_upload E net v protocol ip port public_key session_id file_id token binary)"

definition rs_cancel where
  "rs_cancel net v protocol ip port session_id =
     map_err from_client_error (client_cancel net v protocol ip port session_id)"

text \<open>The stream from the user interface (stream.rs): adding fails when the reader is gone.\<close>

record stream_sink =
  st_reader_alive :: bool
  st_added :: "bytes list"

definition create_stream :: stream_sink where
  "create_stream = \<lparr>st_reader_alive = True, st_added = []\<rparr>"

definition stream_add :: "bytes \<Rightarrow> stream_sink \<Rightarrow> (string + unit) \<times> stream_sink" where
  "stream_add data s =
     (if st_reader_alive s then (Inr (), s\<lparr>st_added := st_added s @ [data]\<rparr>)
      else (Inl ''Failed to send data'', s))"

end
