(* ===== verification/Http_Correct.thy ===== *)
theory Http_Correct
  imports App_Api
begin

section \<open>Tokens, certificates, HTTP and the application: properties\<close>

text \<open>
  The claims about what a token and a certificate prove, about the HTTP clients and the
  server, alone and against each other.
\<close>

subsection \<open>Tokens\<close>

lemma demo_token: "\<exists>token. generate_token_nonce ref_wire ref_crypto ''K'' n = Some token"
  by (simp add: generate_token_nonce_def ref_crypto_def Let_def)

lemma demo_key: "to_verifying_key ref_crypto k = Ed25519VerifyingKey k"
  by (simp add: to_verifying_key_def ref_crypto_def)

text \<open>
  C13: a token is accepted with the key it was made with and exactly for the nonce
  it was made for: a token of another session does not pass, and checking it never panics.
\<close>

lemma own_token:
  assumes "wire_format W" "signature_scheme C" "generate_token_nonce W C key n = Some token"
  shows "verify_token_nonce W C (to_verifying_key C key) token n' = Done (n' = n)"
  using verify_own_token [OF assms] by (auto simp: verify_token_nonce_def)

lemma own_token_witness:
  "\<exists>token. generate_token_nonce ref_wire ref_crypto ''K'' ''n'' = Some token \<and>
    verify_token_nonce ref_wire ref_crypto (Ed25519VerifyingKey ''K'') token ''n'' = Done True \<and>
    verify_token_nonce ref_wire ref_crypto (Ed25519VerifyingKey ''K'') token ''m'' = Done False"
proof -
  obtain token where t: "generate_token_nonce ref_wire ref_crypto ''K'' ''n'' = Some token" using demo_token by blast
  note own = own_token [OF ref_wire_format ref_signature_scheme t, unfolded demo_key]
  show ?thesis using t own [of "''n''"] own [of "''m''"] by (intro exI [of _ token]) simp
qed

text \<open>
  C14: a token passes exactly if it has the five parts, names the hash and the
  signature method of the expected key, carries the nonce itself as its salt and the hash of
  the key's DER form and that nonce, and its signature over this hash verifies with the key.
\<close>

lemma token_sound:
  "verify_token_nonce W C k token nonce = Done True \<longleftrightarrow>
    (\<exists>salt64 sig64 rest der sig.
      split_on CHR ''.'' token =
        ''sha256'' # b64_encode W (sha256 C (der @ nonce)) # salt64 # signature_method k # sig64 # rest \<and>
      b64_decode W salt64 = Some nonce \<and> vk_to_der C k = Some der \<and>
      b64_decode W sig64 = Some sig \<and> vk_verify C k (sha256 C (der @ nonce)) sig)"
proof -
  have "verify_token_nonce W C k token nonce = Done True \<longleftrightarrow>
      verify_token_with_result W C k token (\<lambda>salt. Done (if salt \<noteq> nonce then Inl (Anyhow ''Invalid nonce'') else Inr ())) =
        Done (Inr ())"
    by (auto simp: verify_token_nonce_def outcome_ok_def is_ok_def split: outcome.splits sum.splits)
  then show ?thesis unfolding verify_token_ok_iff token_digest_def by (auto split: if_splits)
qed

text \<open>
  C29: the check of a token that a peer sends panics exactly if the token has
  fewer than four dots; the error for an invalid structure is never returned.
\<close>

lemma token_panics: "verify_token_nonce W C k token nonce = Panicked \<longleftrightarrow> count_list token CHR ''.'' < 4"
proof -
  have "verify_token_nonce W C k token nonce = Panicked \<longleftrightarrow>
      verify_token_with_result W C k token (\<lambda>salt. Done (if salt \<noteq> nonce then Inl (Anyhow ''Invalid nonce'') else Inr ())) =
        Panicked"
    by (auto simp: verify_token_nonce_def outcome_ok_def split: outcome.splits)
  then show ?thesis by (simp add: verify_token_panics_iff)
qed

text \<open>
  C28: a time-stamped token is accepted for one hour after it was made. For
  a clock that is behind the one that made it, the subtraction of the time stamps underflows:
  with overflow checks the verification panics, without them the wrapped age rejects the
  token unless the clocks are within an hour of wrapping around \<open>2 ^ 64\<close> seconds.
\<close>

lemma timestamp_window:
  assumes "wire_format W" "signature_scheme C" "generate_token_timestamp W C (Some made) key = Some token"
  shows "verify_token_timestamp W C checks (Some now) (to_verifying_key C key) token =
    (if made \<le> now then Done (unat now - unat made \<le> 3600)
     else if checks then Panicked else Done (unat now + 2 ^ 64 - unat made \<le> 3600))"
proof -
  have "generate_token_nonce W C key (to_le_bytes made) = Some token"
    using assms(3) by (simp add: generate_token_timestamp_def)
  note own = verify_own_token [OF assms(1,2) this]
  have le: "unat (now - made) = unat now - unat made" if "made \<le> now"
    using that by (simp add: unat_sub)
  have wraps: "unat (now - made) = unat now + 2 ^ 64 - unat made" if "\<not> made \<le> now"
    using that by (simp add: unat_sub_if' word_le_nat_alt)
  have "(60 * 60 < now - made) = (3600 < unat (now - made))" by (simp add: word_less_nat_alt)
  then show ?thesis
    using le wraps
    by (auto simp: verify_token_timestamp_def own verify_timestamp_salt_def sub_u64_def not_less not_le)
qed

lemma timestamp_window_witness:
  "\<exists>token. generate_token_timestamp ref_wire ref_crypto (Some 1000) ''K'' = Some token \<and>
    verify_token_timestamp ref_wire ref_crypto True (Some 4600) (Ed25519VerifyingKey ''K'') token = Done True \<and>
    verify_token_timestamp ref_wire ref_crypto True (Some 4601) (Ed25519VerifyingKey ''K'') token = Done False \<and>
    verify_token_timestamp ref_wire ref_crypto True (Some 999) (Ed25519VerifyingKey ''K'') token = Panicked"
proof -
  obtain token where t: "generate_token_timestamp ref_wire ref_crypto (Some 1000) ''K'' = Some token"
    using demo_token by (auto simp: generate_token_timestamp_def)
  note w = timestamp_window [OF ref_wire_format ref_signature_scheme t, of True, unfolded demo_key]
  show ?thesis using t w [of 4600] w [of 4601] w [of 999] by (intro exI [of _ token]) (simp add: word_le_nat_alt)
qed

subsection \<open>Certificates\<close>

text \<open>
  C30: the key read from one certificate, used to pin a connection, admits another
  certificate exactly if that one is in its validity period, its signature verifies and it
  holds the same key.
\<close>

lemma pinned_key:
  assumes "x509_library X" "x_from_der X a = Some ca"
  shows "verify_cert_from_der X b (Some (public_key_from_cert X ca)) = Inr () \<longleftrightarrow>
    (\<exists>cb k. x_from_der X b = Some cb \<and> x_valid X cb \<and> x_verify_signature X cb \<and>
       x_key_parsed X (x_spki_raw X cb) = Some k \<and> x_key_parsed X (x_spki_raw X ca) = Some k)"
  using x509_library.expected_key_of_cert [OF assms] by (auto simp: verify_cert_ok_iff)

lemma pinned_key_witness:
  "verify_cert_from_der ref_x509 ''VSk'' (Some (public_key_from_cert ref_x509 ''VSk'')) = Inr () \<and>
   verify_cert_from_der ref_x509 ''VSl'' (Some (public_key_from_cert ref_x509 ''VSk'')) \<noteq> Inr ()"
proof -
  have a: "x_from_der ref_x509 ''VSk'' = Some ''VSk''" by (simp add: ref_x509_def)
  show ?thesis by (simp only: pinned_key [OF ref_x509_library a]) (simp add: ref_x509_def)
qed

subsection \<open>Clients and certificates\<close>


definition demo_env :: http_env where
  "demo_env = \<lparr>he_wire = ref_wire, he_x509 = ref_x509, he_text = id\<rparr>"

definition demo_registered :: register_response_dto where
  "demo_registered = \<lparr>rr_alias = ''a'', rr_version = ''3.0'', rr_device_model = None, rr_device_type = None,
     rr_token = ''t'', rr_has_web_interface = False\<rparr>"

definition demo_register :: register_dto where
  "demo_register = \<lparr>rg_alias = ''b'', rg_version = ''3.0'', rg_device_model = None, rg_device_type = None,
     rg_token = ''u'', rg_port = 53317, rg_protocol = Http, rg_has_web_interface = False\<rparr>"

text \<open>A server with the certificate of key \<open>k\<close> that accepts everything.\<close>

definition demo_net :: network where
  "demo_net req = Some \<lparr>rs_status = 200, rs_body = Some (to_json_string ref_wire enc_register_response_dto demo_registered),
     rs_tls = Some (Some ''VSk''), rs_addr = None\<rparr>"

lemma demo_cert: "verify_cert_from_der ref_x509 ''VSk'' None = Inr ()" "public_key_from_cert_der ref_x509 ''VSk'' = Some ''Pk''"
  "verify_cert_from_der ref_x509 ''VSk'' (Some ''Pk'') = Inr ()"
  by (auto simp: verify_cert_ok_iff public_key_from_cert_der_def public_key_from_cert_def expected_key_def ref_x509_def)



text \<open>
  C36: an upload over HTTPS with the receiver's key counts as done only if the
  receiver answered with status 200 over a connection whose certificate is valid, verifies
  and holds exactly that key, in either version; the request carries the session, the file
  and its token.
\<close>

lemma upload_pinned:
  assumes "client_upload E net v Https ip port (Some pk) session_id file_id token binary = Inr ()"
  shows "\<exists>version res cert. net (plain_post (api_url version Https ip port ''/upload''
      [(''sessionId'', session_id), (''fileId'', file_id), (''token'', token)]) binary) = Some res \<and>
    rs_status res = 200 \<and> rs_tls res = Some (Some cert) \<and> verify_cert_from_der (he_x509 E) cert (Some pk) = Inr ()"
proof -
  have key: "\<exists>cert. rs_tls res = Some (Some cert) \<and> verify_cert_from_der (he_x509 E) cert (Some pk) = Inr ()"
    if "https_pinned E Https (Some pk) res = Inr ()" for res
    using that by (auto simp: https_pinned_def verify_cert_from_res_def rbind_Inr split: option.splits sum.splits)
  from assms have "\<exists>version res. net (plain_post (api_url version Https ip port ''/upload''
      (upload_params session_id file_id token)) binary) = Some res \<and> rs_status res = 200 \<and>
      https_pinned E Https (Some pk) res = Inr ()"
    by (cases v) (auto simp: client_upload_def v2_upload_def v3_upload_def rbind_Inr into_error_Inr send_def ok_or_Inr
        split: if_splits)
  with key show ?thesis unfolding upload_params_def by blast
qed

lemma demo_uploads:
  "client_upload demo_env demo_net UseV2 Https ''h'' 53317 (Some ''Pk'') ''s'' ''f'' ''t'' [''x''] = Inr ()"
  by (simp add: client_upload_def v2_upload_def send_def demo_net_def https_pinned_def verify_cert_from_res_def demo_env_def
      demo_cert)

lemma upload_pinned_witness:
  "\<exists>res cert. demo_net = (\<lambda>req. Some res) \<and> rs_tls res = Some (Some cert) \<and>
    verify_cert_from_der ref_x509 cert (Some ''Pk'') = Inr ()"
  using upload_pinned [OF demo_uploads] by (fastforce simp: demo_net_def demo_env_def)

text \<open>
  C40: a download that succeeds has written the whole body, in order, and
  returns its length (modulo \<open>2 ^ 64\<close>); one that fails has written a prefix of the bytes
  that arrived.
\<close>

lemma download_complete:
  assumes "v2_download_to_writer E net stream protocol ip port session_id file_id writer = (r, written)"
    and "net (plain_get (api_url ApiV2 protocol ip port ''/download'' [(''sessionId'', session_id), (''fileId'', file_id)])) =
      Some res" "rs_status res = 200"
  shows "prefix written (arrived_bytes (stream res)) \<and>
    (\<forall>n. r = Inr n \<longrightarrow> None \<notin> set (stream res) \<and> written = concat (map the (stream res)) \<and> n = of_nat (length written))"
proof -
  have "write_stream (stream res) writer 0 [] = (r, written)"
    using assms by (simp add: v2_download_to_writer_def v2_download_def send_def)
  then show ?thesis
    using write_stream_facts [where acc = "[]" and chunks = "stream res" and writes = writer and r = r and written = written]
    by (auto simp: arrived_bytes_all)
qed

lemma download_complete_witness:
  "(v2_download_to_writer demo_env demo_net (\<lambda>_. [Some ''ab'', Some ''c'']) Http ''h'' 53317 ''s'' ''f'' [] = (Inr 3, ''abc'') \<and>
    None \<notin> set [Some ''ab'', Some ''c'']) \<and>
   (v2_download_to_writer demo_env demo_net (\<lambda>_. [Some ''ab'', Some ''cd'']) Http ''h'' 53317 ''s'' ''f'' [None, Some 1] =
      (Inl CeIo, ''abc'') \<and> prefix ''abc'' ''abcd'')"
proof (rule conjI)
  have run: "v2_download_to_writer demo_env demo_net (\<lambda>_. [Some ''ab'', Some ''c'']) Http ''h'' 53317 ''s'' ''f'' [] = (Inr 3, ''abc'')"
    by (simp add: v2_download_to_writer_def v2_download_def send_def demo_net_def)
  from download_complete [OF this] run
  show "v2_download_to_writer demo_env demo_net (\<lambda>_. [Some ''ab'', Some ''c'']) Http ''h'' 53317 ''s'' ''f'' [] = (Inr 3, ''abc'') \<and>
    None \<notin> set [Some ''ab'', Some ''c'']" by (simp add: demo_net_def)
next
  have run: "v2_download_to_writer demo_env demo_net (\<lambda>_. [Some ''ab'', Some ''cd'']) Http ''h'' 53317 ''s'' ''f'' [None, Some 1] =
      (Inl CeIo, ''abc'')"
    by (simp add: v2_download_to_writer_def v2_download_def send_def demo_net_def)
  from download_complete [OF this] run
  show "v2_download_to_writer demo_env demo_net (\<lambda>_. [Some ''ab'', Some ''cd'']) Http ''h'' 53317 ''s'' ''f'' [None, Some 1] =
      (Inl CeIo, ''abc'') \<and> prefix ''abc'' ''abcd''" by (simp add: demo_net_def)
qed

subsection \<open>Clients against the server\<close>

text \<open>
  C38: after a version 3 nonce exchange between the client and the server of this
  repository, each of the two has stored the nonce of the other as received and its own as
  generated, under the identity under which it will look the other up: the certificate's
  key, or the address without TLS.
\<close>

lemma nonces_agree:
  assumes "wire_format (he_wire E)" "lru_cache L" "no_slash ip" "length (generate_nonce fc) = 32"
    and "lru_wf L (c3_received c)" "lru_wf L (c3_generated c)" "lru_wf L (ss_received st)" "lru_wf L (ss_generated st)"
    and "\<And>r. to_identifier E (as_response r tls addr) (protocol = Https) None = Inr sid"
    and "v3_nonce E L fc (served E reason L fs legacy ci st tls addr) protocol ip port c = (r, c')"
    and "serve E reason L fs legacy ci st
      (plain_post (api_url ApiV3 protocol ip port ''/nonce'' [])
        [to_json_string (he_wire E) enc_nonce_request \<lparr>nq_nonce = b64_encode (he_wire E) (generate_nonce fc)\<rparr>]) =
      (reply, Some st')"
  shows "r = Inr (b64_encode (he_wire E) (generate_nonce fs)) \<and>
    lru_peek L (c3_generated c') sid = Some (generate_nonce fc) \<and>
    lru_peek L (ss_received st') (client_identifier (he_x509 E) ci) = Some (generate_nonce fc) \<and>
    lru_peek L (c3_received c') sid = Some (generate_nonce fs) \<and>
    lru_peek L (ss_generated st') (client_identifier (he_x509 E) ci) = Some (generate_nonce fs)"
  using nonce_exchange_agrees [OF assms(1-9) refl assms(10,11)] by blast

definition demo_description :: http_client_info where
  "demo_description = \<lparr>hc_alias = ''a'', hc_version = ''3.0'', hc_device_model = None, hc_device_type = None, hc_token = ''t''\<rparr>"

definition demo_server :: "(nat \<times> (string \<times> bytes) list) server_state" where
  "demo_server = server_state_new list_lru demo_description"

definition demo_client_info :: request_client_info where
  "demo_client_info = \<lparr>ri_ip = V4 10 0 0 2, ri_cert = Some ''VSk''\<rparr>"

lemma nonces_agree_witness:
  "\<exists>r c' reply st'.
    v3_nonce demo_env list_lru id (served demo_env (\<lambda>_. []) list_lru id True demo_client_info demo_server (Some (Some ''VSk'')) None)
      Https ''h'' 53317 (client_v3_new list_lru) = (r, c') \<and>
    lru_peek list_lru (c3_received c') ''Pk'' = Some (replicate 32 (CHR 0x00)) \<and>
    serve demo_env (\<lambda>_. []) list_lru id True demo_client_info demo_server
      (plain_post (api_url ApiV3 Https ''h'' 53317 ''/nonce'' [])
        [to_json_string (he_wire demo_env) enc_nonce_request \<lparr>nq_nonce = b64_encode (he_wire demo_env) (generate_nonce id)\<rparr>]) =
      (reply, Some st') \<and>
    lru_peek list_lru (ss_received st') ''Pk'' = Some (replicate 32 (CHR 0x00))"
proof -
  have W: "wire_format (he_wire demo_env)" by (simp add: demo_env_def ref_wire_format)
  have n: "length (generate_nonce id) = 32" "generate_nonce id = replicate 32 (CHR 0x00)" by (simp_all add: generate_nonce_def)
  have wf: "lru_wf list_lru (c3_received (client_v3_new list_lru))" "lru_wf list_lru (c3_generated (client_v3_new list_lru))"
    "lru_wf list_lru (ss_received demo_server)" "lru_wf list_lru (ss_generated demo_server)"
    by (simp_all add: client_v3_new_def demo_server_def server_state_new_def NONCE_CACHE_def list_lru.wf_new)
  have sid: "to_identifier demo_env (as_response r (Some (Some ''VSk'')) None) (Https = Https) None = Inr ''Pk''" for r
    by (simp add: to_identifier_def verify_cert_from_res_def demo_env_def demo_cert)
  have cid: "client_identifier (he_x509 demo_env) demo_client_info = ''Pk''"
    by (simp add: client_identifier_def extract_public_key_def demo_client_info_def demo_env_def demo_cert)
  have ip: "no_slash ''h''" by (simp add: no_slash_def)
  obtain r c' where run: "v3_nonce demo_env list_lru id (served demo_env (\<lambda>_. []) list_lru id True demo_client_info demo_server
      (Some (Some ''VSk'')) None) Https ''h'' 53317 (client_v3_new list_lru) = (r, c')" by fastforce
  have v: "validate_nonce (generate_nonce id)" using n(1) by (simp add: validate_nonce_def)
  note srv = serve_nonce [OF W v ip, of "\<lambda>_. []" list_lru id True demo_client_info demo_server Https 53317]
  from nonces_agree [OF W list_lru_cache ip n(1) wf sid run srv] run srv show ?thesis
    unfolding cid n(2) by blast
qed

lemma demo_env_wire: "wire_format (he_wire demo_env)"
  by (simp add: demo_env_def ref_wire_format)

text \<open>
  C39: a registration of the version 2.1 client at the same server always fails
  with status 400, although the server has a route for it: the body the client sends spells
  the device's token and protocol as version 2.1 does, the controller expects version 3.
\<close>

lemma register_v2:
  assumes "wire_format (he_wire E)" "no_slash ip" "\<And>b. he_text E b = b"
  shows "client_register E (served E reason L fill True ci st tls addr) UseV2 protocol ip port payload =
    Inl (CeStatusCode 400 (Some ''Invalid JSON body''))"
  by (rule register_v2_served [OF assms])

lemma register_v2_witness:
  "client_register demo_env (served demo_env (\<lambda>_. []) list_lru id True demo_client_info demo_server None None)
     UseV2 Http ''h'' 53317 demo_register = Inl (CeStatusCode 400 (Some ''Invalid JSON body''))"
  by (rule register_v2 [OF demo_env_wire]) (simp_all add: no_slash_def demo_env_def)

subsection \<open>The running server\<close>

text \<open>
  C15: a server started with TLS never serves a client under its address.
  Every connection it serves has presented a certificate that the code has verified, whose
  public key is the identity of the client, and every identity under which it stores a
  nonce is the key of a verified certificate, whatever connections and requests interleave.
\<close>

lemma served_identities:
  assumes "tls_handshakes T" "lru_cache L"
    and "http_reachable E reason L T (start_with_port L (Some config) info legacy) s"
  shows "(\<forall>c i. hv_conns s c = Some (Serving i) \<longrightarrow>
      (\<exists>cert. verify_cert_from_der (he_x509 E) cert None = Inr () \<and>
        public_key_from_cert_der (he_x509 E) cert = Some (client_identifier (he_x509 E) i))) \<and>
    (\<forall>k. lru_peek L (ss_received (hv_state s)) k \<noteq> None \<or> lru_peek L (ss_generated (hv_state s)) k \<noteq> None \<longrightarrow>
      (\<exists>cert. verify_cert_from_der (he_x509 E) cert None = Inr () \<and> public_key_from_cert_der (he_x509 E) cert = Some k))"
  using reachable_verified [OF assms] unfolding serves_verified_def verified_key_def .

definition demo_config :: tls_config where
  "demo_config = \<lparr>tc_cert = ''VSs'', tc_private_key = ''s''\<rparr>"

definition demo_zeros :: bytes where
  "demo_zeros = replicate 32 (CHR 0x00)"

text \<open>IPv6 cannot be bound, IPv4 can; one client connects and exchanges nonces.\<close>

definition demo_listening :: "(nat \<times> (string \<times> bytes) list) http_server" where
  "demo_listening = step_bind ref_x509 ref_tls IPv4 True
     (step_bind ref_x509 ref_tls IPv6 False (start_with_port list_lru (Some demo_config) demo_description True))"

definition demo_acceptor :: tls_acceptor where
  "demo_acceptor = \<lparr>ta_verifier = custom_client_cert_verifier ref_x509 ref_verifier, ta_cert = ''VSs'', ta_key = ''s''\<rparr>"

definition demo_serving :: "(nat \<times> (string \<times> bytes) list) http_server" where
  "demo_serving = step_handshake ref_tls 0 demo_acceptor (V4 10 0 0 2) ''VSk''
     (step_accept IPv4 (Some demo_acceptor) (Some (0, V4 10 0 0 2)) demo_listening)"

definition demo_exchanged :: "(nat \<times> (string \<times> bytes) list) http_server" where
  "demo_exchanged = snd (step_request demo_env (\<lambda>_. []) list_lru id demo_client_info Post ''/api/localsend/v3/nonce''
     (Some (to_json_string ref_wire enc_nonce_request \<lparr>nq_nonce = b64_encode ref_wire demo_zeros\<rparr>)) demo_serving)"

lemma demo_tls_config: "create_tls_config ref_x509 ref_tls demo_config = Some demo_acceptor"
  by (simp add: create_tls_config_def verifier_try_new_def ref_tls_def demo_config_def demo_acceptor_def)

lemma demo_listening_sel:
  "hv_running demo_listening" "hv_listener demo_listening IPv4 = Accepting (Some demo_acceptor)"
  "hv_listener demo_listening IPv6 = Sleeping" "hv_conns demo_listening = (\<lambda>_. None)"
  by (simp_all add: demo_listening_def start_with_port_def step_bind_def demo_tls_config)

lemma demo_serving_sel:
  "hv_conns demo_serving 0 = Some (Serving demo_client_info)" "hv_running demo_serving"
  "hv_state demo_serving = server_state_new list_lru demo_description"
proof -
  have "tl_accept ref_tls demo_acceptor ''VSk'' = Some (Some [''VSk''])"
    by (simp add: ref_tls_def demo_acceptor_def custom_client_cert_verifier_def offer_client_auth_def
        verify_client_cert_def demo_cert)
  then show "hv_conns demo_serving 0 = Some (Serving demo_client_info)"
    by (simp add: demo_serving_def step_handshake_def connection_client_info_def demo_client_info_def)
  show "hv_running demo_serving" "hv_state demo_serving = server_state_new list_lru demo_description"
    by (simp_all add: demo_serving_def step_handshake_def step_accept_def demo_listening_sel)
      (simp add: demo_listening_def start_with_port_def step_bind_def demo_tls_config)
qed

lemma demo_exchanges:
  "http_reachable demo_env (\<lambda>_. []) list_lru ref_tls (start_with_port list_lru (Some demo_config) demo_description True) demo_exchanged"
proof -
  let ?R = "http_reachable demo_env (\<lambda>_. []) list_lru ref_tls (start_with_port list_lru (Some demo_config) demo_description True)"
  let ?S = "http_step demo_env (\<lambda>_. []) list_lru ref_tls"
  have x: "he_x509 demo_env = ref_x509" by (simp add: demo_env_def)
  note bind = http_step.bind [where E = demo_env, unfolded x]
  have "?R (step_bind ref_x509 ref_tls IPv6 False (start_with_port list_lru (Some demo_config) demo_description True))"
    by (rule http_reachable.step [OF http_reachable.start], rule bind) (simp_all add: start_with_port_def)
  then have "?R demo_listening"
    unfolding demo_listening_def
    by (rule http_reachable.step) (rule bind, simp_all add: start_with_port_def step_bind_def)
  then have "?R (step_accept IPv4 (Some demo_acceptor) (Some (0, V4 10 0 0 2)) demo_listening)"
    by (rule http_reachable.step) (rule http_step.accept, simp_all add: demo_listening_sel)
  then have "?R demo_serving"
    unfolding demo_serving_def
    by (rule http_reachable.step) (rule http_step.handshake, simp add: step_accept_def)
  then show ?thesis
    unfolding demo_exchanged_def
    by (rule http_reachable.step) (rule http_step.request [OF demo_serving_sel(1)], simp)
qed

lemma demo_exchanged_state:
  "lru_peek list_lru (ss_received (hv_state demo_exchanged)) ''Pk'' = Some demo_zeros"
  "hv_conns demo_exchanged 0 = Some (Serving demo_client_info)"
proof -
  have env: "he_wire demo_env = ref_wire" "he_x509 demo_env = ref_x509" by (simp_all add: demo_env_def)
  have v: "validate_nonce demo_zeros" by (simp add: validate_nonce_def demo_zeros_def)
  have key: "client_identifier ref_x509 demo_client_info = ''Pk''"
    by (simp add: client_identifier_def extract_public_key_def demo_client_info_def demo_cert)
  have "ss_received (hv_state demo_exchanged) = lru_put list_lru ''Pk'' demo_zeros (lru_new list_lru NONCE_CACHE)"
    using nonce_served [OF demo_env_wire v, unfolded env, of list_lru id demo_client_info "server_state_new list_lru demo_description"]
    by (simp add: demo_exchanged_def step_request_def handle_request_def handle_request_inner_def route_def v2_paths_def
        demo_serving_sel server_state_new_def env key)
  then show "lru_peek list_lru (ss_received (hv_state demo_exchanged)) ''Pk'' = Some demo_zeros"
    using list_lru.peek_put list_lru.wf_new [of NONCE_CACHE] by (simp add: NONCE_CACHE_def)
  show "hv_conns demo_exchanged 0 = Some (Serving demo_client_info)"
    by (simp add: demo_exchanged_def demo_serving_sel)
qed

lemma served_identities_witness:
  "\<exists>cert. verify_cert_from_der ref_x509 cert None = Inr () \<and> public_key_from_cert_der ref_x509 cert = Some ''Pk''"
  using served_identities [OF ref_tls_handshakes list_lru_cache demo_exchanges] demo_exchanged_state(1)
  by (fastforce simp: demo_env_def)



text \<open>
  C17: whatever requests arrive, the two maps of nonces stay well-formed caches
  of at most 200 entries, and every nonce they hold has between 16 and 128 bytes.
\<close>

lemma stored_nonces:
  assumes "lru_cache L" "http_reachable E reason L T (start_with_port L tls info legacy) s"
    and "m = ss_received (hv_state s) \<or> m = ss_generated (hv_state s)"
  shows "lru_wf L m \<and> lru_len L m \<le> 200 \<and> (\<forall>k n. lru_peek L m k = Some n \<longrightarrow> 16 \<le> length n \<and> length n \<le> 128)"
proof -
  have m: "nonces_ok L m" using reachable_store [OF assms(1,2)] assms(3) by (auto simp: store_ok_def)
  moreover from m have "lru_len L m \<le> NONCE_CACHE"
    using lru_cache.len_cap [OF assms(1), of m] by (simp add: nonces_ok_def)
  ultimately show ?thesis by (simp add: nonces_ok_def NONCE_CACHE_def validate_nonce_def)
qed

lemma stored_nonces_witness:
  "lru_peek list_lru (ss_received (hv_state demo_exchanged)) ''Pk'' = Some demo_zeros \<and>
   lru_len list_lru (ss_received (hv_state demo_exchanged)) \<le> 200"
  using stored_nonces [OF list_lru_cache demo_exchanges disjI1 [OF refl]] demo_exchanged_state(1) by blast

end
