(* ===== verification/Server_Main.thy ===== *)
theory Server_Main
  imports Ws_Invariant
begin

section \<open>Starting the signaling server (server/src/main.rs, server/src/config/init.rs)\<close>

text \<open>
  The address to listen on is taken from the environment, the state is created empty, the
  hourly job is registered, and requests are routed to the websocket handler. Sockets and
  the job scheduler are libraries; whether they work is an argument.
\<close>

definition bind_address :: "(string \<Rightarrow> string option) \<Rightarrow> string" where
  "bind_address env =
     (let server_ip = (case env ''SERVER_IP'' of Some s \<Rightarrow> s | None \<Rightarrow> ''0.0.0.0'');
          server_port = (case env ''SERVER_PORT'' of Some s \<Rightarrow> s | None \<Rightarrow> ''3000'')
      in server_ip @ '':'' @ server_port)"

text \<open>\<open>init\<close>: a scheduler that cannot be configured panics (\<open>None\<close>).\<close>

definition server_init :: "bool \<Rightarrow> sys option" where
  "server_init scheduled = (if scheduled then Some sys_init else None)"

text \<open>\<open>None\<close>: the address could not be bound, which panics as well.\<close>

definition server_main :: "(string \<Rightarrow> string option) \<Rightarrow> bool \<Rightarrow> (string \<Rightarrow> bool) \<Rightarrow> (string \<times> sys) option" where
  "server_main env scheduled bindable = do {
     s \<leftarrow> server_init scheduled;
     if bindable (bind_address env) then Some (bind_address env, s) else None
   }"

text \<open>
  One route. A path without a route is answered with 404, and a method other than GET (and
  HEAD, which the router treats alike) with 405. A request that is not an upgrade of a
  websocket, or has no description, is rejected by the library before the handler runs
  (\<open>upgrade\<close> is the status of its reply).
\<close>

datatype routed = Rejected u16 "string option" | Upgraded string client_info

definition configure_routes ::
    "wire \<Rightarrow> uuid \<Rightarrow> string \<Rightarrow> string \<Rightarrow> u16 option \<Rightarrow> ws_request \<Rightarrow> routed" where
  "configure_routes W new_id meth path upgrade rq =
     (if path \<noteq> ''/v1/ws'' then Rejected 404 None
      else if meth \<notin> {''GET'', ''HEAD''} then Rejected 405 None
      else
        (case upgrade of
           Some status \<Rightarrow> Rejected status None
         | None \<Rightarrow>
             (case ws_handler W new_id rq of
                Inl e \<Rightarrow> (case app_error_response e of (status, body) \<Rightarrow> Rejected status body)
              | Inr (grp, peer) \<Rightarrow> Upgraded grp peer)))"

subsection \<open>Lemmas\<close>

lemma server_main_sound: "server_main env scheduled bindable = Some (a, s) \<Longrightarrow> s = sys_init \<and> bindable a"
  by (auto simp: server_main_def server_init_def split: if_splits)

text \<open>A connection is let in only for the route, with a description that decodes, in its address's group.\<close>

lemma upgraded_route:
  assumes "configure_routes W new_id meth path upgrade rq = Upgraded grp peer"
  shows "path = ''/v1/ws''" "grp = get_ip_group (client_ip rq)" "ci_id peer = new_id"
    "peer_info_of W new_id (wq_d rq) = Inr peer"
proof -
  have h: "ws_handler W new_id rq = Inr (grp, peer)" and p: "path = ''/v1/ws''"
    using assms by (auto simp: configure_routes_def split: if_splits option.splits sum.splits prod.splits)
  show "path = ''/v1/ws''" by (rule p)
  from h show d: "peer_info_of W new_id (wq_d rq) = Inr peer" and "grp = get_ip_group (client_ip rq)"
    by (auto simp: ws_handler_def rbind_Inr)
  from d show "ci_id peer = new_id" by (auto simp: peer_info_of_def client_info_from_def rbind_Inr)
qed

end
