(* ===== verification/Spec2Isabelle.thy ===== *)
theory Spec2Isabelle
  imports Transfer_Correct Signaling_Correct Http_Correct Server_Main
begin

text \<open>
  \<^bold>\<open>MagicShare: the Rust core, the signaling server and the application's interface.\<close>

  \<^bold>\<open>The program.\<close> Devices find each other over a signaling server (server/) or in the local
  network and send files to each other, over a WebRTC data channel or over HTTP. The core
  library (core/) holds both protocols; the application (app/rust) wraps it for the user
  interface. The server keeps a table of the connected clients per IP group and passes
  offers and answers between them. Two clients with a data channel exchange nonces, then
  tokens signed for these nonces, then PINs, the list of files, the selection, and the files
  in chunks. Over HTTP a client registers at the other device, exchanges nonces, and
  uploads or downloads, pinning the certificate of the other side.

  \<^bold>\<open>Shared theories.\<close>
  \<^item> Prelude: sums as results, strings split and trimmed, UTF-8, digits, machine words.
  \<^item> Hash_Map: the locale \<open>hash_map\<close> states what is used of the standard library's map, and
    is interpreted by an association list, in whose order the iteration runs.
  \<^item> Json, Wire_Instance: serde's data model (fields, defaults, skipped and flattened ones)
    over the values of serde_json, whose text form, like base64 and UUIDs, belongs to
    crates and is the parameter \<open>wire\<close> with the laws \<open>wire_format\<close>; Wire_Instance is an
    executable instance that satisfies them, used by the witnesses.
  \<^item> Task_Monad: the tasks of a transfer as state passing with errors and panics. The state
    \<open>rtc_world\<close> holds what the task will receive (messages, the user's decisions, files), how
    many sends succeed, and the trace of all that it has done.

  \<^bold>\<open>Components.\<close>
  \<^item> Core_Model: core/src/model. Signaling_Messages: the messages of core/src/webrtc/signaling.rs.
  \<^item> Signaling_Connection: the client of the same file: the send and receive task, the
    listener that gives an answer to the callback registered for its session.
  \<^item> Ip_Addr, Ws_Server, Ws_System, Ws_Invariant: server/src. Ws_Server has a definition for
    each critical section and message of ws_controller.rs; Ws_System is the step relation in
    which the sections and sends of all connections interleave; Ws_Invariant has the
    invariant of its reachable states, Ws_Delivery the arrival of what is under way, and
    Ws_Refinement the specification as a directory of clients that the server refines.
    Server_Main is the program itself: environment, initial state, route.
  \<^item> Crypto_Token, Crypto_Cert: core/src/crypto, over the locales \<open>signature_scheme\<close> and
    \<open>x509_library\<close>.
  \<^item> Rtc_Messages, Chunks, Rtc_Pin, Rtc_Sender, Rtc_Receiver, Rtc_Negotiation:
    core/src/webrtc/webrtc.rs, in the order of a session: message types; strings and files in
    chunks (with app/rust/src/util/bytes.rs); the PIN challenges; the task of \<open>send_offer\<close>;
    the task of \<open>accept_offer\<close>; the negotiation around them. Rtc_Safety has what holds of one
    side against any peer, Rtc_Session runs the two sides against each other. Rtc_Causal shows
    that what a task does before it finds its stream closed (\<open>EvClosed\<close> in the trace) does not
    depend on what comes later, so that \<open>sent_by\<close> is what a waiting task has sent; Rtc_Schedule
    has the network between two such tasks as a step relation and, in the locale \<open>network\<close>,
    what is common to all orders of delivery; Rtc_Rounds and Rtc_Orders climb the rounds of a
    session, so that no order of delivery ends in a deadlock. Offer_Exchange brings an offer
    and its answer through the signaling server.
  \<^item> Http_Dto, Http_Url, Http_Client, Http_Server, Http_Session: core/src/http, version 2.1 and
    version 3; Http_Session lets the clients talk to the server's router. Http_Listener is the
    program \<open>start_with_port\<close>: its two listeners, the TLS set-up with the verifier of client
    certificates, and the tasks of the connections, as a step relation over the shared state.
  \<^item> App_Webrtc, App_Api: app/rust/src/api: signing in, starting a transfer and its
    controllers; the HTTP client, keys, the stream from the user interface.
  \<^item> Demo_Program: core/src/main.rs, the program that sends and receives a file on disk with
    fixed answers to every question, and runs the HTTP server with its client.
  \<^item> Transfer_Correct, Signaling_Correct, Http_Correct: the properties C1 to C40, each
    followed by a witness where it has premises.

  \<^bold>\<open>What is shown.\<close> A session between two peers that pass each other's checks ends on both
  sides and delivers the selected files unchanged (C1), in every order in which the network
  may deliver the messages (C2), up to what the two user interfaces see (C3); no peer can open
  a file that was not selected, and neither side reveals or shows files before the checks (C4
  to C6). The server keeps its limits, nothing crosses a group, its table is exactly the set
  of connections that are up (C7 to C9); an offer and its answer open a session through it, it
  refines a directory of clients, and what it announces arrives (C10 to C12). The HTTP server
  serves only clients whose certificate it has verified, under its key, and its listeners and
  its store of nonces keep their invariants (C15 to C17).
  The rest are the components: tokens, certificates, chunking, PINs, each handler of the
  signaling server, the negotiation, round trips of strings in chunks, both HTTP clients
  against the server, and the demonstration program, which copies its file from disk to disk.

  \<^bold>\<open>Loops.\<close> All definitions are total. The chunking loop has the length of the buffer as
  its measure; the PIN loop the distance of the \<open>u8\<close> counter to the allowed tries, which never
  wraps since the loop stops at the limit; the other loops recurse over the list of what
  arrives. The size of a chunk is 16 KiB, the buffer before the application 1 MiB, the cache
  of nonces has 200 entries, as in the code.

  \<^bold>\<open>Not modelled.\<close>
  \<^item> app/rust/src/frb_generated.rs is generated; app/rust/src/api/model.rs and the \<open>mirror\<close>
    declarations repeat types for the generator; logging; the base64 and clock helpers,
    single calls of libraries, are the operations of \<open>wire\<close> and an argument.
  \<^item> Sockets, TLS handshakes and the scheduler of the hourly job: what they report are
    arguments of the definitions and of the steps.
  \<^item> What the demonstration program prints of a transfer, and its PEM constants.
  \<^item> Time: a wait for the channel's buffer ends, or is cut off by the time limit where the
    code sets one (\<open>within_limit\<close> in Task_Monad). A receive that gets nothing ends as
    if the channel were closed; where the task would wait instead (C2), what it does from
    there on is disregarded. The clock of the tokens is an argument.
  \<^item> Capacities of channels: they delay a send and drop nothing.
  \<^item> The texts of errors made by libraries: such an error is one opaque value (\<open>LibError\<close>,
    \<open>ZlibErr\<close>, \<open>WebrtcErr\<close>), or what the world of the run says it is.
\<close>

end
